theory Spec2Isabelle
  imports Complex_Main "HOL-Library.Log_Nat"
begin

section \<open>JavaScript values\<close>

text \<open>
  The client (\<open>app/static/app.js\<close>) computes on JavaScript Numbers, strings and the JSON
  payloads of the server. A Number is an IEEE-754 double: a finite value is kept here as
  the rational it denotes, and every arithmetic result is rounded to the nearest double
  (\<open>to_double\<close> below). The two zeros are identified: the modelled code never divides by a
  zero it computed, \<open>-0 || 0\<close> is \<open>0\<close>, comparisons treat both alike and \<open>toFixed\<close>
  prints both as \<open>0.00\<close>.
\<close>

datatype jsnum = NaN | PosInf | NegInf | Fin rat

text \<open>
  A JSON value. The properties of an object are listed in creation order (the order of the
  text \<open>JSON.parse\<close> read), each name once. Strings are lists of code units below 256.
\<close>

datatype json =
    JNull
  | JBool bool
  | JNum jsnum
  | JStr string
  | JArr "json list"
  | JObj "(string \<times> json) list"

text \<open>A JavaScript value as the code meets it: \<open>undefined\<close> or a JSON value.\<close>

datatype jsval = Undefined | Val json

subsection \<open>Doubles\<close>

text \<open>
  \<open>ilog2 x\<close> is the binary exponent of a positive \<open>x\<close>: the \<open>e\<close> with \<open>2^e \<le> x < 2^(e+1)\<close>,
  found from the bit lengths of numerator and denominator.
\<close>

definition ilog2 :: "rat \<Rightarrow> int" where
  "ilog2 x =
     (let (a, b) = quotient_of x; d = bitlen a - bitlen b
      in if 2 powi d \<le> x then d else d - 1)"

definition round_half_even :: "rat \<Rightarrow> int" where
  "round_half_even r =
     (let f = \<lfloor>r\<rfloor>; d = r - of_int f
      in if d < 1 / 2 then f else if 1 / 2 < d then f + 1 else if even f then f else f + 1)"

text \<open>
  The double nearest to a rational, ties to the even significand: 53 bits of significand,
  the least exponent \<open>-1074\<close> (subnormal numbers), and infinity from \<open>2^1024\<close> on.
\<close>

definition to_double :: "rat \<Rightarrow> jsnum" where
  "to_double x =
     (if x = 0 then Fin 0
      else let a = \<bar>x\<bar>;
               u = max (ilog2 a - 52) (- 1074);
               y = of_int (round_half_even (a / 2 powi u)) * 2 powi u
           in if 2 ^ 1024 \<le> y then (if x < 0 then NegInf else PosInf)
              else Fin (if x < 0 then - y else y))"

fun js_neg :: "jsnum \<Rightarrow> jsnum" where
  "js_neg NaN = NaN"
| "js_neg PosInf = NegInf"
| "js_neg NegInf = PosInf"
| "js_neg (Fin q) = Fin (- q)"

text \<open>\<open>a * b\<close>\<close>

fun js_mul :: "jsnum \<Rightarrow> jsnum \<Rightarrow> jsnum" where
  "js_mul (Fin a) (Fin b) = to_double (a * b)"
| "js_mul NaN _ = NaN"
| "js_mul _ NaN = NaN"
| "js_mul (Fin a) PosInf = (if a = 0 then NaN else if 0 < a then PosInf else NegInf)"
| "js_mul (Fin a) NegInf = (if a = 0 then NaN else if 0 < a then NegInf else PosInf)"
| "js_mul PosInf (Fin b) = (if b = 0 then NaN else if 0 < b then PosInf else NegInf)"
| "js_mul NegInf (Fin b) = (if b = 0 then NaN else if 0 < b then NegInf else PosInf)"
| "js_mul PosInf PosInf = PosInf"
| "js_mul PosInf NegInf = NegInf"
| "js_mul NegInf PosInf = NegInf"
| "js_mul NegInf NegInf = PosInf"

text \<open>\<open>a / b\<close>; a zero divisor is taken as \<open>+0\<close>.\<close>

fun js_div :: "jsnum \<Rightarrow> jsnum \<Rightarrow> jsnum" where
  "js_div (Fin a) (Fin b) =
     (if b = 0 then (if a = 0 then NaN else if 0 < a then PosInf else NegInf)
      else to_double (a / b))"
| "js_div NaN _ = NaN"
| "js_div _ NaN = NaN"
| "js_div (Fin a) _ = Fin 0"
| "js_div PosInf (Fin b) = (if 0 \<le> b then PosInf else NegInf)"
| "js_div NegInf (Fin b) = (if 0 \<le> b then NegInf else PosInf)"
| "js_div _ _ = NaN"



text \<open>\<open>Number.isFinite\<close>\<close>

fun isFinite :: "jsnum \<Rightarrow> bool" where
  "isFinite (Fin _) = True"
| "isFinite _ = False"

text \<open>
  \<open>Math.round\<close>: the nearest integer, a tie going up. The result is a double whenever the
  argument is one.
\<close>

fun Math_round :: "jsnum \<Rightarrow> jsnum" where
  "Math_round (Fin q) = Fin (of_int \<lfloor>q + 1 / 2\<rfloor>)"
| "Math_round x = x"



subsection \<open>Decimal digits\<close>

definition is_digit :: "char \<Rightarrow> bool" where
  "is_digit c = (48 \<le> (of_char c :: int) \<and> (of_char c :: int) \<le> 57)"

definition digit_val :: "char \<Rightarrow> int" where
  "digit_val c = of_char c - 48"

definition digit_char :: "int \<Rightarrow> char" where
  "digit_char d = char_of (48 + d)"

text \<open>The value of a digit string read left to right, given the value read so far.\<close>

fun digits_val_from :: "int \<Rightarrow> string \<Rightarrow> int" where
  "digits_val_from acc [] = acc"
| "digits_val_from acc (c # cs) = digits_val_from (acc * 10 + digit_val c) cs"

definition digits_val :: "string \<Rightarrow> int" where
  "digits_val s = digits_val_from 0 s"

text \<open>
  The decimal digits of a natural number, without leading zeros (\<open>0\<close> is \<open>''0''\<close>). It is
  applied to integers that are not negative.
\<close>

function digits_of :: "int \<Rightarrow> string" where
  "digits_of n =
     (if n < 10 then [digit_char n] else digits_of (n div 10) @ [digit_char (n mod 10)])"
  by pat_completeness auto
termination
  by (relation "measure nat") auto

declare digits_of.simps [simp del]

definition show_nat :: "nat \<Rightarrow> string" where
  "show_nat n = digits_of (int n)"

subsection \<open>Number to string\<close>

text \<open>
  \<open>Number::toString\<close> of ECMAScript, radix 10. For a positive double \<open>x\<close> it takes the
  shortest digit string \<open>s\<close> (\<open>k\<close> digits) and the exponent \<open>n\<close> such that \<open>s * 10^(n-k)\<close>
  reads back as \<open>x\<close>, the closest to \<open>x\<close> when several do; seventeen digits always suffice.
  \<open>decimal_exponent x\<close> is the \<open>n\<close> with \<open>10^(n-1) \<le> x < 10^n\<close>.
\<close>

definition decimal_exponent :: "rat \<Rightarrow> int" where
  "decimal_exponent x =
     (let g = (if 1 \<le> x then int (length (digits_of \<lfloor>x\<rfloor>))
               else 1 - int (length (digits_of \<lfloor>1 / x\<rfloor>)))
      in if x < 10 powi (g - 1) then g - 1 else if 10 powi g \<le> x then g + 1 else g)"

fun shortest_digits :: "rat \<Rightarrow> int \<Rightarrow> nat \<Rightarrow> nat \<Rightarrow> int \<times> nat" where
  "shortest_digits x n k 0 = (\<lfloor>x / 10 powi (n - int k)\<rfloor>, k)"
| "shortest_digits x n k (Suc fuel) =
     (let p = 10 powi (n - int k);
          lo = \<lfloor>x / p\<rfloor>;
          hi = lo + 1;
          ok_lo = (to_double (of_int lo * p) = Fin x);
          ok_hi = (to_double (of_int hi * p) = Fin x)
      in if ok_lo \<and> ok_hi then
           (if x - of_int lo * p < of_int hi * p - x then lo
            else if of_int hi * p - x < x - of_int lo * p then hi
            else if even lo then lo else hi, k)
         else if ok_lo then (lo, k)
         else if ok_hi then (hi, k)
         else shortest_digits x n (Suc k) fuel)"

definition positive_toString :: "rat \<Rightarrow> string" where
  "positive_toString x =
     (let n0 = decimal_exponent x;
          (s, k) = shortest_digits x n0 1 16;
          ds0 = digits_of s;
          n = (if k < length ds0 then n0 + 1 else n0);
          ds = take k ds0
      in if int k \<le> n \<and> n \<le> 21 then ds @ replicate (nat (n - int k)) CHR ''0''
         else if 0 < n \<and> n \<le> 21 then take (nat n) ds @ ''.'' @ drop (nat n) ds
         else if - 6 < n \<and> n \<le> 0 then ''0.'' @ replicate (nat (- n)) CHR ''0'' @ ds
         else (if k = 1 then ds else hd ds # ''.'' @ tl ds) @ ''e''
              @ (if 0 \<le> n - 1 then ''+'' else ''-'') @ digits_of \<bar>n - 1\<bar>)"

fun Number_toString :: "jsnum \<Rightarrow> string" where
  "Number_toString NaN = ''NaN''"
| "Number_toString PosInf = ''Infinity''"
| "Number_toString NegInf = ''-Infinity''"
| "Number_toString (Fin q) =
     (if q = 0 then ''0''
      else if q < 0 then ''-'' @ positive_toString (- q)
      else positive_toString q)"

subsection \<open>String to number\<close>

text \<open>
  \<open>StringToNumber\<close> of ECMAScript, which \<open>Number(string)\<close> applies: white space is trimmed,
  the empty string is \<open>0\<close>, then a binary, octal or hexadecimal integer literal, or an
  optionally signed \<open>Infinity\<close> or decimal literal with an optional exponent; anything else
  is \<open>NaN\<close>. The value of the literal is rounded to the nearest double. (ECMAScript lets
  an implementation round a literal of more than twenty significant digits from its first
  twenty; the engines round the exact value, as this definition does.)
\<close>

definition is_space :: "char \<Rightarrow> bool" where
  "is_space c = ((of_char c :: int) \<in> {9, 10, 11, 12, 13, 32, 160})"

definition trim :: "string \<Rightarrow> string" where
  "trim s = rev (dropWhile is_space (rev (dropWhile is_space s)))"

definition hex_val :: "char \<Rightarrow> int option" where
  "hex_val c =
     (let n = (of_char c :: int)
      in if 48 \<le> n \<and> n \<le> 57 then Some (n - 48)
         else if 97 \<le> n \<and> n \<le> 102 then Some (n - 87)
         else if 65 \<le> n \<and> n \<le> 70 then Some (n - 55)
         else None)"

fun radix_val :: "int \<Rightarrow> int \<Rightarrow> string \<Rightarrow> int option" where
  "radix_val b acc [] = Some acc"
| "radix_val b acc (c # cs) =
     (case hex_val c of
        None \<Rightarrow> None
      | Some d \<Rightarrow> if d < b then radix_val b (acc * b + d) cs else None)"

definition parse_nondecimal :: "string \<Rightarrow> int option" where
  "parse_nondecimal t =
     (case t of
        z # x # ds \<Rightarrow>
          if z = CHR ''0'' \<and> ds \<noteq> [] then
            (if x = CHR ''x'' \<or> x = CHR ''X'' then radix_val 16 0 ds
             else if x = CHR ''o'' \<or> x = CHR ''O'' then radix_val 8 0 ds
             else if x = CHR ''b'' \<or> x = CHR ''B'' then radix_val 2 0 ds
             else None)
          else None
      | _ \<Rightarrow> None)"

definition parse_exponent :: "rat \<Rightarrow> string \<Rightarrow> rat option" where
  "parse_exponent m r =
     (case r of
        [] \<Rightarrow> Some m
      | c # t \<Rightarrow>
          if c = CHR ''e'' \<or> c = CHR ''E'' then
            (let (neg, ds) = (case t of
                                [] \<Rightarrow> (False, [])
                              | s # t' \<Rightarrow> if s = CHR ''-'' then (True, t')
                                          else if s = CHR ''+'' then (False, t') else (False, t))
             in if ds \<noteq> [] \<and> list_all is_digit ds
                then Some (m * 10 powi (if neg then - digits_val ds else digits_val ds))
                else None)
          else None)"

definition parse_decimal :: "string \<Rightarrow> rat option" where
  "parse_decimal r =
     (let ip = takeWhile is_digit r; r1 = dropWhile is_digit r
      in case r1 of
           [] \<Rightarrow> if ip = [] then None else Some (of_int (digits_val ip))
         | c # t \<Rightarrow>
             if c = CHR ''.'' then
               (let fp = takeWhile is_digit t; r2 = dropWhile is_digit t
                in if ip = [] \<and> fp = [] then None
                   else parse_exponent
                          (of_int (digits_val ip) + of_int (digits_val fp) / 10 ^ length fp) r2)
             else if ip = [] then None
             else parse_exponent (of_int (digits_val ip)) r1)"

definition parse_unsigned :: "string \<Rightarrow> jsnum" where
  "parse_unsigned r =
     (if r = ''Infinity'' then PosInf
      else case parse_decimal r of None \<Rightarrow> NaN | Some q \<Rightarrow> to_double q)"

definition StringToNumber :: "string \<Rightarrow> jsnum" where
  "StringToNumber s =
     (let t = trim s
      in case t of
           [] \<Rightarrow> Fin 0
         | c # r \<Rightarrow>
             (case parse_nondecimal t of
                Some n \<Rightarrow> to_double (of_int n)
              | None \<Rightarrow>
                  if c = CHR ''-'' then js_neg (parse_unsigned r)
                  else if c = CHR ''+'' then parse_unsigned r
                  else parse_unsigned t))"

subsection \<open>Conversions\<close>

fun join_comma :: "string list \<Rightarrow> string" where
  "join_comma [] = []"
| "join_comma [x] = x"
| "join_comma (x # y # zs) = x @ '','' @ join_comma (y # zs)"

text \<open>
  \<open>String(v)\<close>: an array joins the strings of its elements with commas, \<open>null\<close> elements
  giving the empty string; a plain object is \<open>[object Object]\<close>.
\<close>

fun ToString :: "json \<Rightarrow> string" where
  "ToString JNull = ''null''"
| "ToString (JBool b) = (if b then ''true'' else ''false'')"
| "ToString (JNum x) = Number_toString x"
| "ToString (JStr s) = s"
| "ToString (JArr xs) = join_comma (map (\<lambda>x. if x = JNull then [] else ToString x) xs)"
| "ToString (JObj ps) = ''[object Object]''"

fun js_String :: "jsval \<Rightarrow> string" where
  "js_String Undefined = ''undefined''"
| "js_String (Val j) = ToString j"

text \<open>\<open>Number(v)\<close>: arrays and objects go through their string.\<close>

fun js_Number :: "jsval \<Rightarrow> jsnum" where
  "js_Number Undefined = NaN"
| "js_Number (Val JNull) = Fin 0"
| "js_Number (Val (JBool b)) = (if b then Fin 1 else Fin 0)"
| "js_Number (Val (JNum x)) = x"
| "js_Number (Val j) = StringToNumber (ToString j)"

subsection \<open>Truthiness, \<open>typeof\<close>, own properties\<close>

fun num_truthy :: "jsnum \<Rightarrow> bool" where
  "num_truthy NaN = False"
| "num_truthy (Fin q) = (q \<noteq> 0)"
| "num_truthy _ = True"

fun json_truthy :: "json \<Rightarrow> bool" where
  "json_truthy JNull = False"
| "json_truthy (JBool b) = b"
| "json_truthy (JNum x) = num_truthy x"
| "json_truthy (JStr s) = (s \<noteq> [])"
| "json_truthy _ = True"

fun truthy :: "jsval \<Rightarrow> bool" where
  "truthy Undefined = False"
| "truthy (Val j) = json_truthy j"

text \<open>\<open>a || b\<close>\<close>

definition js_or :: "jsval \<Rightarrow> jsval \<Rightarrow> jsval" where
  "js_or a b = (if truthy a then a else b)"

text \<open>\<open>typeof v === "object"\<close> (true of \<open>null\<close>, arrays and objects)\<close>

fun typeof_object :: "json \<Rightarrow> bool" where
  "typeof_object JNull = True"
| "typeof_object (JArr _) = True"
| "typeof_object (JObj _) = True"
| "typeof_object _ = False"

text \<open>\<open>typeof v === "string"\<close>\<close>

fun typeof_string :: "jsval \<Rightarrow> bool" where
  "typeof_string (Val (JStr _)) = True"
| "typeof_string _ = False"

text \<open>
  An array index is the canonical decimal string of an integer below \<open>2^32 - 1\<close>.
  \<open>Object.keys\<close> lists the own enumerable property names: the array indices in
  ascending numeric order, then the other names in creation order.
\<close>

definition is_array_index :: "string \<Rightarrow> bool" where
  "is_array_index s =
     (s \<noteq> [] \<and> list_all is_digit s \<and> (s = ''0'' \<or> hd s \<noteq> CHR ''0'') \<and> digits_val s < 2 ^ 32 - 1)"

fun Object_keys :: "json \<Rightarrow> string list" where
  "Object_keys (JObj ps) =
     sort_key digits_val (filter is_array_index (map fst ps)) @
     filter (\<lambda>k. \<not> is_array_index k) (map fst ps)"
| "Object_keys (JArr xs) = map show_nat [0 ..< length xs]"
| "Object_keys (JStr s) = map show_nat [0 ..< length s]"
| "Object_keys _ = []"

text \<open>
  The own properties of a value that is neither \<open>null\<close> nor \<open>undefined\<close>: those of an
  object, and the elements and \<open>length\<close> of an array or a string. This is the whole of a
  read \<open>v.p\<close> when no prototype has a member named \<open>p\<close>; the general read is \<open>get\<close> below.
\<close>

fun get_own :: "json \<Rightarrow> string \<Rightarrow> jsval" where
  "get_own (JObj ps) p = (case map_of ps p of None \<Rightarrow> Undefined | Some v \<Rightarrow> Val v)"
| "get_own (JArr xs) p =
     (if p = ''length'' then Val (JNum (Fin (of_nat (length xs))))
      else if is_array_index p \<and> digits_val p < int (length xs) then Val (xs ! nat (digits_val p))
      else Undefined)"
| "get_own (JStr s) p =
     (if p = ''length'' then Val (JNum (Fin (of_nat (length s))))
      else if is_array_index p \<and> digits_val p < int (length s)
      then Val (JStr [s ! nat (digits_val p)])
      else Undefined)"
| "get_own _ p = Undefined"

text \<open>\<open>v?.p\<close>\<close>

fun opt_member :: "jsval \<Rightarrow> string \<Rightarrow> jsval" where
  "opt_member Undefined p = Undefined"
| "opt_member (Val JNull) p = Undefined"
| "opt_member (Val j) p = get_own j p"

text \<open>
  \<open>m.EUR !== undefined\<close>, for \<open>m\<close> an object or an array: a JSON object has the property
  exactly when the name is among its own properties (a JSON value is never \<open>undefined\<close>,
  and no prototype has a property of that name); an array has none of that name.
\<close>

fun has_EUR :: "json \<Rightarrow> bool" where
  "has_EUR (JObj ps) = (map_of ps ''EUR'' \<noteq> None)"
| "has_EUR _ = False"


subsection \<open>Inherited members\<close>

text \<open>
  A property read \<open>v.p\<close> also finds what \<open>v\<close> inherits from its prototype. These are the
  string-named members of the prototypes of ECMAScript 2024 (with its Annex B): built-in
  functions, and \<open>__proto__\<close>, which reads as the prototype object itself.
\<close>

definition Object_prototype :: "string list" where
  "Object_prototype =
     [''constructor'', ''hasOwnProperty'', ''isPrototypeOf'', ''propertyIsEnumerable'',
      ''toLocaleString'', ''toString'', ''valueOf'', ''__proto__'', ''__defineGetter__'',
      ''__defineSetter__'', ''__lookupGetter__'', ''__lookupSetter__'']"

definition Array_prototype :: "string list" where
  "Array_prototype =
     [''at'', ''concat'', ''constructor'', ''copyWithin'', ''entries'', ''every'', ''fill'',
      ''filter'', ''find'', ''findIndex'', ''findLast'', ''findLastIndex'', ''flat'', ''flatMap'',
      ''forEach'', ''includes'', ''indexOf'', ''join'', ''keys'', ''lastIndexOf'', ''map'', ''pop'',
      ''push'', ''reduce'', ''reduceRight'', ''reverse'', ''shift'', ''slice'', ''some'', ''sort'',
      ''splice'', ''toLocaleString'', ''toReversed'', ''toSorted'', ''toSpliced'', ''toString'',
      ''unshift'', ''values'', ''with'']"

definition String_prototype :: "string list" where
  "String_prototype =
     [''at'', ''charAt'', ''charCodeAt'', ''codePointAt'', ''concat'', ''constructor'',
      ''endsWith'', ''includes'', ''indexOf'', ''isWellFormed'', ''lastIndexOf'',
      ''localeCompare'', ''match'', ''matchAll'', ''normalize'', ''padEnd'', ''padStart'',
      ''repeat'', ''replace'', ''replaceAll'', ''search'', ''slice'', ''split'', ''startsWith'',
      ''substring'', ''toLocaleLowerCase'', ''toLocaleUpperCase'', ''toLowerCase'', ''toString'',
      ''toUpperCase'', ''toWellFormed'', ''trim'', ''trimEnd'', ''trimStart'', ''valueOf'',
      ''substr'', ''anchor'', ''big'', ''blink'', ''bold'', ''fixed'', ''fontcolor'', ''fontsize'',
      ''italics'', ''link'', ''small'', ''strike'', ''sub'', ''sup'', ''trimLeft'', ''trimRight'']"

definition Number_prototype :: "string list" where
  "Number_prototype =
     [''constructor'', ''toExponential'', ''toFixed'', ''toLocaleString'', ''toPrecision'',
      ''toString'', ''valueOf'']"

definition Boolean_prototype :: "string list" where
  "Boolean_prototype = [''constructor'', ''toString'', ''valueOf'']"

fun inherits :: "json \<Rightarrow> string \<Rightarrow> bool" where
  "inherits JNull p = False"
| "inherits (JBool b) p = (p \<in> set Boolean_prototype \<or> p \<in> set Object_prototype)"
| "inherits (JNum x) p = (p \<in> set Number_prototype \<or> p \<in> set Object_prototype)"
| "inherits (JStr s) p = (p \<in> set String_prototype \<or> p \<in> set Object_prototype)"
| "inherits (JArr xs) p = (p \<in> set Array_prototype \<or> p \<in> set Object_prototype)"
| "inherits (JObj ps) p = (p \<in> set Object_prototype)"

text \<open>
  What a property read yields: a JSON value or \<open>undefined\<close>, or the member named \<open>p\<close> that
  the value \<open>j\<close> inherits.
\<close>

datatype jsany = Json jsval | Inherited json string

text \<open>\<open>j[p]\<close>, for \<open>j\<close> that is not \<open>null\<close>: an own property hides an inherited member.\<close>

definition get :: "json \<Rightarrow> string \<Rightarrow> jsany" where
  "get j p =
     (case get_own j p of
        Undefined \<Rightarrow> if inherits j p then Inherited j p else Json Undefined
      | v \<Rightarrow> Json v)"

text \<open>\<open>j?.[p]\<close>\<close>

definition opt_get :: "json \<Rightarrow> string \<Rightarrow> jsany" where
  "opt_get j p = (if j = JNull then Json Undefined else get j p)"

text \<open>A built-in function and a prototype object are truthy.\<close>

fun any_truthy :: "jsany \<Rightarrow> bool" where
  "any_truthy (Json v) = truthy v"
| "any_truthy (Inherited j p) = True"

text \<open>
  \<open>Number(v)\<close> of an inherited member. A function is converted through its source text,
  which is no numeric literal. Of the prototype objects, \<open>Object.prototype\<close> gives
  \<open>[object Object]\<close>; \<open>Array.prototype\<close> is an empty array, \<open>String.prototype\<close> wraps the
  empty string, \<open>Number.prototype\<close> wraps \<open>0\<close> and \<open>Boolean.prototype\<close> wraps \<open>false\<close>.
\<close>

definition inherited_Number :: "json \<Rightarrow> string \<Rightarrow> jsnum" where
  "inherited_Number j p =
     (if p = ''__proto__'' then (case j of JObj _ \<Rightarrow> NaN | _ \<Rightarrow> Fin 0) else NaN)"

text \<open>
  \<open>v || d\<close> for a JSON value or \<open>undefined\<close> \<open>v\<close> and a truthy JSON value \<open>d\<close>; and the values
  of \<open>Object.entries(j)\<close>, in the order of \<open>Object.keys\<close>.
\<close>

definition or_json :: "jsval \<Rightarrow> json \<Rightarrow> json" where
  "or_json v d = (case v of Val j \<Rightarrow> if json_truthy j then j else d | Undefined \<Rightarrow> d)"

fun Object_values :: "json \<Rightarrow> json list" where
  "Object_values (JObj ps) =
     map snd (sort_key (\<lambda>kv. digits_val (fst kv)) (filter (\<lambda>kv. is_array_index (fst kv)) ps)
              @ filter (\<lambda>kv. \<not> is_array_index (fst kv)) ps)"
| "Object_values (JArr xs) = xs"
| "Object_values (JStr s) = map (\<lambda>c. JStr [c]) s"
| "Object_values _ = []"
section \<open>Money\<close>

text \<open>\<open>s.replace(",", ".")\<close>: the first comma becomes a point.\<close>

fun replace_comma :: "string \<Rightarrow> string" where
  "replace_comma [] = []"
| "replace_comma (c # cs) = (if c = CHR '','' then CHR ''.'' # cs else c # replace_comma cs)"

text \<open>
  \<open>x.toFixed(2)\<close>: a value that is not finite, or is \<open>10^21\<close> or more in magnitude, is
  printed as \<open>String\<close> prints it; otherwise the integer \<open>n\<close> nearest to \<open>100 * |x|\<close> (the
  larger of two) is printed with a point before its last two digits, after zeros that
  bring it to three digits.
\<close>

definition toFixed2 :: "jsnum \<Rightarrow> string" where
  "toFixed2 x =
     (case x of
        Fin q \<Rightarrow>
          (let s = (if q < 0 then ''-'' else []); a = \<bar>q\<bar>
           in if 10 ^ 21 \<le> a then s @ Number_toString (Fin a)
              else let n = \<lfloor>a * 100 + 1 / 2\<rfloor>;
                       m0 = digits_of n;
                       m = replicate (3 - length m0) CHR ''0'' @ m0;
                       k = length m
                   in s @ take (k - 2) m @ ''.'' @ drop (k - 2) m)
      | _ \<Rightarrow> Number_toString x)"

text \<open>\<open>amountStrToCents(amountStr)\<close>, lines 401 to 405.\<close>

definition amountStrToCents :: "jsval \<Rightarrow> jsnum" where
  "amountStrToCents amountStr =
     (let n = StringToNumber (replace_comma (js_String (js_or amountStr (Val (JStr ''0'')))))
      in if \<not> isFinite n then Fin 0 else Math_round (js_mul n (Fin 100)))"

text \<open>\<open>centsToAmountStr(cents)\<close>, lines 407 to 409.\<close>

definition centsToAmountStr :: "jsval \<Rightarrow> string" where
  "centsToAmountStr cents =
     toFixed2 (js_div (js_Number (js_or cents (Val (JNum (Fin 0))))) (Fin 100))"

text \<open>\<open>formatCentsNumber(cents)\<close>, lines 85 to 87.\<close>

definition formatCentsNumber :: "jsval \<Rightarrow> string" where
  "formatCentsNumber cents = toFixed2 (js_div (js_Number cents) (Fin 100))"

text \<open>
  The number \<open>formatMoney(amountStr, currency)\<close> hands to \<open>Intl.NumberFormat\<close>, lines 72
  and 73. The formatting itself is the platform's.
\<close>

definition formatMoney_value :: "jsval \<Rightarrow> jsnum" where
  "formatMoney_value amountStr =
     (let n = StringToNumber (replace_comma (js_String (js_or amountStr (Val (JStr ''0'')))))
      in if isFinite n then n else Fin 0)"

section \<open>Choosing the display currency\<close>

text \<open>
  \<open>pickCurrency(maps)\<close>, lines 411 to 422. The first loop returns \<open>"EUR"\<close> at the first
  element that is a truthy object with an \<open>EUR\<close> property; the second loop returns the
  first key of the first truthy object that has keys; the function falls through to
  \<open>"EUR"\<close>.
\<close>

fun pickCurrency_loop1 :: "json list \<Rightarrow> string option" where
  "pickCurrency_loop1 [] = None"
| "pickCurrency_loop1 (m # ms) =
     (if json_truthy m \<and> typeof_object m \<and> has_EUR m then Some ''EUR''
      else pickCurrency_loop1 ms)"

fun pickCurrency_loop2 :: "json list \<Rightarrow> string option" where
  "pickCurrency_loop2 [] = None"
| "pickCurrency_loop2 (m # ms) =
     (if json_truthy m \<and> typeof_object m then
        (case Object_keys m of
           [] \<Rightarrow> pickCurrency_loop2 ms
         | k # _ \<Rightarrow> Some k)
      else pickCurrency_loop2 ms)"

definition pickCurrency :: "json list \<Rightarrow> string" where
  "pickCurrency maps =
     (case pickCurrency_loop1 maps of
        Some c \<Rightarrow> c
      | None \<Rightarrow> (case pickCurrency_loop2 maps of Some k \<Rightarrow> k | None \<Rightarrow> ''EUR''))"

text \<open>
  The precedence as the specification words it. A currency map is an object or an array;
  its keys are taken in \<open>Object.keys\<close> order.
\<close>

definition is_map :: "json \<Rightarrow> bool" where
  "is_map m = (case m of JObj _ \<Rightarrow> True | JArr _ \<Rightarrow> True | _ \<Rightarrow> False)"

definition map_keys :: "json \<Rightarrow> string list" where
  "map_keys m = (if is_map m then Object_keys m else [])"

definition pickDisplayCurrency_spec :: "json list \<Rightarrow> string" where
  "pickDisplayCurrency_spec maps =
     (if \<exists>m \<in> set maps. is_map m \<and> ''EUR'' \<in> set (map_keys m) then ''EUR''
      else (case filter (\<lambda>m. map_keys m \<noteq> []) maps of
              [] \<Rightarrow> ''EUR''
            | m # _ \<Rightarrow> hd (map_keys m)))"

section \<open>The figures of the dashboard\<close>

text \<open>
  The figures of \<open>renderDashboard(root, data)\<close>, lines 452 to 458, from the values found
  under the display currency in the three maps.

  \<open>typeof bankMap?.[currency] === "string" ? amountStrToCents(bankMap[currency])
   : Number(bankMap?.[currency] || 0)\<close>, for the value \<open>bankMap?.[currency]\<close>: the currency is a
  key of one of the maps or \<open>EUR\<close>, so the read may find an inherited member.
\<close>

definition bankCents_of :: "jsany \<Rightarrow> jsnum" where
  "bankCents_of v =
     (case v of
        Json x \<Rightarrow>
          if typeof_string x then amountStrToCents x
          else js_Number (js_or x (Val (JNum (Fin 0))))
      | Inherited j p \<Rightarrow> inherited_Number j p)"



text \<open>
  \<open>bankCents\<close> for a bank map and the display currency. The map is
  \<open>report?.bankBalanceByCurrency || bootstrap.bank?.balanceByCurrency || {}\<close>, a truthy value.
\<close>

definition bankCents :: "json \<Rightarrow> string \<Rightarrow> jsnum" where
  "bankCents bankMap currency = bankCents_of (opt_get bankMap currency)"

text \<open>
  The bank card, line 465: \<open>formatMoney(centsToAmountStr(bankCents), currency)\<close>. The amount
  it gives to \<open>formatMoney\<close>, and the number \<open>formatMoney\<close> hands to \<open>Intl.NumberFormat\<close>.
\<close>

definition bank_amount :: "json \<Rightarrow> string \<Rightarrow> string" where
  "bank_amount bankMap currency = centsToAmountStr (Val (JNum (bankCents bankMap currency)))"

definition bank_shown :: "json \<Rightarrow> string \<Rightarrow> jsnum" where
  "bank_shown bankMap currency = formatMoney_value (Val (JStr (bank_amount bankMap currency)))"

subsection \<open>The specification's wording of the money rules\<close>



text \<open>
  A decimal string: an optional minus sign, digits, and optionally a separator (a point or
  a comma) followed by fractional digits.
\<close>

definition decimal_string :: "bool \<Rightarrow> string \<Rightarrow> (char \<times> string) option \<Rightarrow> string" where
  "decimal_string neg ip fr =
     (if neg then ''-'' else []) @ ip @ (case fr of None \<Rightarrow> [] | Some (sep, fd) \<Rightarrow> sep # fd)"

definition is_decimal :: "string \<Rightarrow> (char \<times> string) option \<Rightarrow> bool" where
  "is_decimal ip fr =
     (ip \<noteq> [] \<and> list_all is_digit ip \<and>
      (case fr of
         None \<Rightarrow> True
       | Some (sep, fd) \<Rightarrow> (sep = CHR ''.'' \<or> sep = CHR '','') \<and> list_all is_digit fd))"

definition fraction_digits :: "(char \<times> string) option \<Rightarrow> string" where
  "fraction_digits fr = (case fr of None \<Rightarrow> [] | Some (sep, fd) \<Rightarrow> fd)"

text \<open>
  The numeric value of a decimal string, and that value in cents: the nearest integer to a
  hundred times the value, a tie going up as \<open>Math.round\<close> takes it. With at most two
  fractional digits a hundred times the value is an integer.
\<close>

definition decimal_value :: "bool \<Rightarrow> string \<Rightarrow> (char \<times> string) option \<Rightarrow> rat" where
  "decimal_value neg ip fr =
     (let fd = fraction_digits fr;
          v = of_int (digits_val ip) + of_int (digits_val fd) / 10 ^ length fd
      in if neg then - v else v)"

definition decimal_cents :: "bool \<Rightarrow> string \<Rightarrow> (char \<times> string) option \<Rightarrow> int" where
  "decimal_cents neg ip fr = \<lfloor>decimal_value neg ip fr * 100 + 1 / 2\<rfloor>"

text \<open>
  The canonical form with two fractional digits of an amount of \<open>k\<close> cents: a minus sign
  when it is negative, the whole part without leading zeros, a point, two digits.
\<close>

definition canonical2 :: "int \<Rightarrow> string" where
  "canonical2 k =
     (if k < 0 then ''-'' else []) @ digits_of (\<bar>k\<bar> div 100) @ ''.'' @
     [digit_char (\<bar>k\<bar> div 10 mod 10), digit_char (\<bar>k\<bar> mod 10)]"


section \<open>Effects: the page, the network, the cache database\<close>

text \<open>
  What lies outside the script is an environment the functions read: how each IndexedDB
  request ends, what \<open>fetchJson\<close> yields for each request, what the user answers to each
  dialog, and the clock. Within one run of an orchestrator or of an event handler every
  cache operation is made once per key and every request once, so the environment is
  asked by operation and key, and by request. A \<open>confirm\<close> dialog is answered by its
  position among the dialogs shown.
\<close>

datatype js_error = Error string | DOMException string | TypeError string

fun message :: "js_error \<Rightarrow> string" where
  "message (Error m) = m"
| "message (DOMException m) = m"
| "message (TypeError m) = m"

datatype request = GET string | POST string json

datatype cache_op = Get string | Put string

text \<open>
  How an IndexedDB request, or the transaction of a \<open>put\<close>, ends: with success
  (\<open>success\<close>, \<open>complete\<close>), with an \<open>error\<close> event or an exception thrown when the request
  is made, or with the transaction aborted and no \<open>error\<close> event on it (a \<open>put\<close> whose
  transaction fails at commit, as when the quota is exceeded, fires \<open>abort\<close> only).
\<close>

datatype idb_result = Succeeds | Fails js_error | Aborts

record env =
  idb_open :: "cache_op \<Rightarrow> idb_result"
  idb_request :: "cache_op \<Rightarrow> idb_result"
  fetch_result :: "request \<Rightarrow> js_error + json"
  second_rejects_first :: bool
  confirm_answer :: "nat \<Rightarrow> bool"
  date_now :: "string \<Rightarrow> nat"
  current_year :: nat
  current_month :: nat

text \<open>A row of the object store \<open>cache\<close> (key path \<open>key\<close>), as \<open>cacheSet\<close> writes it.\<close>

record cache_entry =
  key :: string
  data :: json
  updatedAt :: nat

text \<open>
  A row of the debts table: whether its payment form is shown, and its payments box (a
  text, or the table of payments that \<open>refreshPayments\<close> put there).
\<close>

datatype box = BoxText string | BoxPayments jsval

record debt_row =
  form_shown :: bool
  paymentsBox :: box

text \<open>
  What an element of the page shows. Building the nodes of a view is DOM assembly; a view
  is kept as the render function that drew it together with the arguments it drew, and
  the text of its status line where it has one. A render function that throws while it
  builds its nodes leaves the element as it was.
\<close>

datatype widget =
    Untouched
  | Loading
  | AlertNode string
  | TextNode string
  | DashboardView jsval
  | CompaniesView jsval string
  | WorkEntriesView jsany jsval string
  | ExpenseFormView string
  | ExpensesView jsval
  | BankBalanceView jsval
  | BankMovementsView jsval
  | MonthCloseView string
  | DebtFormView string
  | DebtsView jsval "nat \<Rightarrow> debt_row"
  | ReportsView
  | MonthlyReportView jsval
  | AdminView jsval jsval

datatype dialog = Confirm string | Alert string

text \<open>
  The state a run changes: the object store, the \<open>put\<close> requests issued (by key, oldest
  first), the elements of the page by selector (\<open>None\<close>: the page has no such element)
  with what they show, the requests sent, the dialogs shown and the global
  \<open>CURRENT_USER\<close>. Every \<open>render\<close> builds new nodes: what an element shows carries the
  number of the \<open>render\<close> call that drew it, so that a handler which writes to a node of
  the view it belongs to changes the page only while that view is still attached.
\<close>

record world =
  idb :: "string \<rightharpoonup> cache_entry"
  put_log :: "string list"
  dom :: "string \<rightharpoonup> nat \<times> widget"
  renders :: nat
  fetch_log :: "request list"
  dialogs :: "dialog list"
  CURRENT_USER :: jsval

text \<open>
  How a call ends: it returns a value, it throws (an asynchronous function rejects), or
  it waits for ever on a promise that never settles.
\<close>

datatype 'a outcome = Returns 'a | Throws js_error | Pending

text \<open>
  A function is a state transformer with an outcome. \<open>await m f\<close> runs \<open>m\<close> and continues
  with \<open>f\<close> on its value; a rejection skips \<open>f\<close>, and so does a promise that never settles.
  \<open>try { m } catch (e) { h }\<close> hands a rejection to \<open>h\<close>; it cannot catch what never settles.
\<close>

type_synonym 'a io = "world \<Rightarrow> 'a outcome \<times> world"

definition return :: "'a \<Rightarrow> 'a io" where
  "return x w = (Returns x, w)"

definition throw :: "js_error \<Rightarrow> 'a io" where
  "throw e w = (Throws e, w)"

definition await :: "'a io \<Rightarrow> ('a \<Rightarrow> 'b io) \<Rightarrow> 'b io" where
  "await m f w =
     (case m w of
        (Returns x, w') \<Rightarrow> f x w'
      | (Throws e, w') \<Rightarrow> (Throws e, w')
      | (Pending, w') \<Rightarrow> (Pending, w'))"

definition try_catch :: "'a io \<Rightarrow> (js_error \<Rightarrow> 'a io) \<Rightarrow> 'a io" where
  "try_catch m h w =
     (case m w of
        (Returns x, w') \<Rightarrow> (Returns x, w')
      | (Throws e, w') \<Rightarrow> h e w'
      | (Pending, w') \<Rightarrow> (Pending, w'))"

text \<open>\<open>if (c) m\<close>\<close>

definition if_then :: "bool \<Rightarrow> unit io \<Rightarrow> unit io" where
  "if_then c m = (if c then m else return ())"

text \<open>
  \<open>v.p\<close> for a name \<open>p\<close> that no prototype has: a \<open>TypeError\<close> when \<open>v\<close> is \<open>null\<close> or
  \<open>undefined\<close>, else the own property. The texts of the \<open>TypeError\<close>s are the engine's
  (here V8's and Blink's).
\<close>

definition cannot_read :: "string \<Rightarrow> string \<Rightarrow> js_error" where
  "cannot_read what p =
     TypeError (''Cannot read properties of '' @ what @ '' (reading '' @ [CHR 0x27] @ p
                @ [CHR 0x27] @ '')'')"

definition member :: "jsval \<Rightarrow> string \<Rightarrow> jsval io" where
  "member v p =
     (case v of
        Undefined \<Rightarrow> throw (cannot_read ''undefined'' p)
      | Val JNull \<Rightarrow> throw (cannot_read ''null'' p)
      | Val j \<Rightarrow> return (get_own j p))"

text \<open>\<open>j.p\<close> for a fetched payload \<open>j\<close> and any name: the general read.\<close>

definition member_any :: "json \<Rightarrow> string \<Rightarrow> jsany io" where
  "member_any j p = (if j = JNull then throw (cannot_read ''null'' p) else return (get j p))"

text \<open>
  \<open>fetchJson(url, opts)\<close>, lines 110 to 129, by its outcome. The request is aborted after
  twelve seconds, so the call settles.
\<close>

definition fetchJson :: "env \<Rightarrow> request \<Rightarrow> json io" where
  "fetchJson E r w =
     (case fetch_result E r of
        Inl e \<Rightarrow> (Throws e, w\<lparr>fetch_log := fetch_log w @ [r]\<rparr>)
      | Inr j \<Rightarrow> (Returns j, w\<lparr>fetch_log := fetch_log w @ [r]\<rparr>))"

text \<open>
  \<open>Promise.all([fetchJson(a), fetchJson(b)])\<close>: both requests are sent; the pair is the
  result when both succeed, and the rejection that came first otherwise.
\<close>

definition promise_all2 :: "env \<Rightarrow> request \<Rightarrow> request \<Rightarrow> (json \<times> json) io" where
  "promise_all2 E a b w =
     (let w' = w\<lparr>fetch_log := fetch_log w @ [a, b]\<rparr>
      in case (fetch_result E a, fetch_result E b) of
           (Inr x, Inr y) \<Rightarrow> (Returns (x, y), w')
         | (Inl e, Inr y) \<Rightarrow> (Throws e, w')
         | (Inr x, Inl e) \<Rightarrow> (Throws e, w')
         | (Inl e1, Inl e2) \<Rightarrow> (Throws (if second_rejects_first E then e2 else e1), w'))"

text \<open>\<open>confirm(message)\<close> and \<open>alert(message)\<close>\<close>

definition confirm :: "env \<Rightarrow> string \<Rightarrow> bool io" where
  "confirm E msg w =
     (Returns (confirm_answer E (length (dialogs w))),
      w\<lparr>dialogs := dialogs w @ [Confirm msg]\<rparr>)"

definition alert :: "string \<Rightarrow> unit io" where
  "alert msg w = (Returns (), w\<lparr>dialogs := dialogs w @ [Alert msg]\<rparr>)"

text \<open>\<open>render(root, children)\<close>, lines 66 to 69, for the element a selector found.\<close>

definition render :: "string \<Rightarrow> widget \<Rightarrow> unit io" where
  "render sel v w =
     (Returns (), w\<lparr>dom := (dom w)(sel \<mapsto> (renders w, v)), renders := Suc (renders w)\<rparr>)"

text \<open>
  The render functions build their rows with \<open>xs.map(f)\<close>, which throws unless \<open>xs\<close> is
  an array: a JSON value has no callable member \<open>map\<close> otherwise, and neither has an
  inherited function. \<open>what\<close> is the text of \<open>xs\<close> in the source.
\<close>

definition not_a_function :: "string \<Rightarrow> js_error" where
  "not_a_function what = TypeError (what @ '' is not a function'')"

fun array_of :: "string \<Rightarrow> jsany \<Rightarrow> js_error + json list" where
  "array_of what (Json Undefined) = Inl (cannot_read ''undefined'' ''map'')"
| "array_of what (Json (Val JNull)) = Inl (cannot_read ''null'' ''map'')"
| "array_of what (Json (Val (JArr xs))) = Inr xs"
| "array_of what v = Inl (not_a_function (what @ ''.map''))"

text \<open>
  \<open>el(tag, attrs, children)\<close>, lines 51 to 64, skips a child that is \<open>null\<close> or \<open>undefined\<close>
  and makes a text node of a string; any other child goes to \<open>appendChild\<close>, which throws
  for what is not a node. The children that are nodes or string literals are left out
  here, and so are the attributes, which are set as strings.
\<close>

definition child_ok :: "jsval \<Rightarrow> bool" where
  "child_ok c = (c = Undefined \<or> c = Val JNull \<or> typeof_string c)"

definition not_a_node :: js_error where
  "not_a_node =
     TypeError (''Failed to execute '' @ [CHR 0x27] @ ''appendChild'' @ [CHR 0x27] @ '' on ''
                @ [CHR 0x27] @ ''Node'' @ [CHR 0x27] @ '': parameter 1 is not of type ''
                @ [CHR 0x27] @ ''Node'' @ [CHR 0x27] @ ''.'')"

text \<open>
  The row callback of a render function for the element \<open>x\<close>: it first reads the property
  \<open>first\<close>, which throws for \<open>null\<close>, and gives \<open>el\<close> the children \<open>children x\<close>. The names it
  reads are names no prototype has.
\<close>

definition row_error :: "string \<Rightarrow> (json \<Rightarrow> jsval list) \<Rightarrow> json \<Rightarrow> js_error option" where
  "row_error first children x =
     (if x = JNull then Some (cannot_read ''null'' first)
      else if list_all child_ok (children x) then None
      else Some not_a_node)"

text \<open>The first error of a callback over a list, and of \<open>xs.map(callback)\<close>.\<close>

fun first_error :: "('a \<Rightarrow> js_error option) \<Rightarrow> 'a list \<Rightarrow> js_error option" where
  "first_error f [] = None"
| "first_error f (x # xs) = (case f x of Some e \<Rightarrow> Some e | None \<Rightarrow> first_error f xs)"

definition map_error ::
  "string \<Rightarrow> string \<Rightarrow> (json \<Rightarrow> jsval list) \<Rightarrow> jsany \<Rightarrow> js_error option" where
  "map_error what first children xs =
     (case array_of what xs of
        Inl e \<Rightarrow> Some e
      | Inr rows \<Rightarrow> first_error (row_error first children) rows)"

text \<open>
  A render function builds its nodes and, if that did not throw, hands them to \<open>render\<close>.
\<close>

definition draw :: "js_error option \<Rightarrow> string \<Rightarrow> widget \<Rightarrow> unit io" where
  "draw err sel v = (case err of Some e \<Rightarrow> throw e | None \<Rightarrow> render sel v)"

text \<open>
  Writing the status line of the view with number \<open>vid\<close> drawn in an element: it shows
  while that view is the one the element holds.
\<close>

fun with_status :: "string \<Rightarrow> widget \<Rightarrow> widget" where
  "with_status s (CompaniesView c _) = CompaniesView c s"
| "with_status s (WorkEntriesView es c _) = WorkEntriesView es c s"
| "with_status s (ExpenseFormView _) = ExpenseFormView s"
| "with_status s (MonthCloseView _) = MonthCloseView s"
| "with_status s (DebtFormView _) = DebtFormView s"
| "with_status s (TextNode _) = TextNode s"
| "with_status s v = v"

definition set_status :: "string \<Rightarrow> nat \<Rightarrow> string \<Rightarrow> unit io" where
  "set_status sel vid s w =
     (case dom w sel of
        Some (i, v) \<Rightarrow>
          if i = vid then (Returns (), w\<lparr>dom := (dom w)(sel \<mapsto> (i, with_status s v))\<rparr>)
          else (Returns (), w)
      | None \<Rightarrow> (Returns (), w))"

text \<open>The same for a row of the debts table.\<close>

fun with_row :: "nat \<Rightarrow> (debt_row \<Rightarrow> debt_row) \<Rightarrow> widget \<Rightarrow> widget" where
  "with_row n f (DebtsView ds rows) = DebtsView ds (rows(n := f (rows n)))"
| "with_row n f v = v"

definition update_row :: "string \<Rightarrow> nat \<Rightarrow> nat \<Rightarrow> (debt_row \<Rightarrow> debt_row) \<Rightarrow> unit io" where
  "update_row sel vid n f w =
     (case dom w sel of
        Some (i, v) \<Rightarrow>
          if i = vid then (Returns (), w\<lparr>dom := (dom w)(sel \<mapsto> (i, with_row n f v))\<rparr>)
          else (Returns (), w)
      | None \<Rightarrow> (Returns (), w))"

fun row_of :: "nat \<Rightarrow> widget \<Rightarrow> debt_row" where
  "row_of n (DebtsView ds rows) = rows n"
| "row_of n v = \<lparr>form_shown = False, paymentsBox = BoxText []\<rparr>"

section \<open>The cache store\<close>

text \<open>
  When a transaction is aborted, each of its requests that is not done gets an \<open>error\<close>
  event, with this error.
\<close>

definition AbortError :: js_error where
  "AbortError = DOMException ''The transaction was aborted, so the request cannot be fulfilled.''"

text \<open>
  \<open>openCacheDb()\<close>, lines 5 to 17: the promise resolves on the open request's \<open>success\<close>
  event and rejects on its \<open>error\<close> event, which it also gets when the upgrade is aborted.
  The version is always \<open>1\<close>, so no open connection blocks the request. The upgrade handler
  creates the store when it is missing, so an opened database has it.
\<close>

definition openCacheDb :: "env \<Rightarrow> cache_op \<Rightarrow> unit io" where
  "openCacheDb E op =
     (case idb_open E op of
        Succeeds \<Rightarrow> return ()
      | Fails e \<Rightarrow> throw e
      | Aborts \<Rightarrow> throw AbortError)"

text \<open>
  The promise inside \<open>cacheGet\<close>: \<open>store.get(key)\<close> in a read-only transaction, resolved
  with \<open>req.result?.data ?? null\<close> on the request's \<open>success\<close>, rejected on its \<open>error\<close>.
\<close>

definition idb_get :: "env \<Rightarrow> string \<Rightarrow> json io" where
  "idb_get E k w =
     (case idb_request E (Get k) of
        Fails e \<Rightarrow> (Throws e, w)
      | Aborts \<Rightarrow> (Throws AbortError, w)
      | Succeeds \<Rightarrow>
          (case idb w k of None \<Rightarrow> (Returns JNull, w) | Some r \<Rightarrow> (Returns (data r), w)))"

text \<open>\<open>cacheGet(key)\<close>, lines 19 to 32: the \<open>catch\<close> returns \<open>null\<close>.\<close>

definition cacheGet :: "env \<Rightarrow> string \<Rightarrow> json io" where
  "cacheGet E k =
     try_catch (await (openCacheDb E (Get k)) (\<lambda>db. idb_get E k)) (\<lambda>e. return JNull)"

text \<open>
  The promise inside \<open>cacheSet\<close>, lines 37 to 43:
  \<open>store.put({key, data, updatedAt: Date.now()})\<close> in a read-write transaction. It is
  resolved by \<open>tx.oncomplete\<close> and rejected by \<open>tx.onerror\<close> (the row is then not written).
  It has no handler for \<open>abort\<close>: when the transaction is aborted with no \<open>error\<close> event,
  the row is not written and the promise never settles.
\<close>

definition idb_put :: "env \<Rightarrow> string \<Rightarrow> json \<Rightarrow> unit io" where
  "idb_put E k d w =
     (let w1 = w\<lparr>put_log := put_log w @ [k]\<rparr> in
      case idb_request E (Put k) of
        Fails e \<Rightarrow> (Throws e, w1)
      | Aborts \<Rightarrow> (Pending, w1)
      | Succeeds \<Rightarrow>
          (Returns (),
           w1\<lparr>idb := (idb w1)(k \<mapsto> \<lparr>key = k, data = d, updatedAt = date_now E k\<rparr>)\<rparr>))"

text \<open>
  \<open>cacheSet(key, data)\<close>, lines 34 to 45: the \<open>catch\<close> is empty, and the \<open>await\<close> of a promise
  that never settles never returns.
\<close>

definition cacheSet :: "env \<Rightarrow> string \<Rightarrow> json \<Rightarrow> unit io" where
  "cacheSet E k d =
     try_catch (await (openCacheDb E (Put k)) (\<lambda>db. idb_put E k d)) (\<lambda>e. return ())"

section \<open>The views\<close>

subsection \<open>Dates, keys and addresses\<close>

definition monthLabelEs :: "nat \<Rightarrow> nat \<Rightarrow> string" where
  "monthLabelEs y m =
     ([''Ene'', ''Feb'', ''Mar'', ''Abr'', ''May'', ''Jun'',
       ''Jul'', ''Ago'', ''Sep'', ''Oct'', ''Nov'', ''Dic''] ! (max 1 (min 12 m) - 1))
     @ '' '' @ show_nat y"

text \<open>\<open>`dashboard:${year}-${month}`\<close>\<close>

definition dashboard_key :: "nat \<Rightarrow> nat \<Rightarrow> string" where
  "dashboard_key y m = ''dashboard:'' @ show_nat y @ ''-'' @ show_nat m"

text \<open>\<open>`report:${y}-${String(m).padStart(2, "0")}`\<close>\<close>

definition padStart2 :: "string \<Rightarrow> string" where
  "padStart2 s = replicate (2 - length s) CHR ''0'' @ s"

definition report_key :: "nat \<Rightarrow> nat \<Rightarrow> string" where
  "report_key y m = ''report:'' @ show_nat y @ ''-'' @ padStart2 (show_nat m)"

text \<open>\<open>`/api/reports/monthly?year=${year}&month=${month}`\<close>\<close>

definition report_url :: "nat \<Rightarrow> nat \<Rightarrow> string" where
  "report_url y m = ''/api/reports/monthly?year='' @ show_nat y @ ''&month='' @ show_nat m"

definition year_month :: "nat \<Rightarrow> nat \<Rightarrow> json" where
  "year_month y m =
     JObj [(''year'', JNum (Fin (of_nat y))), (''month'', JNum (Fin (of_nat m)))]"

subsection \<open>Double confirmation\<close>

text \<open>\<open>doubleConfirm(message)\<close>, lines 203 to 206.\<close>

definition final_confirmation :: string where
  "final_confirmation = ''Confirmaci'' @ [CHR 0xF3] @ ''n final: '' @ [CHR 0xBF] @ ''seguro?''"

definition doubleConfirm :: "env \<Rightarrow> string \<Rightarrow> bool io" where
  "doubleConfirm E msg =
     await (confirm E msg) (\<lambda>first.
       if \<not> first then return False else confirm E final_confirmation)"

subsection \<open>Dashboard\<close>

text \<open>
  \<open>renderDashboard(root, data)\<close>, lines 439 to 508, is called with a truthy \<open>data\<close>. It does
  not throw: every value it reads a property of is truthy, the figures come from
  \<open>amountStrToCents\<close>, \<open>Number\<close> and \<open>centsToAmountStr\<close>, and the children it gives to \<open>el\<close>
  are nodes and the strings of \<open>formatMoney\<close> and \<open>monthLabelEs\<close>.
\<close>

definition renderDashboard :: "string \<Rightarrow> jsval \<Rightarrow> unit io" where
  "renderDashboard sel d = render sel (DashboardView d)"

text \<open>\<open>initDashboard()\<close>, lines 179 to 201.\<close>

definition initDashboard :: "env \<Rightarrow> unit io" where
  "initDashboard E w =
     (if dom w ''#dashboard-root'' = None then return () w
      else
       (let cacheKey = dashboard_key (current_year E) (current_month E) in
        await (cacheGet E cacheKey) (\<lambda>cached.
        await (if truthy (opt_member (Val cached) ''bootstrap'')
               then renderDashboard ''#dashboard-root'' (Val cached)
               else render ''#dashboard-root'' Loading) (\<lambda>_.
        try_catch
          (await (promise_all2 E (GET ''/api/bootstrap'')
                    (GET (report_url (current_year E) (current_month E)))) (\<lambda>(bootstrap, report).
           let fresh = JObj [(''bootstrap'', bootstrap), (''report'', report)] in
           await (cacheSet E ''bootstrap'' bootstrap) (\<lambda>_.
           await (cacheSet E cacheKey fresh) (\<lambda>_.
           renderDashboard ''#dashboard-root'' (Val fresh)))))
          (\<lambda>e. if_then (\<not> json_truthy cached)
                  (render ''#dashboard-root'' (AlertNode (message e))))))) w)"

text \<open>\<open>closeCurrentMonthAndRefresh(root)\<close>, lines 424 to 437.\<close>

definition closeCurrentMonthAndRefresh :: "env \<Rightarrow> unit io" where
  "closeCurrentMonthAndRefresh E =
     (let year = current_year E; month = current_month E in
      await (doubleConfirm E ([CHR 0xBF] @ ''Cerrar el mes '' @ monthLabelEs year month @ ''?''))
        (\<lambda>ok.
      if \<not> ok then return ()
      else
        await (fetchJson E (POST ''/api/months/close'' (year_month year month))) (\<lambda>_.
        await (promise_all2 E (GET ''/api/bootstrap'') (GET (report_url year month)))
          (\<lambda>(bootstrap, report).
        let fresh = JObj [(''bootstrap'', bootstrap), (''report'', report)] in
        await (cacheSet E ''bootstrap'' bootstrap) (\<lambda>_.
        await (cacheSet E (dashboard_key year month) fresh) (\<lambda>_.
        await (fetchJson E (GET ''/api/bank/summary'')) (\<lambda>bank.
        await (cacheSet E ''bankSummary'' bank) (\<lambda>_.
        renderDashboard ''#dashboard-root'' (Val fresh)))))))))"

text \<open>The click handler of the dashboard's close button, lines 490 to 498.\<close>

definition closeBtn_click :: "env \<Rightarrow> unit io" where
  "closeBtn_click E = try_catch (closeCurrentMonthAndRefresh E) (\<lambda>e. alert (message e))"

subsection \<open>Companies and work entries\<close>

text \<open>
  \<open>renderCompanies(root, companies)\<close>, lines 553 to 640: the form is built from literals,
  and each row of the table has \<open>c.name\<close>, \<open>c.currency\<close>, \<open>c.precioHoraDia\<close> and
  \<open>c.precioHoraNoche\<close> as children.
\<close>

definition renderCompanies_error :: "jsval \<Rightarrow> js_error option" where
  "renderCompanies_error companies =
     map_error ''companies'' ''name''
       (\<lambda>c. [get_own c ''name'', get_own c ''currency'', get_own c ''precioHoraDia'',
             get_own c ''precioHoraNoche''])
       (Json companies)"

definition renderCompanies :: "string \<Rightarrow> jsval \<Rightarrow> unit io" where
  "renderCompanies sel companies =
     draw (renderCompanies_error companies) sel (CompaniesView companies [])"

text \<open>
  \<open>renderWorkEntries(root, entries, companies)\<close>, lines 642 to 735: first the options of
  the company select, \<open>el("option", { value: c.id }, [c.name])\<close>, then the rows of the
  table, with \<open>it.date\<close> and \<open>it.companyName\<close> as children (the other cells are strings
  that \<open>formatMoney\<close> and a template make).
\<close>

definition renderWorkEntries_error :: "jsany \<Rightarrow> jsval \<Rightarrow> js_error option" where
  "renderWorkEntries_error entries companies =
     (case map_error ''companies'' ''id'' (\<lambda>c. [get_own c ''name'']) (Json companies) of
        Some e \<Rightarrow> Some e
      | None \<Rightarrow>
          map_error ''entries'' ''date''
            (\<lambda>it. [get_own it ''date'', get_own it ''companyName'']) entries)"

definition renderWorkEntries :: "string \<Rightarrow> jsany \<Rightarrow> jsval \<Rightarrow> unit io" where
  "renderWorkEntries sel entries companies =
     draw (renderWorkEntries_error entries companies) sel (WorkEntriesView entries companies [])"

text \<open>
  \<open>initCompaniesAndWorkEntries()\<close>, lines 528 to 551. \<open>cachedEntries?.entries\<close> is the
  one read of a name that a prototype has: an array inherits \<open>entries\<close>.
\<close>

definition initCompaniesAndWorkEntries :: "env \<Rightarrow> unit io" where
  "initCompaniesAndWorkEntries E w =
     (if dom w ''#companies-root'' = None \<or> dom w ''#work-entries-root'' = None
      then return () w
      else
       (await (cacheGet E ''companies'') (\<lambda>cachedCompanies.
        await (if_then (truthy (opt_member (Val cachedCompanies) ''companies''))
                 (renderCompanies ''#companies-root''
                    (opt_member (Val cachedCompanies) ''companies''))) (\<lambda>_.
        await (cacheGet E ''workEntries'') (\<lambda>cachedEntries.
        await (if_then (any_truthy (opt_get cachedEntries ''entries''))
                 (renderWorkEntries ''#work-entries-root''
                    (opt_get cachedEntries ''entries'')
                    (js_or (opt_member (Val cachedCompanies) ''companies'') (Val (JArr []))))) (\<lambda>_.
        try_catch
          (await (fetchJson E (GET ''/api/companies'')) (\<lambda>companies.
           await (cacheSet E ''companies'' companies) (\<lambda>_.
           await (member (Val companies) ''companies'') (\<lambda>cs.
           await (renderCompanies ''#companies-root'' cs) (\<lambda>_.
           await (fetchJson E (GET ''/api/work-entries'')) (\<lambda>entries.
           await (cacheSet E ''workEntries'' entries) (\<lambda>_.
           await (member_any entries ''entries'') (\<lambda>es.
           await (member (Val companies) ''companies'') (\<lambda>cs'.
           renderWorkEntries ''#work-entries-root'' es cs')))))))))
          (\<lambda>e.
           await (if_then (\<not> json_truthy cachedCompanies)
                    (render ''#companies-root'' (AlertNode (message e)))) (\<lambda>_.
           if_then (\<not> json_truthy cachedEntries)
             (render ''#work-entries-root'' (AlertNode (message e)))))))))) w)"

text \<open>
  The last step of the company form's handler: \<open>if (entriesRoot) renderWorkEntries(...)\<close>.
\<close>

definition show_work_entries :: "json \<Rightarrow> json \<Rightarrow> unit io" where
  "show_work_entries entriesRes companiesRes w =
     (if dom w ''#work-entries-root'' \<noteq> None
      then await (member_any entriesRes ''entries'') (\<lambda>es.
           await (member (Val companiesRes) ''companies'') (\<lambda>cs.
           renderWorkEntries ''#work-entries-root'' es cs))
      else return ()) w"

text \<open>
  The submit handler of the company form, lines 598 to 616, for the view with number
  \<open>vid\<close> and the payload read from the form.
\<close>

definition company_submit :: "env \<Rightarrow> nat \<Rightarrow> json \<Rightarrow> unit io" where
  "company_submit E vid payload =
     await (set_status ''#companies-root'' vid []) (\<lambda>_.
     try_catch
       (await (fetchJson E (POST ''/api/companies'' payload)) (\<lambda>_.
        await (fetchJson E (GET ''/api/companies'')) (\<lambda>companiesRes.
        await (cacheSet E ''companies'' companiesRes) (\<lambda>_.
        await (member (Val companiesRes) ''companies'') (\<lambda>cs.
        await (renderCompanies ''#companies-root'' cs) (\<lambda>_.
        await (fetchJson E (GET ''/api/work-entries'')) (\<lambda>entriesRes.
        await (cacheSet E ''workEntries'' entriesRes) (\<lambda>_.
        show_work_entries entriesRes companiesRes))))))))
       (\<lambda>e. set_status ''#companies-root'' vid (message e)))"

text \<open>
  The submit handler of the income form, lines 694 to 707; \<open>companies\<close> is the list the
  view was drawn with.
\<close>

definition work_entry_submit :: "env \<Rightarrow> nat \<Rightarrow> jsval \<Rightarrow> json \<Rightarrow> unit io" where
  "work_entry_submit E vid companies payload =
     await (set_status ''#work-entries-root'' vid []) (\<lambda>_.
     try_catch
       (await (fetchJson E (POST ''/api/work-entries'' payload)) (\<lambda>_.
        await (fetchJson E (GET ''/api/work-entries'')) (\<lambda>entriesRes.
        await (cacheSet E ''workEntries'' entriesRes) (\<lambda>_.
        await (member_any entriesRes ''entries'') (\<lambda>es.
        renderWorkEntries ''#work-entries-root'' es companies)))))
       (\<lambda>e. set_status ''#work-entries-root'' vid (message e)))"

subsection \<open>Expenses\<close>

text \<open>
  \<open>renderExpenses(root, expenses)\<close>, lines 827 to 849: each row has \<open>g.date\<close>, \<open>g.category\<close>
  and \<open>g.concept\<close> as children.
\<close>

definition renderExpenses_error :: "jsval \<Rightarrow> js_error option" where
  "renderExpenses_error expenses =
     map_error ''expenses'' ''date''
       (\<lambda>g. [get_own g ''date'', get_own g ''category'', get_own g ''concept''])
       (Json expenses)"

definition renderExpenses :: "string \<Rightarrow> jsval \<Rightarrow> unit io" where
  "renderExpenses sel expenses = draw (renderExpenses_error expenses) sel (ExpensesView expenses)"

text \<open>\<open>renderExpenseForm(root, onCreated)\<close>, lines 760 to 825, builds its form from literals.\<close>

definition renderExpenseForm :: "string \<Rightarrow> unit io" where
  "renderExpenseForm sel = render sel (ExpenseFormView [])"

text \<open>
  \<open>renderBankBalance(root, balanceByCurrency)\<close>, lines 877 to 882, does not throw:
  \<open>Object.entries(balanceByCurrency || {})\<close> takes every value, and each tag is the string
  of a template over \<open>formatCentsNumber\<close>.
\<close>

definition renderBankBalance :: "string \<Rightarrow> jsval \<Rightarrow> unit io" where
  "renderBankBalance sel balanceByCurrency = render sel (BankBalanceView balanceByCurrency)"

text \<open>
  \<open>renderBankMovements(root, movements)\<close>, lines 884 to 904: each row has \<open>m.date\<close>, \<open>m.type\<close>
  and \<open>m.note || ""\<close> as children.
\<close>

definition renderBankMovements_error :: "jsval \<Rightarrow> js_error option" where
  "renderBankMovements_error movements =
     map_error ''movements'' ''date''
       (\<lambda>m. [get_own m ''date'', get_own m ''type'', js_or (get_own m ''note'') (Val (JStr []))])
       (Json movements)"

definition renderBankMovements :: "string \<Rightarrow> jsval \<Rightarrow> unit io" where
  "renderBankMovements sel movements =
     draw (renderBankMovements_error movements) sel (BankMovementsView movements)"

text \<open>The \<open>onCreated\<close> callback that \<open>initExpenses\<close> gives the form, lines 745 to 749.\<close>

definition expenses_onCreated :: "env \<Rightarrow> unit io" where
  "expenses_onCreated E =
     await (fetchJson E (GET ''/api/expenses'')) (\<lambda>fresh.
     await (cacheSet E ''expenses'' fresh) (\<lambda>_.
     await (member (Val fresh) ''expenses'') (\<lambda>es.
     renderExpenses ''#expenses-root'' es)))"

text \<open>\<open>initExpenses()\<close>, lines 737 to 758.\<close>

definition initExpenses :: "env \<Rightarrow> unit io" where
  "initExpenses E w =
     (if dom w ''#expense-form-root'' = None \<or> dom w ''#expenses-root'' = None
      then return () w
      else
       (await (cacheGet E ''expenses'') (\<lambda>cached.
        await (if_then (truthy (opt_member (Val cached) ''expenses''))
                 (renderExpenses ''#expenses-root'' (opt_member (Val cached) ''expenses''))) (\<lambda>_.
        await (renderExpenseForm ''#expense-form-root'') (\<lambda>_.
        try_catch
          (await (fetchJson E (GET ''/api/expenses'')) (\<lambda>fresh.
           await (cacheSet E ''expenses'' fresh) (\<lambda>_.
           await (member (Val fresh) ''expenses'') (\<lambda>es.
           renderExpenses ''#expenses-root'' es))))
          (\<lambda>e. if_then (\<not> json_truthy cached)
                  (render ''#expenses-root'' (AlertNode (message e)))))))) w)"

text \<open>
  What the handlers do with a fresh bank summary: draw it when the page has both bank
  elements.
\<close>

definition show_bank :: "json \<Rightarrow> unit io" where
  "show_bank bank w =
     (if dom w ''#bank-balance-root'' \<noteq> None \<and> dom w ''#bank-movements-root'' \<noteq> None
      then await (member (Val bank) ''balanceByCurrency'') (\<lambda>b.
           await (renderBankBalance ''#bank-balance-root'' b) (\<lambda>_.
           await (member (Val bank) ''movements'') (\<lambda>ms.
           renderBankMovements ''#bank-movements-root'' ms)))
      else return ()) w"

text \<open>The submit handler of the expense form, lines 798 to 822.\<close>

definition expense_submit :: "env \<Rightarrow> nat \<Rightarrow> json \<Rightarrow> unit io" where
  "expense_submit E vid payload =
     await (set_status ''#expense-form-root'' vid []) (\<lambda>_.
     try_catch
       (await (fetchJson E (POST ''/api/expenses'' payload)) (\<lambda>_.
        await (expenses_onCreated E) (\<lambda>_.
        await (fetchJson E (GET ''/api/bank/summary'')) (\<lambda>bank.
        await (cacheSet E ''bankSummary'' bank) (\<lambda>_.
        show_bank bank)))))
       (\<lambda>e. set_status ''#expense-form-root'' vid (message e)))"

subsection \<open>Bank\<close>

text \<open>\<open>renderMonthClose(root)\<close>, lines 906 to 949, builds its form from literals.\<close>

definition renderMonthClose :: "string \<Rightarrow> unit io" where
  "renderMonthClose sel = render sel (MonthCloseView [])"

text \<open>\<open>initBank()\<close>, lines 851 to 875.\<close>

definition initBank :: "env \<Rightarrow> unit io" where
  "initBank E w =
     (if dom w ''#bank-balance-root'' = None \<or> dom w ''#bank-movements-root'' = None
         \<or> dom w ''#month-close-root'' = None
      then return () w
      else
       (await (cacheGet E ''bankSummary'') (\<lambda>cached.
        await (if truthy (opt_member (Val cached) ''balanceByCurrency'')
               then await (renderBankBalance ''#bank-balance-root''
                             (opt_member (Val cached) ''balanceByCurrency'')) (\<lambda>_.
                    renderBankMovements ''#bank-movements-root''
                      (js_or (opt_member (Val cached) ''movements'') (Val (JArr []))))
               else render ''#bank-balance-root'' Loading) (\<lambda>_.
        await (renderMonthClose ''#month-close-root'') (\<lambda>_.
        try_catch
          (await (fetchJson E (GET ''/api/bank/summary'')) (\<lambda>fresh.
           await (cacheSet E ''bankSummary'' fresh) (\<lambda>_.
           await (member (Val fresh) ''balanceByCurrency'') (\<lambda>b.
           await (renderBankBalance ''#bank-balance-root'' b) (\<lambda>_.
           await (member (Val fresh) ''movements'') (\<lambda>ms.
           renderBankMovements ''#bank-movements-root'' (js_or ms (Val (JArr [])))))))))
          (\<lambda>e. if_then (\<not> json_truthy cached)
                  (render ''#bank-balance-root'' (AlertNode (message e)))))))) w)"

text \<open>
  The submit handler of the bank page's month-close form, lines 925 to 947; the payload is
  \<open>{year, month}\<close> as read from the form.
\<close>

definition monthClose_submit :: "env \<Rightarrow> nat \<Rightarrow> json \<Rightarrow> unit io" where
  "monthClose_submit E vid payload =
     await (set_status ''#month-close-root'' vid []) (\<lambda>_.
     try_catch
       (await (fetchJson E (POST ''/api/months/close'' payload)) (\<lambda>_.
        await (fetchJson E (GET ''/api/bank/summary'')) (\<lambda>bank.
        await (cacheSet E ''bankSummary'' bank) (\<lambda>_.
        await (show_bank bank) (\<lambda>_.
        set_status ''#month-close-root'' vid ''Mes cerrado'')))))
       (\<lambda>e. set_status ''#month-close-root'' vid (message e)))"

subsection \<open>Debts\<close>

definition renderDebtForm :: "string \<Rightarrow> unit io" where
  "renderDebtForm sel = render sel (DebtFormView [])"

text \<open>
  \<open>renderDebts(root, debts)\<close>, lines 1013 to 1103: the callback reads \<open>d.paid\<close> first and
  has \<open>d.creditor\<close> as a child. Every row starts with its payment form hidden and an empty
  payments box.
\<close>

definition renderDebts_error :: "jsval \<Rightarrow> js_error option" where
  "renderDebts_error debts =
     map_error ''debts'' ''paid'' (\<lambda>d. [get_own d ''creditor'']) (Json debts)"

definition renderDebts :: "string \<Rightarrow> jsval \<Rightarrow> unit io" where
  "renderDebts sel debts =
     draw (renderDebts_error debts) sel
       (DebtsView debts (\<lambda>n. \<lparr>form_shown = False, paymentsBox = BoxText []\<rparr>))"

text \<open>The \<open>onCreated\<close> callback that \<open>initDebts\<close> gives the form, lines 956 to 960.\<close>

definition debts_onCreated :: "env \<Rightarrow> unit io" where
  "debts_onCreated E =
     await (fetchJson E (GET ''/api/debts'')) (\<lambda>fresh.
     await (cacheSet E ''debts'' fresh) (\<lambda>_.
     await (member (Val fresh) ''debts'') (\<lambda>ds.
     renderDebts ''#debts-root'' ds)))"

text \<open>\<open>initDebts()\<close>, lines 951 to 972.\<close>

definition initDebts :: "env \<Rightarrow> unit io" where
  "initDebts E w =
     (if dom w ''#debt-form-root'' = None \<or> dom w ''#debts-root'' = None
      then return () w
      else
       (await (renderDebtForm ''#debt-form-root'') (\<lambda>_.
        await (cacheGet E ''debts'') (\<lambda>cached.
        await (if_then (truthy (opt_member (Val cached) ''debts''))
                 (renderDebts ''#debts-root'' (opt_member (Val cached) ''debts''))) (\<lambda>_.
        try_catch
          (await (fetchJson E (GET ''/api/debts'')) (\<lambda>fresh.
           await (cacheSet E ''debts'' fresh) (\<lambda>_.
           await (member (Val fresh) ''debts'') (\<lambda>ds.
           renderDebts ''#debts-root'' ds))))
          (\<lambda>e. if_then (\<not> json_truthy cached)
                  (render ''#debts-root'' (AlertNode (message e)))))))) w)"

text \<open>The submit handler of the debt form, lines 996 to 1009.\<close>

definition debt_submit :: "env \<Rightarrow> nat \<Rightarrow> json \<Rightarrow> unit io" where
  "debt_submit E vid payload =
     await (set_status ''#debt-form-root'' vid []) (\<lambda>_.
     try_catch
       (await (fetchJson E (POST ''/api/debts'' payload)) (\<lambda>_.
        debts_onCreated E))
       (\<lambda>e. set_status ''#debt-form-root'' vid (message e)))"

text \<open>
  \<open>refreshPayments()\<close> of row \<open>n\<close>, lines 1032 to 1046; \<open>did\<close> is the text of the debt's
  \<open>id\<close>. The rows of the table have \<open>p.date\<close> as a child.
\<close>

definition payments_error :: "jsval \<Rightarrow> js_error option" where
  "payments_error ps =
     map_error ''(res.payments || [])'' ''date'' (\<lambda>p. [get_own p ''date'']) (Json ps)"

definition refreshPayments :: "env \<Rightarrow> nat \<Rightarrow> nat \<Rightarrow> string \<Rightarrow> unit io" where
  "refreshPayments E vid n did =
     try_catch
       (await (fetchJson E (GET (''/api/debts/'' @ did @ ''/payments''))) (\<lambda>res.
        await (member (Val res) ''payments'') (\<lambda>ps.
        case payments_error (js_or ps (Val (JArr []))) of
          Some e \<Rightarrow> throw e
        | None \<Rightarrow>
            update_row ''#debts-root'' vid n
              (\<lambda>r. r\<lparr>paymentsBox := BoxPayments (js_or ps (Val (JArr [])))\<rparr>))))
       (\<lambda>e. update_row ''#debts-root'' vid n (\<lambda>r. r\<lparr>paymentsBox := BoxText (message e)\<rparr>))"

text \<open>The click handler of the row's \<open>Pagos\<close> button, lines 1069 to 1073.\<close>

definition payments_toggle :: "env \<Rightarrow> nat \<Rightarrow> nat \<Rightarrow> string \<Rightarrow> unit io" where
  "payments_toggle E vid n did w =
     (let shown = (case dom w ''#debts-root'' of
                     Some (i, v) \<Rightarrow> form_shown (row_of n v)
                   | None \<Rightarrow> False)
      in await (update_row ''#debts-root'' vid n (\<lambda>r. r\<lparr>form_shown := \<not> shown\<rparr>)) (\<lambda>_.
         if_then (\<not> shown) (refreshPayments E vid n did))) w"

text \<open>The submit handler of the row's payment form, lines 1048 to 1062.\<close>

definition payment_submit :: "env \<Rightarrow> nat \<Rightarrow> nat \<Rightarrow> string \<Rightarrow> json \<Rightarrow> unit io" where
  "payment_submit E vid n did payload =
     try_catch
       (await (fetchJson E (POST (''/api/debts/'' @ did @ ''/payments'') payload)) (\<lambda>_.
        await (fetchJson E (GET ''/api/debts'')) (\<lambda>debtsRes.
        await (cacheSet E ''debts'' debtsRes) (\<lambda>_.
        await (member (Val debtsRes) ''debts'') (\<lambda>ds.
        await (renderDebts ''#debts-root'' ds) (\<lambda>_.
        await (fetchJson E (GET ''/api/bank/summary'')) (\<lambda>bank.
        cacheSet E ''bankSummary'' bank)))))))
       (\<lambda>e. update_row ''#debts-root'' vid n (\<lambda>r. r\<lparr>paymentsBox := BoxText (message e)\<rparr>))"

subsection \<open>Reports\<close>

text \<open>
  \<open>renderMonthlyReport(root, report)\<close>, lines 1228 to 1291. It reads
  \<open>report.incomeNetByCurrency\<close> first. The rows of the summary are strings; each row of the
  company table, one for each entry of \<open>report.incomeByCompany || {}\<close>, reads
  \<open>v.companyName\<close> first and has it and \<open>v.currency\<close> as children.
\<close>

definition renderMonthlyReport_error :: "json \<Rightarrow> js_error option" where
  "renderMonthlyReport_error report =
     (if report = JNull then Some (cannot_read ''null'' ''incomeNetByCurrency'')
      else first_error
             (row_error ''companyName''
                (\<lambda>v. [get_own v ''companyName'', get_own v ''currency'']))
             (Object_values (or_json (get_own report ''incomeByCompany'') (JObj []))))"

definition renderMonthlyReport :: "string \<Rightarrow> json \<Rightarrow> unit io" where
  "renderMonthlyReport sel report =
     draw (renderMonthlyReport_error report) sel (MonthlyReportView (Val report))"

text \<open>
  \<open>loadReport(y, m)\<close>, lines 1184 to 1198, for a year and a month that are natural
  numbers. The status line and the content element are children that \<open>initReports\<close>
  creates once; they are named \<open>reports status\<close> and \<open>reports content\<close> here.
\<close>

definition set_text :: "string \<Rightarrow> string \<Rightarrow> unit io" where
  "set_text sel s w =
     (case dom w sel of
        Some (i, v) \<Rightarrow> (Returns (), w\<lparr>dom := (dom w)(sel \<mapsto> (i, TextNode s))\<rparr>)
      | None \<Rightarrow> (Returns (), w))"

definition loadReport :: "env \<Rightarrow> nat \<Rightarrow> nat \<Rightarrow> unit io" where
  "loadReport E y m =
     (let k = report_key y m in
      await (cacheGet E k) (\<lambda>cached.
      await (if truthy (opt_member (Val cached) ''ok'')
             then renderMonthlyReport ''reports content'' cached
             else render ''reports content'' Loading) (\<lambda>_.
      try_catch
        (await (fetchJson E (GET (report_url y m))) (\<lambda>fresh.
         await (cacheSet E k fresh) (\<lambda>_.
         await (renderMonthlyReport ''reports content'' fresh) (\<lambda>_.
         await (member (Val fresh) ''isClosed'') (\<lambda>closed.
         set_text ''reports status'' (if truthy closed then ''Mes cerrado'' else ''Mes abierto''))))))
        (\<lambda>e.
         await (set_text ''reports status'' (message e)) (\<lambda>_.
         if_then (\<not> json_truthy cached) (render ''reports content'' (AlertNode (message e))))))))"

text \<open>\<open>initReports()\<close>, lines 1105 to 1209.\<close>

definition set_CURRENT_USER :: "jsval \<Rightarrow> unit io" where
  "set_CURRENT_USER u w = (Returns (), w\<lparr>CURRENT_USER := u\<rparr>)"

text \<open>\<open>if (!CURRENT_USER) { try { ... } catch {} }\<close>, lines 1109 to 1115.\<close>

definition ensure_user :: "env \<Rightarrow> unit io" where
  "ensure_user E w =
     (if \<not> truthy (CURRENT_USER w)
      then try_catch
             (await (fetchJson E (GET ''/api/me'')) (\<lambda>me.
              await (member (Val me) ''user'') (\<lambda>u.
              set_CURRENT_USER (js_or u (Val JNull)))))
             (\<lambda>e. return ())
      else return ()) w"

definition initReports :: "env \<Rightarrow> unit io" where
  "initReports E w =
     (if dom w ''#reports-root'' = None then return () w
      else
       (await (ensure_user E) (\<lambda>_.
        await (render ''#reports-root'' ReportsView) (\<lambda>_.
        await (render ''reports status'' (TextNode [])) (\<lambda>_.
        await (render ''reports content'' Untouched) (\<lambda>_.
        loadReport E (current_year E) (current_month E)))))) w)"

subsection \<open>Administration\<close>

text \<open>
  \<open>roleLevel(role)\<close>, lines 89 to 101. The code only compares the result with a positive
  level. For a name that \<open>ROLE_LEVEL\<close> inherits the result is a function or a prototype
  object, which compares as \<open>NaN\<close>: no level is reached, as with \<open>0\<close>.
\<close>

definition roleLevel :: "jsval \<Rightarrow> nat" where
  "roleLevel role =
     (case map_of [(''ROLE_FREE'', 10), (''ROLE_PREMIUM'', 20), (''ROLE_ADMIN'', 30),
                   (''ROLE_SUPER_ADMIN'', 40), (''ROLE_OWNER'', 50)]
             (js_String (js_or role (Val (JStr [])))) of
        Some l \<Rightarrow> l
      | None \<Rightarrow> 0)"

text \<open>
  \<open>renderAdmin(root, users, logs)\<close>, lines 228 to 390, with
  \<open>role = String(CURRENT_USER?.role || "")\<close>. The callback of the users' rows reads \<open>u.id\<close>
  first and has \<open>u.role\<close> and \<open>u.email\<close> as children. The audit rows are built for a super
  administrator: \<open>l.createdAt\<close>, \<open>l.actorEmail || ""\<close>, \<open>l.action\<close> and
  \<open>l.targetEmail || ""\<close> are children.
\<close>

definition renderAdmin_error :: "string \<Rightarrow> jsval \<Rightarrow> jsval \<Rightarrow> js_error option" where
  "renderAdmin_error role users logs =
     (case map_error ''users'' ''id'' (\<lambda>u. [get_own u ''role'', get_own u ''email''])
             (Json users) of
        Some e \<Rightarrow> Some e
      | None \<Rightarrow>
          if 40 \<le> roleLevel (Val (JStr role))
          then map_error ''logs'' ''createdAt''
                 (\<lambda>l. [get_own l ''createdAt'', js_or (get_own l ''actorEmail'') (Val (JStr [])),
                       get_own l ''action'', js_or (get_own l ''targetEmail'') (Val (JStr []))])
                 (Json logs)
          else None)"

definition renderAdmin :: "string \<Rightarrow> jsval \<Rightarrow> jsval \<Rightarrow> unit io" where
  "renderAdmin sel users logs w =
     draw (renderAdmin_error
             (js_String (js_or (opt_member (CURRENT_USER w) ''role'') (Val (JStr [])))) users logs)
       sel (AdminView users logs) w"

text \<open>\<open>refresh()\<close> of \<open>initAdmin\<close>, lines 219 to 226.\<close>

definition fetch_audit :: "env \<Rightarrow> json io" where
  "fetch_audit E w =
     (if 40 \<le> roleLevel (opt_member (CURRENT_USER w) ''role'')
      then fetchJson E (GET ''/api/admin/audit'')
      else return JNull) w"

definition admin_refresh :: "env \<Rightarrow> unit io" where
  "admin_refresh E =
     await (fetchJson E (GET ''/api/admin/users'')) (\<lambda>usersRes.
     await (fetch_audit E) (\<lambda>logsRes.
     await (member (Val usersRes) ''users'') (\<lambda>us.
     renderAdmin ''#admin-root'' (js_or us (Val (JArr [])))
       (js_or (opt_member (Val logsRes) ''logs'') (Val (JArr []))))))"

text \<open>
  \<open>const me = CURRENT_USER ? { user: CURRENT_USER } : await fetchJson("/api/me");
   CURRENT_USER = me.user || CURRENT_USER;\<close>, lines 214 and 215.
\<close>

definition load_me :: "env \<Rightarrow> unit io" where
  "load_me E w =
     (if truthy (CURRENT_USER w) then return ()
      else await (fetchJson E (GET ''/api/me'')) (\<lambda>me.
           await (member (Val me) ''user'') (\<lambda>u.
           set_CURRENT_USER (js_or u (CURRENT_USER w))))) w"

text \<open>\<open>initAdmin()\<close>, lines 208 to 393.\<close>

definition initAdmin :: "env \<Rightarrow> unit io" where
  "initAdmin E w =
     (if dom w ''#admin-root'' = None then return () w
      else
       (await (render ''#admin-root'' Loading) (\<lambda>_.
        await (try_catch (load_me E) (\<lambda>e. return ())) (\<lambda>_.
        admin_refresh E))) w)"

text \<open>
  The handlers of the administration table, lines 244 to 315 and 353 to 361, for a user
  whose \<open>id\<close> and \<open>email\<close> have the given texts. Each asks \<open>doubleConfirm\<close> and returns when it is
  refused.
\<close>

definition set_plan_change :: "env \<Rightarrow> string \<Rightarrow> string \<Rightarrow> string \<Rightarrow> unit io" where
  "set_plan_change E uid email plan =
     await (doubleConfirm E (''Cambiar plan de '' @ email @ '' a '' @ plan @ ''?'')) (\<lambda>ok.
     if \<not> ok then return ()
     else await (fetchJson E (POST (''/api/admin/users/'' @ uid @ ''/set-plan'')
                                (JObj [(''role'', JStr plan)]))) (\<lambda>_.
          admin_refresh E))"

definition suspend_change :: "env \<Rightarrow> string \<Rightarrow> string \<Rightarrow> bool \<Rightarrow> unit io" where
  "suspend_change E uid email checked =
     await (doubleConfirm E ((if checked then ''Activar'' else ''Suspender'') @ '' a '' @ email
                             @ ''?'')) (\<lambda>ok.
     if \<not> ok then return ()
     else await (fetchJson E (POST (''/api/admin/users/'' @ uid @ ''/suspend'')
                                (JObj [(''isActive'', JBool checked)]))) (\<lambda>_.
          admin_refresh E))"

definition set_role_change :: "env \<Rightarrow> string \<Rightarrow> string \<Rightarrow> string \<Rightarrow> unit io" where
  "set_role_change E uid email role =
     await (doubleConfirm E (''Cambiar rol de '' @ email @ '' a '' @ role @ ''?'')) (\<lambda>ok.
     if \<not> ok then return ()
     else await (fetchJson E (POST (''/api/admin/users/'' @ uid @ ''/set-role'')
                                (JObj [(''role'', JStr role)]))) (\<lambda>_.
          admin_refresh E))"

definition soft_delete_click :: "env \<Rightarrow> string \<Rightarrow> string \<Rightarrow> unit io" where
  "soft_delete_click E uid email =
     await (doubleConfirm E (''Soft delete de '' @ email
                             @ ''? Mantiene datos y bloquea login.'')) (\<lambda>ok.
     if \<not> ok then return ()
     else await (fetchJson E (POST (''/api/admin/users/'' @ uid @ ''/soft-delete'') (JObj [])))
            (\<lambda>_. admin_refresh E))"

definition recover_click :: "env \<Rightarrow> string \<Rightarrow> string \<Rightarrow> unit io" where
  "recover_click E uid email =
     await (doubleConfirm E (''Recuperar cuenta '' @ email @ ''?'')) (\<lambda>ok.
     if \<not> ok then return ()
     else await (fetchJson E (POST (''/api/admin/users/'' @ uid @ ''/recover'') (JObj [])))
            (\<lambda>_. admin_refresh E))"

definition claim_owner_click :: "env \<Rightarrow> string \<Rightarrow> unit io" where
  "claim_owner_click E token =
     await (doubleConfirm E ''Convertir esta cuenta en OWNER?'') (\<lambda>ok.
     if \<not> ok then return ()
     else await (fetchJson E (POST ''/api/admin/bootstrap/claim-owner''
                                (JObj [(''token'', JStr token)]))) (\<lambda>_.
          return ()))"

section \<open>Example runs\<close>

text \<open>
  A page that has every element the orchestrators look for, an empty cache, and a server
  that answers every request with the same payload; then the same with a filled cache,
  with a server that cannot be reached, and with a cache database that does not open.
\<close>

definition sample_payload :: json where
  "sample_payload =
     JObj [(''ok'', JBool True),
           (''bootstrap'', JObj [(''counts'', JObj [])]),
           (''companies'', JArr []),
           (''entries'', JArr []),
           (''expenses'', JArr [JObj [(''amount'', JStr ''12.50''), (''currency'', JStr ''EUR'')]]),
           (''debts'', JArr [JObj [(''id'', JStr ''7''), (''creditor'', JStr ''Banco'')]]),
           (''payments'', JArr [JObj [(''date'', JStr ''2024-01-31''), (''amount'', JStr ''5.00'')]]),
           (''balanceByCurrency'', JObj [(''EUR'', JNum (Fin 1000))]),
           (''movements'', JArr []),
           (''isClosed'', JBool False)]"

definition E_ok :: env where
  "E_ok =
     \<lparr>idb_open = (\<lambda>op. Succeeds),
      idb_request = (\<lambda>op. Succeeds),
      fetch_result = (\<lambda>r. Inr sample_payload),
      second_rejects_first = False,
      confirm_answer = (\<lambda>n. True),
      date_now = (\<lambda>k. 1700000000000),
      current_year = 2024,
      current_month = 3\<rparr>"

definition E_offline :: env where
  "E_offline = E_ok\<lparr>fetch_result := (\<lambda>r. Inl (Error ''Failed to fetch''))\<rparr>"

text \<open>The server answers every request but \<open>q\<close>.\<close>

definition E_failing :: "request \<Rightarrow> env" where
  "E_failing q =
     E_ok\<lparr>fetch_result := (\<lambda>r. if r = q then Inl (Error ''Error 500'') else Inr sample_payload)\<rparr>"

definition E_no_database :: env where
  "E_no_database = E_ok\<lparr>idb_open := (\<lambda>op. Fails (DOMException ''SecurityError''))\<rparr>"

text \<open>Every \<open>put\<close> transaction is aborted at commit.\<close>

definition E_aborting :: env where
  "E_aborting = E_ok\<lparr>idb_request := (\<lambda>op. case op of Get k \<Rightarrow> Succeeds | Put k \<Rightarrow> Aborts)\<rparr>"

definition W_page :: world where
  "W_page =
     \<lparr>idb = Map.empty,
      put_log = [],
      dom = (\<lambda>sel. Some (0, Untouched)),
      renders = 1,
      fetch_log = [],
      dialogs = [],
      CURRENT_USER = Val JNull\<rparr>"

definition W_cached :: world where
  "W_cached =
     W_page\<lparr>idb := (\<lambda>k. Some \<lparr>key = k, data = sample_payload, updatedAt = 1600000000000\<rparr>)\<rparr>"


text \<open>
  The debts page after \<open>initDebts\<close> drew it from the server's answer and the user
  opened the payments of the first debt; and the payment the user then submits.
\<close>

definition W_payments_shown :: world where
  "W_payments_shown = snd (payments_toggle E_ok 2 0 ''7'' (snd (initDebts E_ok W_page)))"

definition sample_payment :: json where
  "sample_payment = JObj [(''date'', JStr ''2024-02-01''), (''amount'', JStr ''5.00'')]"

section \<open>Relating the state before and after a run\<close>

text \<open>\<open>steps R m\<close>: whatever the state before, \<open>R\<close> relates it to the state \<open>m\<close> leaves.\<close>

definition steps :: "(world \<Rightarrow> world \<Rightarrow> bool) \<Rightarrow> 'a io \<Rightarrow> bool" where
  "steps R m = (\<forall>w. R w (snd (m w)))"

text \<open>The keys of the \<open>put\<close> requests issued are among those issued before and \<open>K\<close>.\<close>

definition puts_within :: "string set \<Rightarrow> world \<Rightarrow> world \<Rightarrow> bool" where
  "puts_within K w w' = (set (put_log w') \<subseteq> set (put_log w) \<union> K)"

text \<open>No dialog is shown, and every request sent before is still in the log.\<close>

definition silent :: "world \<Rightarrow> world \<Rightarrow> bool" where
  "silent w w' = (dialogs w' = dialogs w \<and> set (fetch_log w) \<subseteq> set (fetch_log w'))"

text \<open>The key sets of the views.\<close>

definition dashboard_keys :: "nat \<Rightarrow> nat \<Rightarrow> string set" where
  "dashboard_keys y m = {''bootstrap'', dashboard_key y m}"

definition companies_keys :: "string set" where
  "companies_keys = {''companies'', ''workEntries''}"

definition report_keys :: "nat \<Rightarrow> nat \<Rightarrow> string set" where
  "report_keys y m = {report_key y m}"

text \<open>What \<open>cacheGet(k)\<close> returns in a state: the stored payload, or \<open>null\<close>.\<close>

definition cached :: "env \<Rightarrow> world \<Rightarrow> string \<Rightarrow> json" where
  "cached E w k = (case fst (cacheGet E k w) of Returns c \<Rightarrow> c | _ \<Rightarrow> JNull)"


text \<open>
  The names that the modelled code reads as own properties (\<open>get_own\<close>, \<open>member\<close>,
  \<open>opt_member\<close>, and the first reads of the row callbacks).
\<close>

definition payload_names :: "string list" where
  "payload_names =
     [''action'', ''actorEmail'', ''balanceByCurrency'', ''bootstrap'', ''category'',
      ''companies'', ''companyName'', ''concept'', ''createdAt'', ''creditor'', ''currency'',
      ''date'', ''debts'', ''email'', ''expenses'', ''id'', ''incomeByCompany'',
      ''incomeNetByCurrency'', ''isClosed'', ''logs'', ''movements'', ''name'', ''note'', ''ok'',
      ''paid'', ''payments'', ''precioHoraDia'', ''precioHoraNoche'', ''role'', ''targetEmail'',
      ''type'', ''user'', ''users'', ''EUR'']"
section \<open>Reads of names that no prototype has\<close>

text \<open>
  For the names in \<open>payload_names\<close> the general read is the read of the own property: no
  prototype has a member of such a name.
\<close>

lemma payload_names_not_inherited: "p \<in> set payload_names \<Longrightarrow> \<not> inherits j p"
  by (cases j)
     (auto simp: payload_names_def Object_prototype_def Array_prototype_def String_prototype_def
        Number_prototype_def Boolean_prototype_def)

lemma own_read: "p \<in> set payload_names \<Longrightarrow> get j p = Json (get_own j p)"
  by (simp add: get_def payload_names_not_inherited split: jsval.splits)

lemma array_inherits_entries: "get (JArr xs) ''entries'' = Inherited (JArr xs) ''entries''"
proof -
  have "\<not> is_array_index ''entries''" by (simp add: is_array_index_def is_digit_def)
  then show ?thesis by (simp add: get_def Array_prototype_def)
qed

section \<open>Rounding to a double\<close>



lemma bitlen_powi_bounds:
  assumes "0 < (a::int)"
  shows "2 powi (bitlen a - 1) \<le> (of_int a :: rat)" and "(of_int a :: rat) < 2 powi bitlen a"
proof -
  have b: "1 \<le> bitlen a" using assms by (simp add: bitlen_alt_def)
  from bitlen_bounds [OF assms]
  have lo: "2 ^ nat (bitlen a - 1) \<le> a" and hi: "a < 2 ^ nat (bitlen a)" by auto
  have "(2::rat) powi (bitlen a - 1) = 2 ^ nat (bitlen a - 1)"
    using b by (simp add: power_int_def)
  moreover have "(2::rat) ^ nat (bitlen a - 1) = of_int (2 ^ nat (bitlen a - 1))" by simp
  ultimately show "2 powi (bitlen a - 1) \<le> (of_int a :: rat)"
    using lo by (metis of_int_le_iff)
  have "(2::rat) powi bitlen a = 2 ^ nat (bitlen a)"
    using b by (simp add: power_int_def)
  moreover have "(2::rat) ^ nat (bitlen a) = of_int (2 ^ nat (bitlen a))" by simp
  ultimately show "(of_int a :: rat) < 2 powi bitlen a"
    using hi by (metis of_int_less_iff)
qed

lemma ilog2_bounds:
  assumes "0 < x"
  shows "2 powi ilog2 x \<le> x \<and> x < 2 powi (ilog2 x + 1)"
proof -
  obtain a b where q: "quotient_of x = (a, b)" by (cases "quotient_of x")
  have bpos: "0 < b" using q by (rule quotient_of_denom_pos)
  have x: "x = of_int a / of_int b" using q by (rule quotient_of_div)
  have apos: "0 < a"
    using assms bpos x by (simp add: zero_less_divide_iff)
  let ?d = "bitlen a - bitlen b"
  have B: "(0::rat) < of_int b" using bpos by simp
  have "x < 2 powi bitlen a / 2 powi (bitlen b - 1)"
  proof -
    have "x < 2 powi bitlen a / of_int b"
      unfolding x using bitlen_powi_bounds(2) [OF apos] B by (simp add: divide_strict_right_mono)
    also have "\<dots> \<le> 2 powi bitlen a / 2 powi (bitlen b - 1)"
      using bitlen_powi_bounds(1) [OF bpos] by (simp add: frac_le)
    finally show ?thesis .
  qed
  moreover have "(2::rat) powi (bitlen a - (bitlen b - 1)) = 2 powi bitlen a / 2 powi (bitlen b - 1)"
    by (rule power_int_diff) simp
  moreover have "bitlen a - (bitlen b - 1) = ?d + 1" by simp
  ultimately have up: "x < 2 powi (?d + 1)"
    by simp
  have "(2::rat) powi (bitlen a - 1) / 2 powi bitlen b < x"
  proof -
    have "(2::rat) powi (bitlen a - 1) / 2 powi bitlen b < 2 powi (bitlen a - 1) / of_int b"
      using bitlen_powi_bounds(2) [OF bpos] B by (intro divide_strict_left_mono) simp_all
    also have "\<dots> \<le> x"
      unfolding x using bitlen_powi_bounds(1) [OF apos] B by (simp add: divide_right_mono)
    finally show ?thesis .
  qed
  moreover have "(2::rat) powi (bitlen a - 1 - bitlen b) = 2 powi (bitlen a - 1) / 2 powi bitlen b"
    by (rule power_int_diff) simp
  moreover have "bitlen a - 1 - bitlen b = ?d - 1" by simp
  ultimately have lo: "2 powi (?d - 1) < x"
    by simp
  show ?thesis
  proof (cases "2 powi ?d \<le> x")
    case True
    then have "ilog2 x = ?d" by (simp add: ilog2_def q)
    then show ?thesis using True up by simp
  next
    case False
    then have "ilog2 x = ?d - 1" by (simp add: ilog2_def q)
    then show ?thesis using False lo by simp
  qed
qed

lemma powi2_less_cancel:
  assumes "(2::rat) powi m < 2 powi n"
  shows "m < n"
proof (rule ccontr)
  assume "\<not> m < n"
  then have "n \<le> m" by simp
  then have "(2::rat) powi n \<le> 2 powi m" by (rule power_int_increasing) simp
  with assms show False by simp
qed

lemma ilog2_unique:
  assumes "0 < x" "2 powi e \<le> x" "x < 2 powi (e + 1)"
  shows "ilog2 x = e"
proof -
  from ilog2_bounds [OF assms(1)]
  have a: "2 powi ilog2 x \<le> x" and b: "x < 2 powi (ilog2 x + 1)" by auto
  have "(2::rat) powi e < 2 powi (ilog2 x + 1)" using assms(2) b by simp
  then have "e < ilog2 x + 1" by (rule powi2_less_cancel)
  moreover have "(2::rat) powi ilog2 x < 2 powi (e + 1)" using a assms(3) by simp
  then have "ilog2 x < e + 1" by (rule powi2_less_cancel)
  ultimately show ?thesis by simp
qed


lemma round_half_even_bound: "\<bar>of_int (round_half_even r) - r\<bar> \<le> 1 / 2"
proof -
  have "of_int \<lfloor>r\<rfloor> \<le> r" "r < of_int \<lfloor>r\<rfloor> + 1" by linarith+
  then show ?thesis
    by (auto simp: round_half_even_def Let_def abs_le_iff)
qed

lemma round_half_even_near:
  assumes "\<bar>r - of_int m\<bar> < 1 / 2"
  shows "round_half_even r = m"
proof -
  have fl: "of_int \<lfloor>r\<rfloor> \<le> r" "r < of_int \<lfloor>r\<rfloor> + 1" by linarith+
  from assms have a: "of_int m - 1 / 2 < r" "r < of_int m + 1 / 2" by linarith+
  have "\<lfloor>r\<rfloor> = m \<or> \<lfloor>r\<rfloor> = m - 1"
  proof -
    have "of_int m - 1 < (of_int \<lfloor>r\<rfloor> :: rat) + 1" using a fl by linarith
    then have "m - 1 < \<lfloor>r\<rfloor> + 1" by (metis of_int_less_iff of_int_diff of_int_add of_int_1)
    moreover have "(of_int \<lfloor>r\<rfloor> :: rat) < of_int m + 1" using a fl by linarith
    then have "\<lfloor>r\<rfloor> < m + 1" by (metis of_int_less_iff of_int_add of_int_1)
    ultimately show ?thesis by linarith
  qed
  then show ?thesis
  proof
    assume "\<lfloor>r\<rfloor> = m"
    then show ?thesis using a by (simp add: round_half_even_def Let_def)
  next
    assume "\<lfloor>r\<rfloor> = m - 1"
    then show ?thesis using a by (simp add: round_half_even_def Let_def)
  qed
qed

lemma round_half_even_of_int [simp]: "round_half_even (of_int m) = m"
  by (rule round_half_even_near) simp

lemma round_half_even_tie:
  assumes "r = of_int m + 1 / 2"
  shows "round_half_even r = (if even m then m else m + 1)"
proof -
  have "\<lfloor>r\<rfloor> = m" unfolding assms by linarith
  then show ?thesis by (simp add: round_half_even_def Let_def assms)
qed

lemma to_double_minus: "to_double (- x) = js_neg (to_double x)"
  by (simp add: to_double_def Let_def)

lemma to_double_pos:
  assumes "0 < x" "2 powi e \<le> x" "x < 2 powi (e + 1)"
    and "u = max (e - 52) (- 1074)"
    and "round_half_even (x / 2 powi u) = m"
    and "of_int m * 2 powi u < (2 ^ 1024 :: rat)"
  shows "to_double x = Fin (of_int m * 2 powi u)"
proof -
  have "ilog2 x = e" using assms(1-3) by (rule ilog2_unique)
  then show ?thesis
    using assms by (simp add: to_double_def Let_def)
qed



text \<open>A value with a significand below \<open>2^53\<close> is a double.\<close>

lemma to_double_exact_pos:
  assumes "0 < m" "m < 2 ^ 53" "- 1074 \<le> v" "of_int m * 2 powi v < (2 ^ 1024 :: rat)"
  shows "to_double (of_int m * 2 powi v) = Fin (of_int m * 2 powi v)"
proof -
  define x :: rat where "x = of_int m * 2 powi v"
  have xpos: "0 < x" using assms(1) by (simp add: x_def)
  define e where "e = ilog2 x"
  from ilog2_bounds [OF xpos] have lo: "2 powi e \<le> x" and hi: "x < 2 powi (e + 1)"
    by (simp_all add: e_def)
  have "(of_int m :: rat) < of_int (2 ^ 53)" using assms(2) by (simp only: of_int_less_iff)
  then have "(of_int m :: rat) < 2 powi 53" by simp
  then have "x < 2 powi 53 * 2 powi v"
    unfolding x_def by (rule mult_strict_right_mono) simp
  also have "\<dots> = 2 powi (53 + v)" by (rule power_int_add [symmetric]) simp
  finally have "x < 2 powi (53 + v)" .
  with lo have "(2::rat) powi e < 2 powi (53 + v)" by (rule le_less_trans)
  then have ev: "e < 53 + v" by (rule powi2_less_cancel)
  define u where "u = max (e - 52) (- 1074)"
  have uv: "u \<le> v" using ev assms(3) by (simp add: u_def)
  define k where "k = m * 2 ^ nat (v - u)"
  have pw: "(2::rat) powi (v - u) = 2 ^ nat (v - u)"
    using uv by (simp add: power_int_def)
  have split: "(2::rat) powi (v - u) = 2 powi v / 2 powi u"
    by (rule power_int_diff) simp
  have kx: "(of_int k :: rat) = x / 2 powi u"
    by (simp add: k_def x_def pw [symmetric] split)
  then have r: "round_half_even (x / 2 powi u) = k"
    by (metis round_half_even_of_int)
  have bk: "of_int k * 2 powi u = x"
    by (simp add: kx)
  have "to_double x = Fin (of_int k * 2 powi u)"
    using xpos lo hi u_def r
  proof (rule to_double_pos)
    show "of_int k * 2 powi u < (2 ^ 1024 :: rat)"
      unfolding bk x_def by (rule assms(4))
  qed
  then show ?thesis by (simp only: bk x_def)
qed

lemma to_double_of_int:
  assumes "\<bar>z\<bar> \<le> 2 ^ 53"
  shows "to_double (of_int z) = Fin (of_int z)"
proof -
  have pos: "to_double (of_int n) = Fin (of_int n)" if "0 < n" "n \<le> 2 ^ 53" for n :: int
  proof (cases "n = 2 ^ 53")
    case True
    have "to_double (of_int 1 * 2 powi 53) = Fin (of_int 1 * 2 powi 53)"
      by (rule to_double_exact_pos) simp_all
    then show ?thesis using True by simp
  next
    case False
    then have "n < 2 ^ 53" using that by simp
    then have "to_double (of_int n * 2 powi 0) = Fin (of_int n * 2 powi 0)"
    proof (intro to_double_exact_pos)
      have "n < 2 ^ 1024"
        using \<open>n < 2 ^ 53\<close> by (rule less_trans) simp
      then have "(of_int n :: rat) < of_int (2 ^ 1024)" by (simp only: of_int_less_iff)
      then show "of_int n * 2 powi 0 < (2 ^ 1024 :: rat)" by simp
    qed (use that in simp_all)
    then show ?thesis by simp
  qed
  consider "z = 0" | "0 < z" | "z < 0" by linarith
  then show ?thesis
  proof cases
    case 1
    then show ?thesis by (simp add: to_double_def)
  next
    case 2
    then show ?thesis using pos [of z] assms by simp
  next
    case 3
    then have "to_double (of_int (- z)) = Fin (of_int (- z))"
      using pos [of "- z"] assms by simp
    then have "to_double (- of_int z) = Fin (- of_int z)" by simp
    then show ?thesis
      by (cases "to_double (of_int z)") (simp_all add: to_double_minus)
  qed
qed


text \<open>Rounding a value of the normal range moves it by at most \<open>2^-53\<close> of itself.\<close>

lemma to_double_rel_error:
  assumes "2 powi (- 1022) \<le> x" "x < 2 ^ 1023"
  shows "\<exists>y. to_double x = Fin y \<and> \<bar>y - x\<bar> \<le> x / 2 ^ 53"
proof -
  have xpos: "0 < x" using assms(1) by (rule less_le_trans [rotated]) simp
  let ?e = "ilog2 x"
  from ilog2_bounds [OF xpos] have lo: "2 powi ?e \<le> x" and hi: "x < 2 powi (?e + 1)" by auto
  have "(2::rat) powi (- 1022) < 2 powi (?e + 1)" using assms(1) hi by simp
  then have e1: "- 1022 \<le> ?e" using powi2_less_cancel by fastforce
  define u where "u = ?e - 52"
  have u: "max (?e - 52) (- 1074) = u" using e1 by (simp add: u_def)
  define m where "m = round_half_even (x / 2 powi u)"
  define y :: rat where "y = of_int m * 2 powi u"
  have p: "(0::rat) < 2 powi u" by simp
  have "\<bar>of_int m - x / 2 powi u\<bar> \<le> 1 / 2" unfolding m_def by (rule round_half_even_bound)
  then have "\<bar>of_int m - x / 2 powi u\<bar> * 2 powi u \<le> 1 / 2 * 2 powi u"
    using p by (simp add: mult_right_mono)
  moreover have "\<bar>of_int m - x / 2 powi u\<bar> * 2 powi u = \<bar>y - x\<bar>"
  proof -
    have "\<bar>of_int m - x / 2 powi u\<bar> * 2 powi u = \<bar>(of_int m - x / 2 powi u) * 2 powi u\<bar>"
      using p by (simp add: abs_mult)
    also have "(of_int m - x / 2 powi u) * 2 powi u = y - x"
      by (simp add: y_def algebra_simps)
    finally show ?thesis .
  qed
  moreover have "1 / 2 * (2::rat) powi u = 2 powi ?e / 2 ^ 53"
  proof -
    have "(2::rat) powi u = 2 powi ?e / 2 powi 52" unfolding u_def by (rule power_int_diff) simp
    then show ?thesis by simp
  qed
  ultimately have err: "\<bar>y - x\<bar> \<le> 2 powi ?e / 2 ^ 53" by simp
  also have "\<dots> \<le> x / 2 ^ 53" using lo by (simp add: divide_right_mono)
  finally have rel: "\<bar>y - x\<bar> \<le> x / 2 ^ 53" .
  have "y - x \<le> \<bar>y - x\<bar>" by simp
  with rel have "y \<le> x + x / 2 ^ 53" by linarith
  also have "\<dots> \<le> x * 2" using xpos by (simp add: field_simps)
  also have "\<dots> < 2 ^ 1023 * 2" using assms(2) by simp
  finally have "y < 2 ^ 1024" by simp
  then have "to_double x = Fin y"
    using xpos by (simp add: to_double_def Let_def u y_def m_def)
  with rel show ?thesis by blast
qed


section \<open>Properties\<close>

subsection \<open>Digits\<close>

lemma of_char_digit_char:
  assumes "0 \<le> d" "d < 10"
  shows "(of_char (digit_char d) :: int) = 48 + d"
proof -
  have "(48 + d) mod 256 = 48 + d" using assms by simp
  then show ?thesis by (simp add: digit_char_def)
qed

lemma is_digit_digit_char: "0 \<le> d \<Longrightarrow> d < 10 \<Longrightarrow> is_digit (digit_char d)"
  by (simp add: is_digit_def of_char_digit_char)

lemma digit_val_digit_char: "0 \<le> d \<Longrightarrow> d < 10 \<Longrightarrow> digit_val (digit_char d) = d"
  by (simp add: digit_val_def of_char_digit_char)

lemma last_digits_of:
  assumes "0 \<le> n"
  shows "last (digits_of n) = digit_char (n mod 10)"
  using assms by (subst digits_of.simps) simp

lemma digits_of_not_Nil: "digits_of n \<noteq> []"
  by (subst digits_of.simps) simp

lemma digit_char_numerals:
  "digit_char 0 = CHR ''0''" "digit_char 1 = CHR ''1''" "digit_char 2 = CHR ''2''"
  "digit_char 3 = CHR ''3''" "digit_char 4 = CHR ''4''" "digit_char 5 = CHR ''5''"
  "digit_char 6 = CHR ''6''" "digit_char 7 = CHR ''7''" "digit_char 8 = CHR ''8''"
  "digit_char 9 = CHR ''9''"
  by code_simp+

lemmas show_simps = show_nat_def digits_of.simps digit_char_numerals

subsection \<open>Display currency\<close>

lemma is_digit_E: "\<not> is_digit CHR ''E''"
  by (simp add: is_digit_def)

lemma EUR_not_index: "\<not> is_array_index ''EUR''"
  by (simp add: is_array_index_def is_digit_E)

lemma show_nat_ne_EUR: "show_nat n \<noteq> ''EUR''"
proof
  assume a: "show_nat n = ''EUR''"
  have "last (show_nat n) = digit_char (int n mod 10)"
    unfolding show_nat_def by (rule last_digits_of) simp
  then have "digit_char (int n mod 10) = CHR ''R''" using a by simp
  then have "is_digit CHR ''R''"
    using is_digit_digit_char [of "int n mod 10"] by simp
  then show False by (simp add: is_digit_def)
qed

lemma has_EUR_iff: "is_map m \<Longrightarrow> has_EUR m \<longleftrightarrow> ''EUR'' \<in> set (map_keys m)"
proof (cases m)
  case (JObj ps)
  have "map_of ps ''EUR'' \<noteq> None \<longleftrightarrow> ''EUR'' \<in> fst ` set ps"
    by (simp add: map_of_eq_None_iff)
  then show ?thesis
    using JObj EUR_not_index by (auto simp: map_keys_def is_map_def)
next
  case (JArr xs)
  have "''EUR'' \<notin> set (map show_nat [0 ..< length xs])"
  proof
    assume "''EUR'' \<in> set (map show_nat [0 ..< length xs])"
    then obtain n where "show_nat n = ''EUR''" by auto
    then show False using show_nat_ne_EUR by blast
  qed
  then show ?thesis
    using JArr by (simp add: map_keys_def is_map_def)
qed (simp_all add: is_map_def)

lemma truthy_object_iff: "json_truthy m \<and> typeof_object m \<longleftrightarrow> is_map m"
  by (cases m) (simp_all add: is_map_def)

lemma pickCurrency_loop1_eq:
  "pickCurrency_loop1 maps =
     (if \<exists>m \<in> set maps. is_map m \<and> ''EUR'' \<in> set (map_keys m) then Some ''EUR'' else None)"
proof (induction maps)
  case Nil
  show ?case by simp
next
  case (Cons m ms)
  show ?case
  proof (cases "is_map m")
    case True
    then show ?thesis
      using Cons has_EUR_iff [OF True] truthy_object_iff [of m] by auto
  next
    case False
    then show ?thesis
      using Cons truthy_object_iff [of m] by auto
  qed
qed

lemma pickCurrency_loop2_eq:
  "pickCurrency_loop2 maps =
     (case filter (\<lambda>m. map_keys m \<noteq> []) maps of
        [] \<Rightarrow> None
      | m # _ \<Rightarrow> Some (hd (map_keys m)))"
proof (induction maps)
  case Nil
  show ?case by simp
next
  case (Cons m ms)
  show ?case
  proof (cases "is_map m")
    case True
    then show ?thesis
      using Cons truthy_object_iff [of m]
      by (cases "Object_keys m") (auto simp: map_keys_def)
  next
    case False
    then show ?thesis
      using Cons truthy_object_iff [of m] by (auto simp: map_keys_def)
  qed
qed

text \<open>
  C4. \<open>pickCurrency\<close> returns \<open>EUR\<close> when \<open>EUR\<close> is a key of one of the maps, otherwise the
  first key (in \<open>Object.keys\<close> order) of the first map that has keys, otherwise \<open>EUR\<close>; and
  for \<open>bank = {EUR: "10.00"}\<close>, \<open>income = {}\<close>, \<open>expenses = {XAF: "500"}\<close> it returns \<open>EUR\<close>.
\<close>

theorem pickCurrency_precedence:
  "pickCurrency maps = pickDisplayCurrency_spec maps \<and>
   pickCurrency [JObj [(''EUR'', JStr ''10.00'')], JObj [], JObj [(''XAF'', JStr ''500'')]] = ''EUR''"
proof
  show "pickCurrency maps = pickDisplayCurrency_spec maps"
    unfolding pickCurrency_def pickDisplayCurrency_spec_def
      pickCurrency_loop1_eq pickCurrency_loop2_eq
    by (auto split: list.splits)
  show "pickCurrency [JObj [(''EUR'', JStr ''10.00'')], JObj [], JObj [(''XAF'', JStr ''500'')]] = ''EUR''"
    by (simp add: pickCurrency_def)
qed

subsection \<open>The cache store and its caller\<close>

lemma cacheGet_cases:
  "cacheGet E k w =
     (case idb_open E (Get k) of
        Succeeds \<Rightarrow>
          (case idb_request E (Get k) of
             Succeeds \<Rightarrow>
               (case idb w k of None \<Rightarrow> (Returns JNull, w) | Some r \<Rightarrow> (Returns (data r), w))
           | _ \<Rightarrow> (Returns JNull, w))
      | _ \<Rightarrow> (Returns JNull, w))"
  by (simp add: cacheGet_def try_catch_def await_def openCacheDb_def idb_get_def return_def
      throw_def split: idb_result.splits option.splits)

lemma cacheSet_cases:
  "cacheSet E k d w =
     (case idb_open E (Put k) of
        Succeeds \<Rightarrow>
          (case idb_request E (Put k) of
             Succeeds \<Rightarrow>
               (Returns (), w\<lparr>put_log := put_log w @ [k],
                  idb := (idb w)(k \<mapsto> \<lparr>key = k, data = d, updatedAt = date_now E k\<rparr>)\<rparr>)
           | Fails e \<Rightarrow> (Returns (), w\<lparr>put_log := put_log w @ [k]\<rparr>)
           | Aborts \<Rightarrow> (Pending, w\<lparr>put_log := put_log w @ [k]\<rparr>))
      | _ \<Rightarrow> (Returns (), w))"
  by (simp add: cacheSet_def try_catch_def await_def openCacheDb_def idb_put_def return_def
      throw_def Let_def split: idb_result.splits)

lemma run_initExpenses_aborting:
  "initExpenses E_aborting W_page
     = (Pending,
        W_page\<lparr>put_log := [''expenses''],
               dom := (dom W_page)(''#expense-form-root'' \<mapsto> (1, ExpenseFormView [])),
               renders := 2,
               fetch_log := [GET ''/api/expenses'']\<rparr>)"
  by (simp add: initExpenses_def cacheGet_cases cacheSet_cases await_def try_catch_def
      if_then_def return_def fetchJson_def render_def renderExpenseForm_def E_aborting_def
      E_ok_def W_page_def sample_payload_def)

text \<open>
  C7: the code departs from the claim in \<open>cacheSet\<close>. \<open>cacheGet\<close> always returns, the stored
  payload when the key is present and the store works and \<open>null\<close> otherwise, and leaves the
  state as it was. \<open>cacheSet\<close> never throws, and the store is changed only by a \<open>put\<close> that
  completes; but when the transaction of the \<open>put\<close> is aborted, \<open>cacheSet\<close> does not return.
  On a page with an empty cache and a server that answers, \<open>initExpenses\<close> then waits for
  ever in \<open>cacheSet\<close>, and the list is never drawn.
\<close>

theorem cacheSet_waits_for_ever_on_abort:
  "cacheGet E k w =
     (Returns (case (idb_open E (Get k), idb_request E (Get k), idb w k) of
                 (Succeeds, Succeeds, Some r) \<Rightarrow> data r
               | _ \<Rightarrow> JNull), w) \<and>
   fst (cacheSet E k d w) =
     (case (idb_open E (Put k), idb_request E (Put k)) of
        (Succeeds, Aborts) \<Rightarrow> Pending
      | _ \<Rightarrow> Returns ()) \<and>
   idb (snd (cacheSet E k d w)) =
     (case (idb_open E (Put k), idb_request E (Put k)) of
        (Succeeds, Succeeds) \<Rightarrow> (idb w)(k \<mapsto> \<lparr>key = k, data = d, updatedAt = date_now E k\<rparr>)
      | _ \<Rightarrow> idb w) \<and>
   cacheSet E_aborting ''expenses'' sample_payload W_page
     = (Pending, W_page\<lparr>put_log := [''expenses'']\<rparr>) \<and>
   fst (initExpenses E_aborting W_page) = Pending \<and>
   fetch_log (snd (initExpenses E_aborting W_page)) = [GET ''/api/expenses''] \<and>
   dom (snd (initExpenses E_aborting W_page)) ''#expenses-root'' = Some (0, Untouched)"
proof -
  have "cacheSet E_aborting ''expenses'' sample_payload W_page
          = (Pending, W_page\<lparr>put_log := [''expenses'']\<rparr>)"
    by (simp add: cacheSet_cases E_aborting_def E_ok_def W_page_def)
  moreover have "dom (snd (initExpenses E_aborting W_page)) ''#expenses-root'' = Some (0, Untouched)"
    unfolding run_initExpenses_aborting by (simp add: W_page_def)
  ultimately show ?thesis
    unfolding cacheGet_cases cacheSet_cases
    by (simp add: run_initExpenses_aborting split: idb_result.splits option.splits)
qed

subsection \<open>Composing runs\<close>

lemma steps_return: "(\<And>w. R w w) \<Longrightarrow> steps R (return x)"
  by (simp add: steps_def return_def)

lemma steps_throw: "(\<And>w. R w w) \<Longrightarrow> steps R (throw e)"
  by (simp add: steps_def throw_def)

lemma steps_await:
  assumes "\<And>a b c. R a b \<Longrightarrow> R b c \<Longrightarrow> R a c" "steps R m" "\<And>x. steps R (f x)"
  shows "steps R (await m f)"
  unfolding steps_def
proof
  fix w
  show "R w (snd (await m f w))"
  proof (cases "m w")
    case (Pair r w')
    have 1: "R w w'" using assms(2) Pair by (auto simp: steps_def dest: spec [where x = w])
    show ?thesis
    proof (cases r)
      case (Returns x)
      have "R w' (snd (f x w'))" using assms(3) by (simp add: steps_def)
      then show ?thesis using Pair Returns 1 assms(1) by (auto simp: await_def)
    next
      case (Throws e)
      then show ?thesis using Pair 1 by (simp add: await_def)
    next
      case Pending
      then show ?thesis using Pair 1 by (simp add: await_def)
    qed
  qed
qed

lemma steps_try_catch:
  assumes "\<And>a b c. R a b \<Longrightarrow> R b c \<Longrightarrow> R a c" "steps R m" "\<And>e. steps R (h e)"
  shows "steps R (try_catch m h)"
  unfolding steps_def
proof
  fix w
  show "R w (snd (try_catch m h w))"
  proof (cases "m w")
    case (Pair r w')
    have 1: "R w w'" using assms(2) Pair by (auto simp: steps_def dest: spec [where x = w])
    show ?thesis
    proof (cases r)
      case (Returns x)
      then show ?thesis using Pair 1 by (simp add: try_catch_def)
    next
      case (Throws e)
      have "R w' (snd (h e w'))" using assms(3) by (simp add: steps_def)
      then show ?thesis using Pair Throws 1 assms(1) by (auto simp: try_catch_def)
    next
      case Pending
      then show ?thesis using Pair 1 by (simp add: try_catch_def)
    qed
  qed
qed

lemma steps_if: "steps R a \<Longrightarrow> steps R b \<Longrightarrow> steps R (if c then a else b)"
  by simp

lemma steps_if_then: "(\<And>w. R w w) \<Longrightarrow> steps R m \<Longrightarrow> steps R (if_then c m)"
  by (simp add: if_then_def steps_return)

lemma steps_prod: "(\<And>a b. steps R (f a b)) \<Longrightarrow> steps R (case p of (a, b) \<Rightarrow> f a b)"
  by (cases p) simp

lemma steps_member: "(\<And>w. R w w) \<Longrightarrow> steps R (member v p)"
  by (auto simp: member_def steps_return steps_throw split: jsval.splits json.splits)

lemma steps_member_any: "(\<And>w. R w w) \<Longrightarrow> steps R (member_any j p)"
  by (simp add: member_any_def steps_return steps_throw)

lemma steps_draw:
  "(\<And>w. R w w) \<Longrightarrow> steps R (render sel v) \<Longrightarrow> steps R (draw err sel v)"
  by (cases err) (simp_all add: draw_def steps_throw)

lemma stepsI: "(\<And>w. R w (snd (m w))) \<Longrightarrow> steps R m"
  by (simp add: steps_def)

lemma stepsD: "steps R m \<Longrightarrow> R w (snd (m w))"
  by (simp add: steps_def)

lemma stepsD_if: "steps R a \<Longrightarrow> steps R b \<Longrightarrow> R w (snd (if c then a w else b w))"
  by (simp add: steps_def)

subsection \<open>The cache keys a run writes\<close>

lemma puts_within_refl: "puts_within K w w"
  by (simp add: puts_within_def)

lemma puts_within_trans: "puts_within K a b \<Longrightarrow> puts_within K b c \<Longrightarrow> puts_within K a c"
  by (auto simp: puts_within_def)

lemma pw_await:
  "steps (puts_within K) m \<Longrightarrow> (\<And>x. steps (puts_within K) (f x))
   \<Longrightarrow> steps (puts_within K) (await m f)"
  by (rule steps_await) (blast intro: puts_within_trans)+

lemma pw_try_catch:
  "steps (puts_within K) m \<Longrightarrow> (\<And>e. steps (puts_within K) (h e))
   \<Longrightarrow> steps (puts_within K) (try_catch m h)"
  by (rule steps_try_catch) (blast intro: puts_within_trans)+

lemma pw_return: "steps (puts_within K) (return x)"
  by (rule steps_return) (rule puts_within_refl)

lemma pw_throw: "steps (puts_within K) (throw e)"
  by (rule steps_throw) (rule puts_within_refl)

lemma pw_member: "steps (puts_within K) (member v p)"
  by (rule steps_member) (rule puts_within_refl)

lemma pw_member_any: "steps (puts_within K) (member_any j p)"
  by (rule steps_member_any) (rule puts_within_refl)

lemma pw_if_then: "steps (puts_within K) m \<Longrightarrow> steps (puts_within K) (if_then c m)"
  by (rule steps_if_then) (rule puts_within_refl)

lemmas pw_compose =
  pw_await pw_try_catch steps_if pw_if_then steps_prod pw_return pw_throw pw_member
  pw_member_any

lemma pw_draw: "steps (puts_within K) (draw err s v)"
  by (rule steps_draw) (simp_all add: puts_within_refl steps_def puts_within_def render_def)

lemma pw_fetchJson: "steps (puts_within K) (fetchJson E r)"
  by (simp add: steps_def puts_within_def fetchJson_def split: sum.splits)

lemma pw_promise_all2: "steps (puts_within K) (promise_all2 E a b)"
  by (simp add: steps_def puts_within_def promise_all2_def Let_def split: sum.splits)

lemma pw_cacheGet: "steps (puts_within K) (cacheGet E k)"
  by (simp add: steps_def puts_within_def cacheGet_cases split: idb_result.splits option.splits)

lemma pw_render: "steps (puts_within K) (render s v)"
  by (simp add: steps_def puts_within_def render_def)

lemma pw_confirm: "steps (puts_within K) (confirm E msg)"
  by (simp add: steps_def puts_within_def confirm_def)

lemma pw_alert: "steps (puts_within K) (alert msg)"
  by (simp add: steps_def puts_within_def alert_def)

lemma pw_set_status: "steps (puts_within K) (set_status s vid t)"
  by (simp add: steps_def puts_within_def set_status_def split: option.splits prod.splits)

lemma pw_update_row: "steps (puts_within K) (update_row s vid n f)"
  by (simp add: steps_def puts_within_def update_row_def split: option.splits prod.splits)

lemma pw_set_text: "steps (puts_within K) (set_text s t)"
  by (simp add: steps_def puts_within_def set_text_def split: option.splits prod.splits)

lemma pw_set_CURRENT_USER: "steps (puts_within K) (set_CURRENT_USER u)"
  by (simp add: steps_def puts_within_def set_CURRENT_USER_def)

lemmas pw_prims =
  pw_fetchJson pw_promise_all2 pw_cacheGet pw_render pw_confirm pw_alert pw_set_status
  pw_update_row pw_set_text pw_set_CURRENT_USER

lemma pw_cacheSet: "k \<in> K \<Longrightarrow> steps (puts_within K) (cacheSet E k d)"
  by (auto simp: steps_def puts_within_def cacheSet_cases split: idb_result.splits)

lemma pw_renders:
  "steps (puts_within K) (renderDashboard s v)"
  "steps (puts_within K) (renderCompanies s v)"
  "steps (puts_within K) (renderWorkEntries s a v')"
  "steps (puts_within K) (renderExpenses s v)"
  "steps (puts_within K) (renderExpenseForm s)"
  "steps (puts_within K) (renderBankBalance s v)"
  "steps (puts_within K) (renderBankMovements s v)"
  "steps (puts_within K) (renderMonthClose s)"
  "steps (puts_within K) (renderDebtForm s)"
  "steps (puts_within K) (renderDebts s v)"
  "steps (puts_within K) (renderMonthlyReport s j)"
  "steps (puts_within K) (renderAdmin s v v')"
  by (simp_all add: renderDashboard_def renderCompanies_def renderWorkEntries_def
      renderExpenses_def renderExpenseForm_def renderBankBalance_def renderBankMovements_def
      renderMonthClose_def renderDebtForm_def renderDebts_def renderMonthlyReport_def
      pw_prims pw_draw)
     (simp add: steps_def renderAdmin_def stepsD [OF pw_draw])

lemma pw_doubleConfirm: "steps (puts_within K) (doubleConfirm E msg)"
  unfolding doubleConfirm_def by (intro pw_compose pw_prims)

lemma pw_show_bank: "steps (puts_within K) (show_bank bank)"
proof (rule stepsI)
  fix w
  show "puts_within K w (snd (show_bank bank w))"
    unfolding show_bank_def
    by (rule stepsD [where R = "puts_within K"]) (intro pw_compose pw_prims pw_renders)
qed

lemmas pw_rules = pw_compose pw_prims pw_renders pw_doubleConfirm pw_show_bank

lemma pw_initDashboard:
  "steps (puts_within (dashboard_keys (current_year E) (current_month E))) (initDashboard E)"
proof (rule stepsI)
  fix w
  show "puts_within (dashboard_keys (current_year E) (current_month E)) w
          (snd (initDashboard E w))"
    unfolding initDashboard_def Let_def
    by (rule stepsD_if [where R = "puts_within (dashboard_keys (current_year E) (current_month E))"];
        intro pw_rules pw_cacheSet)
       (simp_all add: dashboard_keys_def)
qed

lemma pw_closeCurrentMonthAndRefresh:
  "steps (puts_within (dashboard_keys (current_year E) (current_month E) \<union> {''bankSummary''}))
     (closeCurrentMonthAndRefresh E)"
  unfolding closeCurrentMonthAndRefresh_def Let_def
  by (intro pw_rules pw_cacheSet) (simp_all add: dashboard_keys_def)

lemma pw_initCompaniesAndWorkEntries:
  "steps (puts_within companies_keys) (initCompaniesAndWorkEntries E)"
proof (rule stepsI)
  fix w
  show "puts_within companies_keys w (snd (initCompaniesAndWorkEntries E w))"
    unfolding initCompaniesAndWorkEntries_def
    by (rule stepsD_if [where R = "puts_within companies_keys"]; intro pw_rules pw_cacheSet)
       (simp_all add: companies_keys_def)
qed

lemma pw_show_work_entries: "steps (puts_within K) (show_work_entries es cs)"
proof (rule stepsI)
  fix w
  show "puts_within K w (snd (show_work_entries es cs w))"
    unfolding show_work_entries_def
    by (rule stepsD [where R = "puts_within K"]) (intro pw_rules)
qed

lemma pw_company_submit: "steps (puts_within companies_keys) (company_submit E vid payload)"
  unfolding company_submit_def
  by (intro pw_rules pw_show_work_entries pw_cacheSet) (simp_all add: companies_keys_def)

lemma pw_work_entry_submit:
  "steps (puts_within {''workEntries''}) (work_entry_submit E vid cs payload)"
  unfolding work_entry_submit_def
  by (intro pw_rules pw_cacheSet) simp_all

lemma pw_expenses_onCreated: "steps (puts_within {''expenses''}) (expenses_onCreated E)"
  unfolding expenses_onCreated_def
  by (intro pw_rules pw_cacheSet) simp_all

lemma pw_initExpenses: "steps (puts_within {''expenses''}) (initExpenses E)"
proof (rule stepsI)
  fix w
  show "puts_within {''expenses''} w (snd (initExpenses E w))"
    unfolding initExpenses_def
    by (rule stepsD_if [where R = "puts_within {''expenses''}"]; intro pw_rules pw_cacheSet)
       simp_all
qed

lemma puts_within_mono: "K \<subseteq> K' \<Longrightarrow> steps (puts_within K) m \<Longrightarrow> steps (puts_within K') m"
  by (auto simp: steps_def puts_within_def dest: spec)

lemma pw_expense_submit:
  "steps (puts_within {''expenses'', ''bankSummary''}) (expense_submit E vid payload)"
  unfolding expense_submit_def
  by (intro pw_rules pw_cacheSet puts_within_mono [OF _ pw_expenses_onCreated]) simp_all

lemma pw_initBank: "steps (puts_within {''bankSummary''}) (initBank E)"
proof (rule stepsI)
  fix w
  show "puts_within {''bankSummary''} w (snd (initBank E w))"
    unfolding initBank_def
    by (rule stepsD_if [where R = "puts_within {''bankSummary''}"]; intro pw_rules pw_cacheSet)
       simp_all
qed

lemma pw_monthClose_submit:
  "steps (puts_within {''bankSummary''}) (monthClose_submit E vid payload)"
  unfolding monthClose_submit_def
  by (intro pw_rules pw_cacheSet) simp_all

lemma pw_debts_onCreated: "steps (puts_within {''debts''}) (debts_onCreated E)"
  unfolding debts_onCreated_def
  by (intro pw_rules pw_cacheSet) simp_all

lemma pw_initDebts: "steps (puts_within {''debts''}) (initDebts E)"
proof (rule stepsI)
  fix w
  show "puts_within {''debts''} w (snd (initDebts E w))"
    unfolding initDebts_def
    by (rule stepsD_if [where R = "puts_within {''debts''}"]; intro pw_rules pw_cacheSet)
       simp_all
qed

lemma pw_debt_submit: "steps (puts_within {''debts''}) (debt_submit E vid payload)"
  unfolding debt_submit_def
  by (intro pw_rules pw_debts_onCreated)

lemma pw_payment_submit:
  "steps (puts_within {''debts'', ''bankSummary''}) (payment_submit E vid n did payload)"
  unfolding payment_submit_def
  by (intro pw_rules pw_cacheSet) simp_all

lemma pw_loadReport: "steps (puts_within (report_keys y m)) (loadReport E y m)"
  unfolding loadReport_def Let_def
  by (intro pw_rules pw_cacheSet) (simp_all add: report_keys_def)

lemma pw_ensure_user: "steps (puts_within K) (ensure_user E)"
proof (rule stepsI)
  fix w
  show "puts_within K w (snd (ensure_user E w))"
    unfolding ensure_user_def
    by (rule stepsD [where R = "puts_within K"]) (intro pw_rules)
qed

lemma pw_initReports:
  "steps (puts_within (report_keys (current_year E) (current_month E))) (initReports E)"
proof (rule stepsI)
  fix w
  show "puts_within (report_keys (current_year E) (current_month E)) w (snd (initReports E w))"
    unfolding initReports_def
    by (rule stepsD_if [where R = "puts_within (report_keys (current_year E) (current_month E))"];
        intro pw_rules pw_ensure_user pw_loadReport)
qed

text \<open>The keys of different views differ.\<close>

lemma view_keys_disjoint:
  "dashboard_keys y m \<inter> companies_keys = {}"
  "dashboard_keys y m \<inter> {''expenses''} = {}"
  "dashboard_keys y m \<inter> {''bankSummary''} = {}"
  "dashboard_keys y m \<inter> {''debts''} = {}"
  "dashboard_keys y m \<inter> report_keys y' m' = {}"
  "companies_keys \<inter> {''expenses''} = {}"
  "companies_keys \<inter> {''bankSummary''} = {}"
  "companies_keys \<inter> {''debts''} = {}"
  "companies_keys \<inter> report_keys y' m' = {}"
  "{''expenses''} \<inter> {''bankSummary''} = ({} :: string set)"
  "{''expenses''} \<inter> {''debts''} = ({} :: string set)"
  "{''expenses''} \<inter> report_keys y' m' = {}"
  "{''bankSummary''} \<inter> {''debts''} = ({} :: string set)"
  "{''bankSummary''} \<inter> report_keys y' m' = {}"
  "{''debts''} \<inter> report_keys y' m' = {}"
  by (simp_all add: dashboard_keys_def companies_keys_def report_keys_def dashboard_key_def
      report_key_def)

subsection \<open>Evaluating runs\<close>

lemmas io_simps =
  return_def throw_def await_def try_catch_def if_then_def member_def member_any_def
  cannot_read_def fetchJson_def promise_all2_def confirm_def alert_def render_def draw_def
  set_status_def update_row_def set_text_def set_CURRENT_USER_def cacheGet_cases
  cacheSet_cases doubleConfirm_def Let_def

lemmas render_simps =
  renderDashboard_def renderCompanies_def renderWorkEntries_def renderExpenses_def
  renderExpenseForm_def renderBankBalance_def renderBankMovements_def renderMonthClose_def
  renderDebtForm_def renderDebts_def renderMonthlyReport_def renderAdmin_def

lemmas render_error_simps =
  renderCompanies_error_def renderWorkEntries_error_def renderExpenses_error_def
  renderBankMovements_error_def renderDebts_error_def payments_error_def
  renderMonthlyReport_error_def renderAdmin_error_def map_error_def row_error_def
  child_ok_def get_def opt_get_def or_json_def js_or_def

lemmas example_simps =
  E_ok_def E_offline_def E_failing_def E_no_database_def W_page_def W_cached_def
  sample_payload_def

lemma run_initBank_ok:
  "put_log (snd (initBank E_ok W_page)) = [''bankSummary'']"
  by (simp add: initBank_def io_simps render_simps render_error_simps example_simps)

lemma run_expense_submit_ok:
  "put_log (snd (expense_submit E_ok 1 (JObj []) W_page)) = [''expenses'', ''bankSummary'']"
  by (simp add: expense_submit_def expenses_onCreated_def show_bank_def io_simps render_simps
      render_error_simps
      example_simps)

lemma run_closeCurrentMonthAndRefresh_ok:
  "put_log (snd (closeCurrentMonthAndRefresh E_ok W_page))
     = [''bootstrap'', ''dashboard:2024-3'', ''bankSummary'']"
  by (simp add: closeCurrentMonthAndRefresh_def io_simps render_simps render_error_simps
      example_simps
      dashboard_key_def show_simps)

lemma run_inits_ok:
  "set (put_log (snd (initDashboard E_ok W_page))) = dashboard_keys 2024 3"
  "set (put_log (snd (initCompaniesAndWorkEntries E_ok W_page))) = companies_keys"
  "set (put_log (snd (initExpenses E_ok W_page))) = {''expenses''}"
  "set (put_log (snd (initBank E_ok W_page))) = {''bankSummary''}"
  "set (put_log (snd (initDebts E_ok W_page))) = {''debts''}"
  "set (put_log (snd (initReports E_ok W_page))) = report_keys 2024 3"
  by (simp_all add: initDashboard_def initCompaniesAndWorkEntries_def initExpenses_def
      initBank_def initDebts_def initReports_def ensure_user_def loadReport_def
      io_simps render_simps render_error_simps example_simps dashboard_keys_def companies_keys_def
      report_keys_def dashboard_key_def report_key_def report_url_def padStart2_def
      show_simps insert_commute)

text \<open>
  C3, as the code has it. Each \<open>init*\<close> orchestrator writes only the keys of its own
  view (and writes all of them when every request succeeds), and the key sets of different
  views are disjoint. The action handlers write the keys of their own view; the
  dashboard's month close, the expense form and the payment form also write
  \<open>bankSummary\<close>, the key of the bank view.
\<close>

theorem cache_keys_by_view:
  "set (put_log (snd (initDashboard E w)))
     \<subseteq> set (put_log w) \<union> dashboard_keys (current_year E) (current_month E) \<and>
   set (put_log (snd (initCompaniesAndWorkEntries E w))) \<subseteq> set (put_log w) \<union> companies_keys \<and>
   set (put_log (snd (initExpenses E w))) \<subseteq> set (put_log w) \<union> {''expenses''} \<and>
   set (put_log (snd (initBank E w))) \<subseteq> set (put_log w) \<union> {''bankSummary''} \<and>
   set (put_log (snd (initDebts E w))) \<subseteq> set (put_log w) \<union> {''debts''} \<and>
   set (put_log (snd (initReports E w)))
     \<subseteq> set (put_log w) \<union> report_keys (current_year E) (current_month E) \<and>
   set (put_log (snd (initDashboard E_ok W_page))) = dashboard_keys 2024 3 \<and>
   set (put_log (snd (initCompaniesAndWorkEntries E_ok W_page))) = companies_keys \<and>
   set (put_log (snd (initExpenses E_ok W_page))) = {''expenses''} \<and>
   set (put_log (snd (initBank E_ok W_page))) = {''bankSummary''} \<and>
   set (put_log (snd (initDebts E_ok W_page))) = {''debts''} \<and>
   set (put_log (snd (initReports E_ok W_page))) = report_keys 2024 3 \<and>
   dashboard_keys y m \<inter> companies_keys = {} \<and>
   dashboard_keys y m \<inter> {''expenses''} = {} \<and>
   dashboard_keys y m \<inter> {''bankSummary''} = {} \<and>
   dashboard_keys y m \<inter> {''debts''} = {} \<and>
   dashboard_keys y m \<inter> report_keys y' m' = {} \<and>
   companies_keys \<inter> {''expenses''} = {} \<and>
   companies_keys \<inter> {''bankSummary''} = {} \<and>
   companies_keys \<inter> {''debts''} = {} \<and>
   companies_keys \<inter> report_keys y' m' = {} \<and>
   {''expenses''} \<inter> {''bankSummary''} = ({} :: string set) \<and>
   {''expenses''} \<inter> {''debts''} = ({} :: string set) \<and>
   {''expenses''} \<inter> report_keys y' m' = {} \<and>
   {''bankSummary''} \<inter> {''debts''} = ({} :: string set) \<and>
   {''bankSummary''} \<inter> report_keys y' m' = {} \<and>
   {''debts''} \<inter> report_keys y' m' = {} \<and>
   set (put_log (snd (closeCurrentMonthAndRefresh E w)))
     \<subseteq> set (put_log w) \<union> (dashboard_keys (current_year E) (current_month E) \<union> {''bankSummary''}) \<and>
   set (put_log (snd (company_submit E vid payload w))) \<subseteq> set (put_log w) \<union> companies_keys \<and>
   set (put_log (snd (work_entry_submit E vid cs payload w)))
     \<subseteq> set (put_log w) \<union> {''workEntries''} \<and>
   set (put_log (snd (expense_submit E vid payload w)))
     \<subseteq> set (put_log w) \<union> {''expenses'', ''bankSummary''} \<and>
   set (put_log (snd (monthClose_submit E vid payload w))) \<subseteq> set (put_log w) \<union> {''bankSummary''} \<and>
   set (put_log (snd (debt_submit E vid payload w))) \<subseteq> set (put_log w) \<union> {''debts''} \<and>
   set (put_log (snd (payment_submit E vid n did payload w)))
     \<subseteq> set (put_log w) \<union> {''debts'', ''bankSummary''} \<and>
   set (put_log (snd (loadReport E y m w))) \<subseteq> set (put_log w) \<union> report_keys y m"
  using stepsD [OF pw_initDashboard [of E], where w = w]
    stepsD [OF pw_initCompaniesAndWorkEntries [of E], where w = w]
    stepsD [OF pw_initExpenses [of E], where w = w]
    stepsD [OF pw_initBank [of E], where w = w]
    stepsD [OF pw_initDebts [of E], where w = w]
    stepsD [OF pw_initReports [of E], where w = w]
    stepsD [OF pw_closeCurrentMonthAndRefresh [of E], where w = w]
    stepsD [OF pw_company_submit [of E vid payload], where w = w]
    stepsD [OF pw_work_entry_submit [of E vid cs payload], where w = w]
    stepsD [OF pw_expense_submit [of E vid payload], where w = w]
    stepsD [OF pw_monthClose_submit [of E vid payload], where w = w]
    stepsD [OF pw_debt_submit [of E vid payload], where w = w]
    stepsD [OF pw_payment_submit [of E vid n did payload], where w = w]
    stepsD [OF pw_loadReport [of y m E], where w = w]
  unfolding puts_within_def
  by (simp only: run_inits_ok view_keys_disjoint simp_thms)

text \<open>
  C3 as stated fails: \<open>bankSummary\<close> is written by the bank view's orchestrator, by the
  expense form's handler and by the dashboard's month close.
\<close>

theorem cache_keys_shared_counterexample:
  "''bankSummary'' \<in> set (put_log (snd (initBank E_ok W_page))) \<and>
   ''bankSummary'' \<in> set (put_log (snd (expense_submit E_ok 1 (JObj []) W_page))) \<and>
   ''bankSummary'' \<in> set (put_log (snd (closeCurrentMonthAndRefresh E_ok W_page)))"
  using run_initBank_ok run_expense_submit_ok run_closeCurrentMonthAndRefresh_ok by simp

subsection \<open>Double confirmation\<close>

lemma silent_refl: "silent w w"
  by (simp add: silent_def)

lemma silent_trans: "silent a b \<Longrightarrow> silent b c \<Longrightarrow> silent a c"
  by (auto simp: silent_def)

lemma si_await:
  "steps silent m \<Longrightarrow> (\<And>x. steps silent (f x)) \<Longrightarrow> steps silent (await m f)"
  by (rule steps_await) (blast intro: silent_trans)+

lemma si_try_catch:
  "steps silent m \<Longrightarrow> (\<And>e. steps silent (h e)) \<Longrightarrow> steps silent (try_catch m h)"
  by (rule steps_try_catch) (blast intro: silent_trans)+

lemma si_return: "steps silent (return x)"
  by (rule steps_return) (rule silent_refl)

lemma si_throw: "steps silent (throw e)"
  by (rule steps_throw) (rule silent_refl)

lemma si_member: "steps silent (member v p)"
  by (rule steps_member) (rule silent_refl)

lemma si_if_then: "steps silent m \<Longrightarrow> steps silent (if_then c m)"
  by (rule steps_if_then) (rule silent_refl)

lemma si_fetchJson: "steps silent (fetchJson E r)"
  by (auto simp: steps_def silent_def fetchJson_def split: sum.splits)

lemma si_cacheSet: "steps silent (cacheSet E k d)"
  by (simp add: steps_def silent_def cacheSet_cases split: idb_result.splits)

lemma si_render: "steps silent (render s v)"
  by (simp add: steps_def silent_def render_def)

lemma si_draw: "steps silent (draw err s v)"
  by (rule steps_draw) (simp_all add: silent_refl si_render)

lemma si_set_status: "steps silent (set_status s vid t)"
  by (simp add: steps_def silent_def set_status_def split: option.splits prod.splits)

lemma si_show_bank: "steps silent (show_bank bank)"
proof (rule stepsI)
  fix w
  show "silent w (snd (show_bank bank w))"
    unfolding show_bank_def renderBankBalance_def renderBankMovements_def
    by (rule stepsD [where R = silent])
       (intro si_await steps_if si_member si_render si_draw si_return)
qed

text \<open>
  A handler that first writes its status line and then sends a request inside \<open>try\<close>
  has sent the request whatever follows, and has shown no dialog when nothing after the
  request shows one.
\<close>

lemma request_sent_silently:
  assumes "\<And>x. steps silent (f x)" "\<And>e. steps silent (h e)"
  shows "silent w (snd (await (set_status s vid t)
                         (\<lambda>_. try_catch (await (fetchJson E r) f) h) w)) \<and>
         r \<in> set (fetch_log (snd (await (set_status s vid t)
                         (\<lambda>_. try_catch (await (fetchJson E r) f) h) w)))"
proof -
  define w1 where "w1 = snd (set_status s vid t w)"
  have "fst (set_status s vid t w) = Returns ()"
    by (simp add: set_status_def split: option.splits prod.splits)
  then have w1: "set_status s vid t w = (Returns (), w1)" "silent w w1"
    using stepsD [OF si_set_status, of w s vid t] by (simp_all add: w1_def prod_eq_iff)
  define w2 where "w2 = w1\<lparr>fetch_log := fetch_log w1 @ [r]\<rparr>"
  have w2: "silent w1 w2" "r \<in> set (fetch_log w2)" by (auto simp: w2_def silent_def)
  show ?thesis
  proof (cases "fetch_result E r")
    case (Inl e)
    have "silent w2 (snd (h e w2))" using assms(2) by (rule stepsD)
    then show ?thesis
      using w1 w2 Inl
      by (auto simp: await_def try_catch_def fetchJson_def w2_def silent_def)
  next
    case (Inr x)
    have a: "silent w2 (snd (f x w2))" using assms(1) by (rule stepsD)
    show ?thesis
    proof (cases "f x w2")
      case (Pair res w3)
      show ?thesis
      proof (cases res)
        case (Throws e)
        have "silent w3 (snd (h e w3))" using assms(2) by (rule stepsD)
        then show ?thesis
          using w1 w2 Inr a Pair Throws
          by (auto simp: await_def try_catch_def fetchJson_def w2_def silent_def)
      next
        case (Returns u)
        then show ?thesis
          using w1 w2 \<open>fetch_result E r = Inr x\<close> a Pair
          by (auto simp: await_def try_catch_def fetchJson_def w2_def silent_def)
      next
        case Pending
        then show ?thesis
          using w1 w2 \<open>fetch_result E r = Inr x\<close> a Pair
          by (auto simp: await_def try_catch_def fetchJson_def w2_def silent_def)
      qed
    qed
  qed
qed

text \<open>
  C8: the code departs from the claim on the bank page. Submitting the month-close form
  there sends \<open>POST /api/months/close\<close> and shows no confirmation dialog at all.
\<close>

theorem month_close_form_unconfirmed:
  "dialogs (snd (monthClose_submit E vid payload w)) = dialogs w \<and>
   POST ''/api/months/close'' payload \<in> set (fetch_log (snd (monthClose_submit E vid payload w)))"
proof -
  have "silent w (snd (monthClose_submit E vid payload w)) \<and>
        POST ''/api/months/close'' payload
          \<in> set (fetch_log (snd (monthClose_submit E vid payload w)))"
    unfolding monthClose_submit_def
    by (rule request_sent_silently)
       (intro si_await si_fetchJson si_cacheSet si_show_bank si_set_status)+
  then show ?thesis by (simp add: silent_def)
qed

text \<open>
  The other destructive actions do ask twice: when either answer is a refusal, the handler
  sends nothing.
\<close>

lemma refused_sends_nothing:
  assumes "\<not> (confirm_answer E (length (dialogs w)) \<and> confirm_answer E (Suc (length (dialogs w))))"
  shows "fetch_log (snd (closeCurrentMonthAndRefresh E w)) = fetch_log w"
    and "fetch_log (snd (set_plan_change E uid email plan w)) = fetch_log w"
    and "fetch_log (snd (suspend_change E uid email checked w)) = fetch_log w"
    and "fetch_log (snd (set_role_change E uid email role w)) = fetch_log w"
    and "fetch_log (snd (soft_delete_click E uid email w)) = fetch_log w"
    and "fetch_log (snd (recover_click E uid email w)) = fetch_log w"
    and "fetch_log (snd (claim_owner_click E token w)) = fetch_log w"
  using assms
  by (auto simp: closeCurrentMonthAndRefresh_def set_plan_change_def suspend_change_def
      set_role_change_def soft_delete_click_def recover_click_def claim_owner_click_def
      doubleConfirm_def confirm_def await_def return_def Let_def)

subsection \<open>A failing fetch\<close>


lemma cached_frame [simp]:
  "cached E (w\<lparr>dom := d\<rparr>) k = cached E w k"
  "cached E (w\<lparr>renders := r\<rparr>) k = cached E w k"
  "cached E (w\<lparr>fetch_log := l\<rparr>) k = cached E w k"
  "cached E (w\<lparr>dialogs := ds\<rparr>) k = cached E w k"
  "cached E (w\<lparr>CURRENT_USER := u\<rparr>) k = cached E w k"
  by (simp_all add: cached_def cacheGet_cases split: idb_result.splits option.splits)

lemma digits_val_from_nonneg:
  "list_all is_digit s \<Longrightarrow> 0 \<le> acc \<Longrightarrow> 0 \<le> digits_val_from acc s"
  by (induction s arbitrary: acc) (simp_all add: is_digit_def digit_val_def)




















subsection \<open>A failing write\<close>

lemma work_entry_submit_fails:
  assumes "fetch_result E (POST ''/api/work-entries'' payload) = Inl e"
    and "dom w ''#work-entries-root'' = Some (vid, WorkEntriesView es cs s)"
  shows "work_entry_submit E vid companies payload w
           = (Returns (), w\<lparr>dom := (dom w)(''#work-entries-root'' \<mapsto>
                                   (vid, WorkEntriesView es cs (message e))),
                        fetch_log := fetch_log w @ [POST ''/api/work-entries'' payload]\<rparr>)"
  using assms by (simp add: work_entry_submit_def io_simps)

lemma expense_submit_fails:
  assumes "fetch_result E (POST ''/api/expenses'' payload) = Inl e"
    and "dom w ''#expense-form-root'' = Some (vid, ExpenseFormView s)"
  shows "expense_submit E vid payload w
           = (Returns (), w\<lparr>dom := (dom w)(''#expense-form-root'' \<mapsto>
                                   (vid, ExpenseFormView (message e))),
                        fetch_log := fetch_log w @ [POST ''/api/expenses'' payload]\<rparr>)"
  using assms by (simp add: expense_submit_def io_simps)

lemma debt_submit_fails:
  assumes "fetch_result E (POST ''/api/debts'' payload) = Inl e"
    and "dom w ''#debt-form-root'' = Some (vid, DebtFormView s)"
  shows "debt_submit E vid payload w
           = (Returns (), w\<lparr>dom := (dom w)(''#debt-form-root'' \<mapsto>
                                   (vid, DebtFormView (message e))),
                        fetch_log := fetch_log w @ [POST ''/api/debts'' payload]\<rparr>)"
  using assms by (simp add: debt_submit_def io_simps)

lemma payment_submit_fails:
  assumes "fetch_result E (POST (''/api/debts/'' @ did @ ''/payments'') payload) = Inl e"
    and "dom w ''#debts-root'' = Some (vid, DebtsView ds rows)"
  shows "payment_submit E vid n did payload w
           = (Returns (), w\<lparr>dom := (dom w)(''#debts-root'' \<mapsto>
                           (vid, DebtsView ds
                                   (rows(n := (rows n)\<lparr>paymentsBox := BoxText (message e)\<rparr>)))),
                        fetch_log := fetch_log w
                                     @ [POST (''/api/debts/'' @ did @ ''/payments'') payload]\<rparr>)"
  using assms by (simp add: payment_submit_def io_simps)

lemma run_payments_shown:
  "dom W_payments_shown ''#debts-root''
     = Some (2, DebtsView (Val (JArr [JObj [(''id'', JStr ''7''), (''creditor'', JStr ''Banco'')]]))
                  ((\<lambda>n. \<lparr>form_shown = False, paymentsBox = BoxText []\<rparr>)
                     (0 := \<lparr>form_shown = True,
                            paymentsBox = BoxPayments (Val (JArr [JObj [(''date'', JStr ''2024-01-31''),
                                                                        (''amount'', JStr ''5.00'')]]))\<rparr>)))"
  by (simp add: W_payments_shown_def initDebts_def payments_toggle_def refreshPayments_def
      io_simps render_simps render_error_simps example_simps js_or_def fun_eq_iff)

text \<open>
  C9, as the code has it. When the write call of the income form, the expense form, the
  debt form or a debt's payment form fails, and the view that holds the form is still the
  one on the page, the handler returns and changes nothing but the log of requests sent
  and the place of the message: the cache store, the \<open>put\<close> requests, the dialogs and
  every other element stay as they were. The three creation forms write the message to
  their own status line and leave the list they were drawn with; the payment form writes
  it into the payments box of its debt's row, in place of what the box showed.
\<close>

theorem failed_write_keeps_list:
  "(fetch_result E (POST ''/api/work-entries'' payload) = Inl e \<longrightarrow>
    dom w ''#work-entries-root'' = Some (vid, WorkEntriesView es cs s) \<longrightarrow>
    work_entry_submit E vid companies payload w
      = (Returns (), w\<lparr>dom := (dom w)(''#work-entries-root'' \<mapsto>
                              (vid, WorkEntriesView es cs (message e))),
                   fetch_log := fetch_log w @ [POST ''/api/work-entries'' payload]\<rparr>)) \<and>
   (fetch_result E (POST ''/api/expenses'' payload) = Inl e \<longrightarrow>
    dom w ''#expense-form-root'' = Some (vid, ExpenseFormView s) \<longrightarrow>
    expense_submit E vid payload w
      = (Returns (), w\<lparr>dom := (dom w)(''#expense-form-root'' \<mapsto>
                              (vid, ExpenseFormView (message e))),
                   fetch_log := fetch_log w @ [POST ''/api/expenses'' payload]\<rparr>)) \<and>
   (fetch_result E (POST ''/api/debts'' payload) = Inl e \<longrightarrow>
    dom w ''#debt-form-root'' = Some (vid, DebtFormView s) \<longrightarrow>
    debt_submit E vid payload w
      = (Returns (), w\<lparr>dom := (dom w)(''#debt-form-root'' \<mapsto> (vid, DebtFormView (message e))),
                   fetch_log := fetch_log w @ [POST ''/api/debts'' payload]\<rparr>)) \<and>
   (fetch_result E (POST (''/api/debts/'' @ did @ ''/payments'') payload) = Inl e \<longrightarrow>
    dom w ''#debts-root'' = Some (vid, DebtsView ds rows) \<longrightarrow>
    payment_submit E vid n did payload w
      = (Returns (), w\<lparr>dom := (dom w)(''#debts-root'' \<mapsto>
                      (vid, DebtsView ds
                              (rows(n := (rows n)\<lparr>paymentsBox := BoxText (message e)\<rparr>)))),
                   fetch_log := fetch_log w
                                @ [POST (''/api/debts/'' @ did @ ''/payments'') payload]\<rparr>))"
  by (intro conjI impI work_entry_submit_fails expense_submit_fails debt_submit_fails
      payment_submit_fails; assumption)

theorem failed_write_keeps_list_witness:
  "fetch_result E_offline (POST ''/api/work-entries'' sample_payment)
     = Inl (Error ''Failed to fetch'') \<and>
   dom (snd (initCompaniesAndWorkEntries E_ok W_page)) ''#work-entries-root''
     = Some (2, WorkEntriesView (Json (Val (JArr []))) (Val (JArr [])) []) \<and>
   dom (snd (work_entry_submit E_offline 2 (Val (JArr [])) sample_payment
               (snd (initCompaniesAndWorkEntries E_ok W_page)))) ''#work-entries-root''
     = Some (2, WorkEntriesView (Json (Val (JArr []))) (Val (JArr [])) ''Failed to fetch'') \<and>
   put_log (snd (work_entry_submit E_offline 2 (Val (JArr [])) sample_payment
                   (snd (initCompaniesAndWorkEntries E_ok W_page))))
     = [''companies'', ''workEntries''] \<and>
   dom (snd (initExpenses E_ok W_page)) ''#expense-form-root'' = Some (1, ExpenseFormView []) \<and>
   dom (snd (expense_submit E_offline 1 sample_payment (snd (initExpenses E_ok W_page))))
     = (dom (snd (initExpenses E_ok W_page)))
         (''#expense-form-root'' \<mapsto> (1, ExpenseFormView ''Failed to fetch'')) \<and>
   dom (snd (initDebts E_ok W_page)) ''#debt-form-root'' = Some (1, DebtFormView []) \<and>
   dom (snd (debt_submit E_offline 1 sample_payment (snd (initDebts E_ok W_page))))
     = (dom (snd (initDebts E_ok W_page)))
         (''#debt-form-root'' \<mapsto> (1, DebtFormView ''Failed to fetch'')) \<and>
   idb (snd (payment_submit E_offline 2 0 ''7'' sample_payment W_payments_shown))
     = idb W_payments_shown \<and>
   put_log (snd (payment_submit E_offline 2 0 ''7'' sample_payment W_payments_shown))
     = put_log W_payments_shown"
proof -
  have f: "fetch_result E_offline r = Inl (Error ''Failed to fetch'')" for r
    by (simp add: E_offline_def E_ok_def)
  have c: "dom (snd (initCompaniesAndWorkEntries E_ok W_page)) ''#work-entries-root''
             = Some (2, WorkEntriesView (Json (Val (JArr []))) (Val (JArr [])) [])"
    "put_log (snd (initCompaniesAndWorkEntries E_ok W_page)) = [''companies'', ''workEntries'']"
    by (simp_all add: initCompaniesAndWorkEntries_def io_simps render_simps render_error_simps
        example_simps)
  have x: "dom (snd (initExpenses E_ok W_page)) ''#expense-form-root''
             = Some (1, ExpenseFormView [])"
    by (simp add: initExpenses_def expenses_onCreated_def io_simps render_simps
        render_error_simps example_simps)
  have d: "dom (snd (initDebts E_ok W_page)) ''#debt-form-root'' = Some (1, DebtFormView [])"
    by (simp add: initDebts_def debts_onCreated_def io_simps render_simps render_error_simps
        example_simps)
  show ?thesis
    using failed_write_keeps_list
            [where E = E_offline and payload = sample_payment
               and e = "Error ''Failed to fetch''" and vid = 2 and companies = "Val (JArr [])"
               and w = "snd (initCompaniesAndWorkEntries E_ok W_page)"
               and es = "Json (Val (JArr []))" and cs = "Val (JArr [])" and s = "[]"]
          failed_write_keeps_list
            [where E = E_offline and payload = sample_payment
               and e = "Error ''Failed to fetch''" and vid = 1
               and w = "snd (initExpenses E_ok W_page)" and s = "[]"]
          failed_write_keeps_list
            [where E = E_offline and payload = sample_payment
               and e = "Error ''Failed to fetch''" and vid = 1
               and w = "snd (initDebts E_ok W_page)" and s = "[]"]
          failed_write_keeps_list
            [where E = E_offline and payload = sample_payment
               and e = "Error ''Failed to fetch''" and vid = 2 and n = 0 and did = "''7''"
               and w = W_payments_shown
               and ds = "Val (JArr [JObj [(''id'', JStr ''7''), (''creditor'', JStr ''Banco'')]])"
               and rows = "(\<lambda>n. \<lparr>form_shown = False, paymentsBox = BoxText []\<rparr>)
                     (0 := \<lparr>form_shown = True,
                            paymentsBox = BoxPayments (Val (JArr [JObj [(''date'', JStr ''2024-01-31''),
                                                                        (''amount'', JStr ''5.00'')]]))\<rparr>)"]
          run_payments_shown
    by (simp add: f c x d)
qed

text \<open>
  C9 as stated fails for the payment form. On the debts page with the payments of the
  first debt shown, a payment whose write call fails leaves the error message in the
  payments box of that row, where the table of payments was.
\<close>

theorem failed_payment_counterexample:
  "fetch_result (E_failing (POST ''/api/debts/7/payments'' sample_payment))
     (POST ''/api/debts/7/payments'' sample_payment) = Inl (Error ''Error 500'') \<and>
   map_option (\<lambda>(i, v). paymentsBox (row_of 0 v)) (dom W_payments_shown ''#debts-root'')
     = Some (BoxPayments (Val (JArr [JObj [(''date'', JStr ''2024-01-31''),
                                           (''amount'', JStr ''5.00'')]]))) \<and>
   map_option (\<lambda>(i, v). paymentsBox (row_of 0 v))
     (dom (snd (payment_submit (E_failing (POST ''/api/debts/7/payments'' sample_payment))
                  2 0 ''7'' sample_payment W_payments_shown)) ''#debts-root'')
     = Some (BoxText ''Error 500'')"
proof -
  have f: "fetch_result (E_failing (POST ''/api/debts/7/payments'' sample_payment))
             (POST (''/api/debts/'' @ ''7'' @ ''/payments'') sample_payment)
           = Inl (Error ''Error 500'')"
    by (simp add: E_failing_def E_ok_def)
  show ?thesis
    using f payment_submit_fails [OF f run_payments_shown, of 0] run_payments_shown
    by simp
qed

section \<open>The dashboard's metrics\<close>

lemma to_double_not_NaN [simp]: "to_double x \<noteq> NaN"
  by (simp add: to_double_def Let_def)














section \<open>Amounts that are not numbers\<close>

lemma comma_not_space [simp]: "\<not> is_space CHR '',''"
  by (simp add: is_space_def)








lemma to_double_0 [simp]: "to_double 0 = Fin 0"
  by (simp add: to_double_def)

lemma floor_half [simp]: "\<lfloor>(1::rat) / 2\<rfloor> = 0"
  by (rule floor_unique) simp_all












section \<open>From a decimal string to cents and back\<close>

subsection \<open>Reading a decimal string\<close>

lemma digit_not_comma: "is_digit c \<Longrightarrow> c \<noteq> CHR '',''"
  by (auto simp: is_digit_def)

lemma digit_not_space: "is_digit c \<Longrightarrow> \<not> is_space c"
  by (auto simp: is_digit_def is_space_def)

lemma replace_comma_digits:
  "list_all is_digit xs \<Longrightarrow> replace_comma (xs @ ys) = xs @ replace_comma ys"
  by (induction xs) (simp_all add: digit_not_comma)

lemma replace_comma_no_comma: "list_all is_digit xs \<Longrightarrow> replace_comma xs = xs"
  using replace_comma_digits [of xs "[]"] by simp

text \<open>The text after the replacement: the sign, the digits, and a point before the
  fractional digits.\<close>

lemma replace_comma_integer:
  assumes "list_all is_digit ip"
  shows "replace_comma (decimal_string neg ip None) = (if neg then ''-'' else []) @ ip"
  using assms by (simp add: decimal_string_def replace_comma_no_comma)

lemma replace_comma_separator:
  assumes "list_all is_digit fd" "sep = CHR ''.'' \<or> sep = CHR '',''"
  shows "replace_comma (sep # fd) = CHR ''.'' # fd"
  using assms by (auto simp: replace_comma_no_comma)

lemma replace_comma_fraction:
  assumes "list_all is_digit ip" "list_all is_digit fd" "sep = CHR ''.'' \<or> sep = CHR '',''"
  shows "replace_comma (decimal_string neg ip (Some (sep, fd)))
           = (if neg then ''-'' else []) @ ip @ CHR ''.'' # fd"
proof -
  have "replace_comma (ip @ sep # fd) = ip @ CHR ''.'' # fd"
    using assms(1) replace_comma_separator [OF assms(2,3)] by (simp add: replace_comma_digits)
  then show ?thesis by (simp add: decimal_string_def)
qed

lemma trim_id:
  assumes "t \<noteq> []" "\<not> is_space (hd t)" "\<not> is_space (last t)"
  shows "trim t = t"
proof -
  obtain c r where t: "t = c # r" using assms(1) by (cases t) auto
  have 1: "dropWhile is_space t = t" using assms(2) t by simp
  have "rev t = rev (butlast t @ [last t])" using assms(1) by simp
  also have "\<dots> = last t # rev (butlast t)" by simp
  finally have r: "rev t = last t # rev (butlast t)" .
  have "dropWhile is_space (last t # rev (butlast t)) = last t # rev (butlast t)"
    using assms(3) by simp
  then have "dropWhile is_space (rev t) = rev t" by (simp only: r [symmetric])
  then show ?thesis by (simp add: trim_def 1)
qed

lemma digits_takeWhile:
  "list_all is_digit xs \<Longrightarrow> takeWhile is_digit xs = xs"
  "list_all is_digit xs \<Longrightarrow> dropWhile is_digit xs = []"
  by (simp_all add: list_all_iff)

lemma point_not_digit: "\<not> is_digit CHR ''.''"
  by (simp add: is_digit_def)

lemma digits_point_takeWhile:
  assumes "list_all is_digit xs"
  shows "takeWhile is_digit (xs @ CHR ''.'' # ys) = xs"
    and "dropWhile is_digit (xs @ CHR ''.'' # ys) = CHR ''.'' # ys"
proof -
  have a: "\<And>x. x \<in> set xs \<Longrightarrow> is_digit x" using assms by (simp add: list_all_iff)
  show "takeWhile is_digit (xs @ CHR ''.'' # ys) = xs"
    using a by (simp add: takeWhile_append2 point_not_digit)
  show "dropWhile is_digit (xs @ CHR ''.'' # ys) = CHR ''.'' # ys"
    using a by (simp add: dropWhile_append2 point_not_digit)
qed

text \<open>What \<open>Number\<close> reads after the sign.\<close>

lemma parse_decimal_digits:
  assumes "ip \<noteq> []" "list_all is_digit ip"
  shows "parse_decimal ip = Some (of_int (digits_val ip))"
  using assms by (simp add: parse_decimal_def Let_def digits_takeWhile)

lemma parse_decimal_point:
  assumes "ip \<noteq> []" "list_all is_digit ip" "list_all is_digit fd"
  shows "parse_decimal (ip @ CHR ''.'' # fd)
           = Some (of_int (digits_val ip) + of_int (digits_val fd) / 10 ^ length fd)"
proof -
  have "parse_exponent q [] = Some q" for q by (simp add: parse_exponent_def)
  then show ?thesis
    using assms
    by (simp add: parse_decimal_def Let_def digits_takeWhile digits_point_takeWhile)
qed

lemma parse_nondecimal_second:
  assumes "is_digit x \<or> x = CHR ''.''"
  shows "parse_nondecimal (z # x # ds) = None"
proof -
  have "x \<noteq> CHR ''x''" "x \<noteq> CHR ''X''" "x \<noteq> CHR ''o''" "x \<noteq> CHR ''O''"
    "x \<noteq> CHR ''b''" "x \<noteq> CHR ''B''"
    using assms by (auto simp: is_digit_def)
  then show ?thesis by (simp add: parse_nondecimal_def)
qed

lemma parse_nondecimal_short: "parse_nondecimal [z] = None"
  by (simp add: parse_nondecimal_def)

lemma parse_nondecimal_digits:
  assumes "ip \<noteq> []" "list_all is_digit ip"
  shows "parse_nondecimal ip = None"
    and "parse_nondecimal (ip @ CHR ''.'' # fd) = None"
proof -
  obtain z zs where ip: "ip = z # zs" using assms(1) by (cases ip) auto
  show "parse_nondecimal ip = None"
    using assms(2) ip by (cases zs) (simp_all add: parse_nondecimal_short parse_nondecimal_second)
  show "parse_nondecimal (ip @ CHR ''.'' # fd) = None"
    using assms(2) ip by (cases zs) (simp_all add: parse_nondecimal_second)
qed

lemma parse_unsigned_digit:
  assumes "is_digit z" "parse_decimal (z # zs) = Some q"
  shows "parse_unsigned (z # zs) = to_double q"
proof -
  have "z \<noteq> CHR ''I''" using assms(1) by (auto simp: is_digit_def)
  then show ?thesis using assms(2) by (simp add: parse_unsigned_def)
qed

lemma Number_signed:
  assumes "is_digit z" "\<not> is_space (last (z # zs))" "parse_nondecimal (z # zs) = None"
  shows "StringToNumber ((if neg then ''-'' else []) @ z # zs)
           = (if neg then js_neg (parse_unsigned (z # zs)) else parse_unsigned (z # zs))"
proof (cases neg)
  case False
  have "trim (z # zs) = z # zs"
    using assms(1,2) by (intro trim_id) (simp_all add: digit_not_space)
  moreover have "z \<noteq> CHR ''-''" "z \<noteq> CHR ''+''" using assms(1) by (auto simp: is_digit_def)
  ultimately show ?thesis
    using False assms(3) by (simp add: StringToNumber_def)
next
  case True
  have "\<not> is_space CHR ''-''" by (simp add: is_space_def)
  then have "trim (CHR ''-'' # z # zs) = CHR ''-'' # z # zs"
    using assms(2) by (intro trim_id) simp_all
  moreover have "parse_nondecimal (CHR ''-'' # z # zs) = None"
    by (simp add: parse_nondecimal_def)
  ultimately show ?thesis
    using True by (simp add: StringToNumber_def)
qed

text \<open>
  The number that \<open>Number\<close> reads from the digits of a decimal string: the nearest double
  to their value, with the sign.
\<close>

lemma Number_of_integer:
  assumes "ip \<noteq> []" "list_all is_digit ip"
  shows "StringToNumber ((if neg then ''-'' else []) @ ip)
           = (if neg then js_neg (to_double (of_int (digits_val ip)))
              else to_double (of_int (digits_val ip)))"
proof -
  obtain z zs where ip: "ip = z # zs" using assms(1) by (cases ip) auto
  have z: "is_digit z" using assms(2) ip by simp
  have "is_digit (last ip)" using assms by (simp add: list_all_iff)
  then have l: "\<not> is_space (last (z # zs))" using ip by (simp add: digit_not_space)
  have n: "parse_nondecimal (z # zs) = None"
    using parse_nondecimal_digits(1) [OF assms] ip by simp
  have "parse_unsigned (z # zs) = to_double (of_int (digits_val ip))"
    using parse_decimal_digits [OF assms] ip by (intro parse_unsigned_digit [OF z]) simp
  then show ?thesis
    using Number_signed [OF z l n, of neg] ip by simp
qed

lemma Number_of_fraction:
  assumes "ip \<noteq> []" "list_all is_digit ip" "list_all is_digit fd"
  shows "StringToNumber ((if neg then ''-'' else []) @ ip @ CHR ''.'' # fd)
           = (if neg
              then js_neg (to_double (of_int (digits_val ip)
                                      + of_int (digits_val fd) / 10 ^ length fd))
              else to_double (of_int (digits_val ip) + of_int (digits_val fd) / 10 ^ length fd))"
proof -
  obtain z zs where ip: "ip = z # zs" using assms(1) by (cases ip) auto
  have z: "is_digit z" using assms(2) ip by simp
  have "\<not> is_space (last (ip @ CHR ''.'' # fd))"
  proof (cases "fd = []")
    case True
    then show ?thesis by (simp add: is_space_def)
  next
    case False
    then have "is_digit (last fd)" using assms(3) by (simp add: list_all_iff)
    then show ?thesis using False by (simp add: digit_not_space)
  qed
  then have l: "\<not> is_space (last (z # zs @ CHR ''.'' # fd))" using ip by simp
  have n: "parse_nondecimal (z # zs @ CHR ''.'' # fd) = None"
    using parse_nondecimal_digits(2) [OF assms(1,2), of fd] ip by simp
  have "parse_unsigned (z # zs @ CHR ''.'' # fd)
          = to_double (of_int (digits_val ip) + of_int (digits_val fd) / 10 ^ length fd)"
    using parse_decimal_point [OF assms] ip by (intro parse_unsigned_digit [OF z]) simp
  then show ?thesis
    using Number_signed [OF z l n, of neg] ip by simp
qed

subsection \<open>Decimal digits\<close>

lemma digit_char_digit:
  assumes "0 \<le> d" "d < 10"
  shows "is_digit (digit_char d)" and "digit_val (digit_char d) = d"
  using assms by (simp_all add: is_digit_def digit_val_def digit_char_def)

lemma digit_char_0: "digit_char 0 = CHR ''0''"
proof -
  have "(of_char (digit_char 0) :: int) = of_char CHR ''0''" by (simp add: digit_char_def)
  then show ?thesis by (simp only: of_char_eq_iff)
qed

lemma digits_val_from_append:
  "digits_val_from acc (xs @ ys) = digits_val_from (digits_val_from acc xs) ys"
  by (induction xs arbitrary: acc) simp_all

lemma digits_val_snoc: "digits_val (xs @ [c]) = digits_val xs * 10 + digit_val c"
  by (simp add: digits_val_def digits_val_from_append)

lemma digits_val_single: "digits_val [c] = digit_val c"
  by (simp add: digits_val_def)

lemma digits_of_small: "n < 10 \<Longrightarrow> digits_of n = [digit_char n]"
  by (subst digits_of.simps) simp

lemma digits_of_large:
  "10 \<le> n \<Longrightarrow> digits_of n = digits_of (n div 10) @ [digit_char (n mod 10)]"
  by (subst digits_of.simps) simp

text \<open>The digits of a number are digits, and they read back as the number.\<close>

lemma digits_of_props:
  "0 \<le> n \<Longrightarrow> list_all is_digit (digits_of n) \<and> digits_of n \<noteq> [] \<and> digits_val (digits_of n) = n"
proof (induction n rule: digits_of.induct)
  case (1 n)
  show ?case
  proof (cases "n < 10")
    case True
    then show ?thesis
      using 1(2) by (simp add: digits_of_small digit_char_digit digits_val_single)
  next
    case False
    then have ih: "list_all is_digit (digits_of (n div 10))"
      "digits_val (digits_of (n div 10)) = n div 10"
      using 1 by simp_all
    have "0 \<le> n mod 10" "n mod 10 < 10" by simp_all
    then have d: "is_digit (digit_char (n mod 10))" "digit_val (digit_char (n mod 10)) = n mod 10"
      by (simp_all add: digit_char_digit)
    show ?thesis
      using False ih d by (simp add: digits_of_large digits_val_snoc)
  qed
qed

text \<open>
  The layout of \<open>toFixed(2)\<close>: the digits of the number of cents, brought to three digits,
  are the digits of the whole part followed by the last two digits.
\<close>

lemma cents_layout:
  assumes "0 \<le> n"
  shows "(let m0 = digits_of n;
              m = replicate (3 - length m0) CHR ''0'' @ m0;
              k = length m
          in take (k - 2) m @ ''.'' @ drop (k - 2) m)
         = digits_of (n div 100) @ ''.'' @ [digit_char (n div 10 mod 10), digit_char (n mod 10)]"
proof -
  consider "n < 10" | "10 \<le> n" "n < 100" | "100 \<le> n" by linarith
  then show ?thesis
  proof cases
    case 1
    then have "n div 100 = 0" "n div 10 mod 10 = 0" "n mod 10 = n" using assms by simp_all
    then show ?thesis
      using 1 by (simp add: digits_of_small digit_char_0 Let_def)
  next
    case 2
    then have a: "n div 100 = 0" "n div 10 mod 10 = n div 10" "n div 10 < 10" by simp_all
    have "digits_of n = [digit_char (n div 10), digit_char (n mod 10)]"
      using 2 a by (simp add: digits_of_large digits_of_small)
    then show ?thesis
      using a by (simp add: digits_of_small digit_char_0 Let_def)
  next
    case 3
    then have b: "10 \<le> n" "10 \<le> n div 10" by simp_all
    have c: "n div 10 div 10 = n div 100" by (simp add: div_mult2_eq [symmetric])
    have "digits_of n
            = digits_of (n div 100) @ [digit_char (n div 10 mod 10), digit_char (n mod 10)]"
      using digits_of_large [OF b(1)] digits_of_large [OF b(2)] c by simp
    moreover have "digits_of (n div 100) \<noteq> []"
      using digits_of_props [of "n div 100"] assms by simp
    then have "1 \<le> length (digits_of (n div 100))" by (cases "digits_of (n div 100)") simp_all
    ultimately show ?thesis by (simp add: Let_def)
  qed
qed

subsection \<open>Cents as doubles\<close>

text \<open>
  Up to \<open>10^15\<close> cents, the double nearest to the amount in units is within an eighth of a
  cent of it, and so is the double product with a hundred.
\<close>

lemma cents_bounds:
  assumes "0 < c" "c \<le> 10 ^ 15"
  shows "(1::rat) \<le> of_int c" and "(of_int c :: rat) \<le> 10 ^ 15"
proof -
  have "1 \<le> c" using assms(1) by simp
  then have "(of_int 1 :: rat) \<le> of_int c" by (simp only: of_int_le_iff)
  then show "(1::rat) \<le> of_int c" by simp
  have "(of_int c :: rat) \<le> of_int (10 ^ 15)" using assms(2) by (simp only: of_int_le_iff)
  then show "(of_int c :: rat) \<le> 10 ^ 15" by simp
qed

lemma cents_double:
  assumes "0 < c" "c \<le> 10 ^ 15"
  shows "\<exists>d. to_double (of_int c / 100) = Fin d \<and> 0 < d \<and> \<bar>d * 100 - of_int c\<bar> \<le> 1 / 8"
proof -
  define x :: rat where "x = of_int c / 100"
  note b = cents_bounds [OF assms]
  have x: "1 / 100 \<le> x" "x \<le> 10 ^ 13" using b by (simp_all add: x_def)
  have "(2::rat) powi (- 1022) \<le> 1 / 100" by (simp add: power_int_minus field_simps)
  then have lo: "2 powi (- 1022) \<le> x" using x(1) by linarith
  have "(10::rat) ^ 13 < 2 ^ 1023" by simp
  then have hi: "x < 2 ^ 1023" using x(2) by linarith
  obtain d where d: "to_double x = Fin d" "\<bar>d - x\<bar> \<le> x / 2 ^ 53"
    using to_double_rel_error [OF lo hi] by auto
  have "x / 2 ^ 53 \<le> 10 ^ 13 / 2 ^ 53" using x(2) by (simp add: divide_right_mono)
  also have "\<dots> \<le> (1 / 800 :: rat)" by simp
  finally have e: "\<bar>d - x\<bar> \<le> 1 / 800" using d(2) by linarith
  have "\<bar>d * 100 - of_int c\<bar> \<le> 1 / 8" using e unfolding x_def by linarith
  moreover have "0 < d" using e x(1) by linarith
  ultimately show ?thesis using d(1) by (auto simp: x_def)
qed

lemma cents_product:
  assumes "0 < c" "c \<le> 10 ^ 15" "\<bar>d * 100 - of_int c\<bar> \<le> 1 / 8"
  shows "\<exists>r. to_double (d * 100) = Fin r \<and> \<bar>r - of_int c\<bar> \<le> 1 / 4"
proof -
  define y :: rat where "y = d * 100"
  note b = cents_bounds [OF assms(1,2)]
  have y: "7 / 8 \<le> y" "y \<le> 10 ^ 15 + 1 / 8" using b assms(3) unfolding y_def by linarith+
  have "(2::rat) powi (- 1022) \<le> 7 / 8" by (simp add: power_int_minus field_simps)
  then have lo: "2 powi (- 1022) \<le> y" using y(1) by linarith
  have "(10::rat) ^ 15 + 1 / 8 < 2 ^ 1023" by simp
  then have hi: "y < 2 ^ 1023" using y(2) by linarith
  obtain r where r: "to_double y = Fin r" "\<bar>r - y\<bar> \<le> y / 2 ^ 53"
    using to_double_rel_error [OF lo hi] by auto
  have "y / 2 ^ 53 \<le> (10 ^ 15 + 1 / 8) / 2 ^ 53" using y(2) by (simp add: divide_right_mono)
  also have "\<dots> \<le> (1 / 8 :: rat)" by simp
  finally have "\<bar>r - y\<bar> \<le> 1 / 8" using r(2) by linarith
  then have "\<bar>r - of_int c\<bar> \<le> 1 / 4" using assms(3) unfolding y_def by linarith
  then show ?thesis using r(1) by (auto simp: y_def)
qed

lemma floor_near:
  assumes "\<bar>r - of_int c\<bar> \<le> (1 / 4 :: rat)"
  shows "\<lfloor>r + 1 / 2\<rfloor> = c" and "\<lfloor>- r + 1 / 2\<rfloor> = - c"
proof -
  have a: "of_int c - 1 / 4 \<le> r" "r \<le> of_int c + 1 / 4" using assms by linarith+
  show "\<lfloor>r + 1 / 2\<rfloor> = c" using a by (intro floor_unique) simp_all
  show "\<lfloor>- r + 1 / 2\<rfloor> = - c" using a by (intro floor_unique) simp_all
qed

text \<open>
  \<open>Math.round(n * 100)\<close> for the double \<open>n\<close> nearest to an amount of \<open>c\<close> cents, of either
  sign, is \<open>c\<close>.
\<close>

lemma Math_round_cents:
  assumes "0 < c" "c \<le> 10 ^ 15"
  shows "Math_round (js_mul (to_double (of_int c / 100)) (Fin 100)) = Fin (of_int c)"
    and "Math_round (js_mul (js_neg (to_double (of_int c / 100))) (Fin 100)) = Fin (- of_int c)"
proof -
  obtain d where d: "to_double (of_int c / 100) = Fin d" "\<bar>d * 100 - of_int c\<bar> \<le> 1 / 8"
    using cents_double [OF assms] by auto
  obtain r where r: "to_double (d * 100) = Fin r" "\<bar>r - of_int c\<bar> \<le> 1 / 4"
    using cents_product [OF assms d(2)] by auto
  note f = floor_near [OF r(2)]
  show "Math_round (js_mul (to_double (of_int c / 100)) (Fin 100)) = Fin (of_int c)"
    using d(1) r(1) f(1) by simp
  have "to_double (- d * 100) = Fin (- r)"
    using to_double_minus [of "d * 100"] r(1) by simp
  then show "Math_round (js_mul (js_neg (to_double (of_int c / 100))) (Fin 100))
               = Fin (- of_int c)"
    using d(1) f(2) by simp
qed

text \<open>\<open>(c / 100).toFixed(2)\<close> prints \<open>c\<close> cents in the canonical form.\<close>

lemma toFixed2_cents:
  assumes "0 < c" "c \<le> 10 ^ 15"
  shows "toFixed2 (to_double (of_int c / 100)) = canonical2 c"
    and "toFixed2 (js_neg (to_double (of_int c / 100))) = canonical2 (- c)"
proof -
  obtain d where d: "to_double (of_int c / 100) = Fin d" "0 < d"
    "\<bar>d * 100 - of_int c\<bar> \<le> 1 / 8"
    using cents_double [OF assms] by auto
  note b = cents_bounds [OF assms]
  have "\<bar>d * 100 - of_int c\<bar> \<le> 1 / 4" using d(3) by linarith
  then have n: "\<lfloor>d * 100 + 1 / 2\<rfloor> = c" by (rule floor_near)
  have "(of_int c :: rat) \<le> 1000000000000000" using b(2) by simp
  then have "d < 1000000000000000000000" using d(3) by linarith
  then have small: "\<not> 10 ^ 21 \<le> d" by simp
  have l: "(let m0 = digits_of c;
              m = replicate (3 - length m0) CHR ''0'' @ m0;
              k = length m
            in take (k - 2) m @ ''.'' @ drop (k - 2) m)
           = digits_of (c div 100) @ ''.'' @ [digit_char (c div 10 mod 10), digit_char (c mod 10)]"
    using assms(1) by (intro cents_layout) simp
  show "toFixed2 (to_double (of_int c / 100)) = canonical2 c"
    using d(1,2) n small l assms(1) by (simp add: toFixed2_def canonical2_def Let_def)
  show "toFixed2 (js_neg (to_double (of_int c / 100))) = canonical2 (- c)"
    using d(1,2) n small l assms(1) by (simp add: toFixed2_def canonical2_def Let_def)
qed

lemma toFixed2_zero: "toFixed2 (Fin 0) = canonical2 0"
  using cents_layout [of 0] by (simp add: toFixed2_def canonical2_def Let_def)

lemma centsToAmountStr_cents:
  assumes "\<bar>c\<bar> \<le> 10 ^ 15"
  shows "centsToAmountStr (Val (JNum (Fin (of_int c)))) = canonical2 c"
proof -
  have a: "centsToAmountStr (Val (JNum (Fin (of_int c)))) = toFixed2 (to_double (of_int c / 100))"
    by (simp add: centsToAmountStr_def js_or_def)
  consider "c = 0" | "0 < c" | "c < 0" by linarith
  then show ?thesis
  proof cases
    case 1
    then show ?thesis using a toFixed2_zero by simp
  next
    case 2
    then show ?thesis using a toFixed2_cents(1) [of c] assms by simp
  next
    case 3
    then have "toFixed2 (js_neg (to_double (of_int (- c) / 100))) = canonical2 (- (- c))"
      using assms by (intro toFixed2_cents(2)) simp_all
    moreover have "to_double (of_int c / 100) = js_neg (to_double (of_int (- c) / 100))"
      using to_double_minus [of "of_int (- c) / 100"] by simp
    ultimately show ?thesis using a by simp
  qed
qed

subsection \<open>Decimal strings with at most two fractional digits\<close>

lemma digits_val_nonneg: "list_all is_digit s \<Longrightarrow> 0 \<le> digits_val s"
  by (simp add: digits_val_def digits_val_from_nonneg)

text \<open>A hundred times the value of the digits is a whole number of cents.\<close>

lemma value_in_cents:
  assumes "length fd \<le> 2"
  shows "(of_int (digits_val ip) + of_int (digits_val fd) / 10 ^ length fd :: rat)
           = of_int (digits_val ip * 100 + digits_val fd * 10 ^ (2 - length fd)) / 100"
proof -
  consider "length fd = 0" | "length fd = 1" | "length fd = 2" using assms by linarith
  then show ?thesis by cases simp_all
qed

lemma floor_cents: "\<lfloor>(of_int k :: rat) / 100 * 100 + 1 / 2\<rfloor> = k"
  and "\<lfloor>- ((of_int k :: rat) / 100) * 100 + 1 / 2\<rfloor> = - k"
  by (rule floor_unique; simp)+

text \<open>
  The parts of the round trip, for a number \<open>k\<close> of cents that is the value of the digits:
  what \<open>Number\<close> reads becomes \<open>k\<close> cents, with the sign.
\<close>

lemma Math_round_number:
  assumes "0 \<le> k" "k \<le> 10 ^ 15"
    and "n = (if neg then js_neg (to_double (of_int k / 100)) else to_double (of_int k / 100))"
  shows "(if \<not> isFinite n then Fin 0 else Math_round (js_mul n (Fin 100)))
           = Fin (of_int (if neg then - k else k))"
proof (cases "k = 0")
  case True
  then show ?thesis using assms(3) by simp
next
  case False
  then have k: "0 < k" using assms(1) by simp
  obtain d where d: "to_double (of_int k / 100) = Fin d"
    using cents_double [OF k assms(2)] by auto
  then have "isFinite n" using assms(3) by simp
  then show ?thesis
    using Math_round_cents [OF k assms(2)] assms(3) by simp
qed

lemma amountStrToCents_decimal:
  assumes "is_decimal ip fr" "length (fraction_digits fr) \<le> 2"
    and "\<bar>decimal_cents neg ip fr\<bar> \<le> 10 ^ 15"
  shows "amountStrToCents (Val (JStr (decimal_string neg ip fr)))
           = Fin (of_int (decimal_cents neg ip fr))"
proof -
  define fd where "fd = fraction_digits fr"
  define k where "k = digits_val ip * 100 + digits_val fd * 10 ^ (2 - length fd)"
  have ip: "ip \<noteq> []" "list_all is_digit ip" using assms(1) by (simp_all add: is_decimal_def)
  have fd: "list_all is_digit fd"
    using assms(1)
    by (auto simp: is_decimal_def fd_def fraction_digits_def split: option.splits prod.splits)
  have v: "(of_int (digits_val ip) + of_int (digits_val fd) / 10 ^ length fd :: rat)
             = of_int k / 100"
    unfolding k_def using assms(2) by (intro value_in_cents) (simp add: fd_def)
  have c: "decimal_cents neg ip fr = (if neg then - k else k)"
    using floor_cents [of k]
    by (simp add: decimal_cents_def decimal_value_def Let_def fd_def [symmetric] v)
  have k0: "0 \<le> k"
    using digits_val_nonneg [OF ip(2)] digits_val_nonneg [OF fd] by (simp add: k_def)
  have k1: "k \<le> 10 ^ 15" using assms(3) k0 by (simp add: c split: if_splits)
  define s where "s = decimal_string neg ip fr"
  have s: "s \<noteq> []" using ip(1) by (simp add: s_def decimal_string_def)
  have n: "StringToNumber (replace_comma s)
             = (if neg then js_neg (to_double (of_int k / 100)) else to_double (of_int k / 100))"
  proof (cases fr)
    case None
    then have "fd = []" by (simp add: fd_def fraction_digits_def)
    then have "(of_int (digits_val ip) :: rat) = of_int k / 100"
      using v by (simp add: digits_val_def)
    then have "to_double (of_int (digits_val ip)) = to_double (of_int k / 100)"
      by (rule arg_cong)
    then show ?thesis
      using None Number_of_integer [OF ip, of neg] replace_comma_integer [OF ip(2), of neg]
      by (simp add: s_def)
  next
    case (Some p)
    obtain sep f where p: "p = (sep, f)" by (cases p)
    have f: "f = fd" using Some p by (simp add: fd_def fraction_digits_def)
    have sep: "sep = CHR ''.'' \<or> sep = CHR '',''"
      using assms(1) Some p by (simp add: is_decimal_def)
    have "to_double (of_int (digits_val ip) + of_int (digits_val fd) / 10 ^ length fd)
            = to_double (of_int k / 100)"
      using v by (rule arg_cong)
    then show ?thesis
      using Some p f Number_of_fraction [OF ip fd, of neg]
        replace_comma_fraction [OF ip(2) fd sep, of neg]
      by (simp add: s_def)
  qed
  have "amountStrToCents (Val (JStr s))
          = (let n = StringToNumber (replace_comma s)
             in if \<not> isFinite n then Fin 0 else Math_round (js_mul n (Fin 100)))"
    using s by (simp add: amountStrToCents_def js_or_def)
  also have "\<dots> = Fin (of_int (if neg then - k else k))"
    unfolding Let_def using k0 k1 n by (rule Math_round_number)
  finally show ?thesis by (simp add: c s_def)
qed

text \<open>The digits that the canonical form and the examples print.\<close>

lemma digit_chars:
  "digit_char 0 = CHR ''0''" "digit_char 1 = CHR ''1''" "digit_char 2 = CHR ''2''"
  "digit_char 3 = CHR ''3''" "digit_char 4 = CHR ''4''" "digit_char 5 = CHR ''5''"
  "digit_char 6 = CHR ''6''" "digit_char 7 = CHR ''7''" "digit_char 8 = CHR ''8''"
  "digit_char 9 = CHR ''9''"
  by (simp_all only: of_char_eq_iff [symmetric, where ?'a = int]) (simp_all add: digit_char_def)

text \<open>The doubles on the way of the integer \<open>2^54 + 1\<close>.\<close>

lemma double_2_54_1: "to_double 18014398509481985 = Fin 18014398509481984"
proof -
  have "to_double 18014398509481985 = Fin (of_int 4503599627370496 * 2 powi 2)"
    by (rule to_double_pos [where e = 54]) (simp_all add: round_half_even_near)
  then show ?thesis by simp
qed

lemma double_2_54_times_100: "to_double 1801439850948198400 = Fin 1801439850948198400"
proof -
  have "to_double (of_int 25 * 2 powi 56) = Fin (of_int 25 * 2 powi 56)"
    by (rule to_double_exact_pos) simp_all
  then show ?thesis by simp
qed

lemma double_2_54: "to_double 18014398509481984 = Fin 18014398509481984"
proof -
  have "to_double (of_int 1 * 2 powi 54) = Fin (of_int 1 * 2 powi 54)"
    by (rule to_double_exact_pos) simp_all
  then show ?thesis by simp
qed

lemma cents_of_2_54_1:
  "amountStrToCents (Val (JStr ''18014398509481985'')) = Fin 1801439850948198400"
proof -
  have "StringToNumber ((if False then ''-'' else []) @ ''18014398509481985'')
          = to_double (of_int (digits_val ''18014398509481985''))"
    by (subst Number_of_integer) (simp_all add: is_digit_def)
  then have "StringToNumber ''18014398509481985'' = Fin 18014398509481984"
    by (simp add: digits_val_def digit_val_def double_2_54_1)
  moreover have "\<lfloor>(1801439850948198400 :: rat) + 1 / 2\<rfloor> = 1801439850948198400"
    by (rule floor_unique) simp_all
  ultimately show ?thesis
    by (simp add: amountStrToCents_def js_or_def double_2_54_times_100)
qed

lemma amount_of_2_54:
  "centsToAmountStr (Val (JNum (Fin 1801439850948198400))) = ''18014398509481984.00''"
proof -
  have "\<lfloor>(18014398509481984 :: rat) * 100 + 1 / 2\<rfloor> = 1801439850948198400"
    by (rule floor_unique) simp_all
  moreover have "digits_of 1801439850948198400 = ''1801439850948198400''"
    by (simp add: digits_of.simps digit_chars)
  ultimately show ?thesis
    by (simp add: centsToAmountStr_def js_or_def double_2_54 toFixed2_def Let_def)
qed

text \<open>
  C1, with the bounds it holds in. A decimal string is an optional minus sign, one digit
  or more, and optionally a point or a comma followed by digits. With at most two
  fractional digits and a value of at most \<open>10^15\<close> cents in magnitude,
  \<open>amountStrToCents\<close> gives the exact number of cents of the string, and
  \<open>centsToAmountStr(amountStrToCents(s))\<close> is the canonical form of that value with two
  fractional digits.
\<close>

theorem decimal_round_trip:
  assumes "is_decimal ip fr" "length (fraction_digits fr) \<le> 2"
    and "\<bar>decimal_cents neg ip fr\<bar> \<le> 10 ^ 15"
  shows "amountStrToCents (Val (JStr (decimal_string neg ip fr)))
           = Fin (of_int (decimal_cents neg ip fr)) \<and>
         centsToAmountStr (Val (JNum (amountStrToCents (Val (JStr (decimal_string neg ip fr))))))
           = canonical2 (decimal_cents neg ip fr)"
  using amountStrToCents_decimal [OF assms] centsToAmountStr_cents [OF assms(3)] by simp

theorem decimal_round_trip_witness:
  "is_decimal ''12'' (Some (CHR '','', ''5'')) \<and>
   length (fraction_digits (Some (CHR '','', ''5''))) \<le> 2 \<and>
   \<bar>decimal_cents True ''12'' (Some (CHR '','', ''5''))\<bar> \<le> 10 ^ 15 \<and>
   decimal_string True ''12'' (Some (CHR '','', ''5'')) = ''-12,5'' \<and>
   amountStrToCents (Val (JStr ''-12,5'')) = Fin (- 1250) \<and>
   centsToAmountStr (Val (JNum (amountStrToCents (Val (JStr ''-12,5''))))) = ''-12.50''"
proof -
  have "\<lfloor>- (25 / 2 :: rat) * 100 + 1 / 2\<rfloor> = - 1250" by (rule floor_unique) simp_all
  then have c: "decimal_cents True ''12'' (Some (CHR '','', ''5'')) = - 1250"
    by (simp add: decimal_cents_def decimal_value_def fraction_digits_def digits_val_def
        digit_val_def)
  have "digits_of 12 = ''12''" by (simp add: digits_of.simps digit_chars)
  then have k: "canonical2 (- 1250) = ''-12.50''" by (simp add: canonical2_def digit_chars)
  have s: "decimal_string True ''12'' (Some (CHR '','', ''5'')) = ''-12,5''"
    by (simp add: decimal_string_def)
  have h1: "is_decimal ''12'' (Some (CHR '','', ''5''))"
    by (simp add: is_decimal_def is_digit_def)
  have h2: "length (fraction_digits (Some (CHR '','', ''5''))) \<le> 2"
    by (simp add: fraction_digits_def)
  have h3: "\<bar>decimal_cents True ''12'' (Some (CHR '','', ''5''))\<bar> \<le> 10 ^ 15"
    by (simp add: c)
  note t = decimal_round_trip [OF h1 h2 h3, unfolded s c k]
  from t have a: "amountStrToCents (Val (JStr ''-12,5'')) = Fin (- 1250)" by simp
  from t have b: "centsToAmountStr (Val (JNum (amountStrToCents (Val (JStr ''-12,5'')))))
                    = ''-12.50''"
    by (rule conjunct2)
  show ?thesis by (intro conjI h1 h2 h3 s a b)
qed

text \<open>
  The claim as it is worded, for every decimal string, fails on a long one: the integer
  \<open>18014398509481985\<close> (\<open>2^54 + 1\<close>) is no double, \<open>Number\<close> reads it as \<open>2^54\<close>, and the
  round trip prints \<open>18014398509481984.00\<close>.
\<close>

theorem decimal_round_trip_counterexample:
  "is_decimal ''18014398509481985'' None \<and>
   decimal_string False ''18014398509481985'' None = ''18014398509481985'' \<and>
   centsToAmountStr (Val (JNum (amountStrToCents (Val (JStr ''18014398509481985'')))))
     = ''18014398509481984.00'' \<and>
   canonical2 (decimal_cents False ''18014398509481985'' None) = ''18014398509481985.00'' \<and>
   centsToAmountStr (Val (JNum (amountStrToCents
       (Val (JStr (decimal_string False ''18014398509481985'' None))))))
     \<noteq> canonical2 (decimal_cents False ''18014398509481985'' None)"
proof -
  have "\<lfloor>(18014398509481985 :: rat) * 100 + 1 / 2\<rfloor> = 1801439850948198500"
    by (rule floor_unique) simp_all
  then have c: "decimal_cents False ''18014398509481985'' None = 1801439850948198500"
    by (simp add: decimal_cents_def decimal_value_def fraction_digits_def digits_val_def
        digit_val_def)
  have "digits_of 18014398509481985 = ''18014398509481985''"
    by (simp add: digits_of.simps digit_chars)
  then have k: "canonical2 1801439850948198500 = ''18014398509481985.00''"
    by (simp add: canonical2_def digit_chars)
  have s: "decimal_string False ''18014398509481985'' None = ''18014398509481985''"
    by (simp add: decimal_string_def)
  have d: "is_decimal ''18014398509481985'' None" by (simp add: is_decimal_def is_digit_def)
  show ?thesis
    unfolding s c k cents_of_2_54_1 amount_of_2_54 using d by simp
qed

section \<open>The bank amount of the dashboard\<close>

lemma bankCents_string:
  "bankCents (JObj ((k, JStr s) # ps)) k = amountStrToCents (Val (JStr s))"
  by (simp add: bankCents_def opt_get_def get_def bankCents_of_def)

lemma bankCents_number:
  "bankCents (JObj ((k, JNum x) # ps)) k = (if num_truthy x then x else Fin 0)"
  by (simp add: bankCents_def opt_get_def get_def bankCents_of_def js_or_def)

text \<open>The digits of a whole number of units, read as a decimal string.\<close>

lemma units_decimal:
  assumes "0 \<le> n"
  shows "is_decimal (digits_of n) None"
    and "decimal_string False (digits_of n) None = digits_of n"
    and "decimal_cents False (digits_of n) None = n * 100"
proof -
  note p = digits_of_props [OF assms]
  show "is_decimal (digits_of n) None" using p by (simp add: is_decimal_def)
  show "decimal_string False (digits_of n) None = digits_of n" by (simp add: decimal_string_def)
  have "\<lfloor>(of_int (n * 100) :: rat) + 1 / 2\<rfloor> = n * 100" by (rule floor_unique) simp_all
  then show "decimal_cents False (digits_of n) None = n * 100"
    using p by (simp add: decimal_cents_def decimal_value_def fraction_digits_def digits_val_def)
qed

lemma units_cents:
  assumes "0 \<le> n" "n \<le> 10 ^ 13"
  shows "amountStrToCents (Val (JStr (digits_of n))) = Fin (of_int (n * 100))"
proof -
  note u = units_decimal [OF assms(1)]
  have "\<bar>decimal_cents False (digits_of n) None\<bar> \<le> 10 ^ 15" using assms by (simp add: u(3))
  then have "amountStrToCents (Val (JStr (decimal_string False (digits_of n) None)))
               = Fin (of_int (decimal_cents False (digits_of n) None))"
    using u(1) by (intro amountStrToCents_decimal) (simp_all add: fraction_digits_def)
  then show ?thesis by (simp only: u(2,3))
qed

lemma canonical2_units:
  assumes "0 \<le> n"
  shows "canonical2 (n * 100) = digits_of n @ ''.00''"
proof -
  have "\<bar>n * 100\<bar> div 100 = n" "\<bar>n * 100\<bar> div 10 mod 10 = 0" "\<bar>n * 100\<bar> mod 10 = 0"
    using assms by simp_all
  then show ?thesis using assms by (simp add: canonical2_def digit_chars)
qed

lemma double_1_10: "to_double (1 / 10) = Fin (3602879701896397 / 36028797018963968)"
proof -
  have "to_double (1 / 10) = Fin (of_int 7205759403792794 * 2 powi (- 56))"
    by (rule to_double_pos [where e = "- 4"]) (simp_all add: round_half_even_near)
  then show ?thesis by simp
qed

lemma shown_10_00: "formatMoney_value (Val (JStr ''10.00'')) = Fin 10"
proof -
  have "StringToNumber ((if False then ''-'' else []) @ ''10'' @ CHR ''.'' # ''00'')
          = to_double (of_int (digits_val ''10'') + of_int (digits_val ''00'') / 10 ^ length ''00'')"
    by (subst Number_of_fraction) (simp_all add: is_digit_def)
  moreover have "to_double (of_int 10) = Fin (of_int 10)" by (rule to_double_of_int) simp
  ultimately have "StringToNumber ''10.00'' = Fin 10"
    by (simp add: digits_val_def digit_val_def)
  then show ?thesis by (simp add: formatMoney_value_def js_or_def)
qed

lemma shown_0_10:
  "formatMoney_value (Val (JStr ''0.10'')) = Fin (3602879701896397 / 36028797018963968)"
proof -
  have "StringToNumber ((if False then ''-'' else []) @ ''0'' @ CHR ''.'' # ''10'')
          = to_double (of_int (digits_val ''0'') + of_int (digits_val ''10'') / 10 ^ length ''10'')"
    by (subst Number_of_fraction) (simp_all add: is_digit_def)
  then have "StringToNumber ''0.10'' = Fin (3602879701896397 / 36028797018963968)"
    by (simp add: digits_val_def digit_val_def double_1_10)
  then show ?thesis by (simp add: formatMoney_value_def js_or_def)
qed

lemma digits_of_10: "digits_of 0 = ''0''" "digits_of 10 = ''10''"
  by (simp_all add: digits_of.simps digit_chars)

text \<open>
  C10. In \<open>renderDashboard\<close> the value found in the bank map under the display currency
  goes through \<open>amountStrToCents\<close> when it is a string, and through \<open>Number(v || 0)\<close>, which
  leaves a number as it is, when it is a number. A string of the digits of \<open>n\<close> (at most
  \<open>10^13\<close>) is therefore \<open>n * 100\<close> cents and prints as \<open>n\<close> units, while the number \<open>n\<close> is \<open>n\<close>
  cents and prints as a hundredth of it. Under the key \<open>EUR\<close>, the string \<open>10\<close> gives the
  amount \<open>10.00\<close> and \<open>formatMoney\<close> formats the number \<open>10\<close>; the number \<open>10\<close> gives the amount
  \<open>0.10\<close> and \<open>formatMoney\<close> formats the double nearest to a tenth.
\<close>

theorem bank_amount_by_json_type:
  assumes "0 \<le> n" "n \<le> 10 ^ 13"
  shows "bankCents (JObj ((k, JStr s) # ps)) k = amountStrToCents (Val (JStr s)) \<and>
         bankCents (JObj ((k, JNum x) # ps)) k = (if num_truthy x then x else Fin 0) \<and>
         bankCents (JObj ((k, JStr (digits_of n)) # ps)) k = Fin (of_int (n * 100)) \<and>
         bankCents (JObj ((k, JNum (Fin (of_int n))) # ps)) k = Fin (of_int n) \<and>
         bank_amount (JObj ((k, JStr (digits_of n)) # ps)) k = digits_of n @ ''.00'' \<and>
         bank_amount (JObj ((k, JNum (Fin (of_int n))) # ps)) k = canonical2 n \<and>
         pickCurrency [JObj [(''EUR'', JStr ''10'')], JObj [], JObj []] = ''EUR'' \<and>
         pickCurrency [JObj [(''EUR'', JNum (Fin 10))], JObj [], JObj []] = ''EUR'' \<and>
         bank_amount (JObj [(''EUR'', JStr ''10'')]) ''EUR'' = ''10.00'' \<and>
         bank_amount (JObj [(''EUR'', JNum (Fin 10))]) ''EUR'' = ''0.10'' \<and>
         bank_shown (JObj [(''EUR'', JStr ''10'')]) ''EUR'' = Fin 10 \<and>
         bank_shown (JObj [(''EUR'', JNum (Fin 10))]) ''EUR''
           = Fin (3602879701896397 / 36028797018963968)"
proof -
  have a: "\<bar>n\<bar> \<le> 10 ^ 15" "\<bar>n * 100\<bar> \<le> 10 ^ 15" using assms by simp_all
  have s: "bankCents (JObj ((k, JStr (digits_of n)) # ps)) k = Fin (of_int (n * 100))"
    for k ps
    using units_cents [OF assms] by (simp only: bankCents_string)
  have t: "bank_amount (JObj ((k, JStr (digits_of n)) # ps)) k = digits_of n @ ''.00''"
    for k ps
    using centsToAmountStr_cents [OF a(2)] canonical2_units [OF assms(1)]
    by (simp only: bank_amount_def s)
  have m: "bankCents (JObj ((k, JNum (Fin (of_int n))) # ps)) k = Fin (of_int n)" for k ps
    by (simp add: bankCents_number)
  have u: "bank_amount (JObj ((k, JNum (Fin (of_int n))) # ps)) k = canonical2 n" for k ps
    using centsToAmountStr_cents [OF a(1)] by (simp only: bank_amount_def m)
  have "amountStrToCents (Val (JStr (digits_of 10))) = Fin (of_int (10 * 100))"
    by (rule units_cents) simp_all
  then have c1: "bankCents (JObj [(''EUR'', JStr ''10'')]) ''EUR'' = Fin 1000"
    by (simp add: bankCents_string digits_of_10)
  have "centsToAmountStr (Val (JNum (Fin (of_int 1000)))) = canonical2 1000"
    by (rule centsToAmountStr_cents) simp
  then have b1: "bank_amount (JObj [(''EUR'', JStr ''10'')]) ''EUR'' = ''10.00''"
    using canonical2_units [of 10] by (simp add: bank_amount_def c1 digits_of_10)
  have c2: "bankCents (JObj [(''EUR'', JNum (Fin 10))]) ''EUR'' = Fin 10"
    by (simp add: bankCents_number)
  have "centsToAmountStr (Val (JNum (Fin (of_int 10)))) = canonical2 10"
    by (rule centsToAmountStr_cents) simp
  then have b2: "bank_amount (JObj [(''EUR'', JNum (Fin 10))]) ''EUR'' = ''0.10''"
    by (simp add: bank_amount_def c2 canonical2_def digits_of_10 digit_chars)
  have p: "pickCurrency [JObj [(''EUR'', JStr ''10'')], JObj [], JObj []] = ''EUR''"
    "pickCurrency [JObj [(''EUR'', JNum (Fin 10))], JObj [], JObj []] = ''EUR''"
    by (simp_all add: pickCurrency_def)
  have h1: "bank_shown (JObj [(''EUR'', JStr ''10'')]) ''EUR'' = Fin 10"
    by (simp only: bank_shown_def b1 shown_10_00)
  have h2: "bank_shown (JObj [(''EUR'', JNum (Fin 10))]) ''EUR''
              = Fin (3602879701896397 / 36028797018963968)"
    by (simp only: bank_shown_def b2 shown_0_10)
  show ?thesis
    by (intro conjI bankCents_string bankCents_number s t m u p b1 b2 h1 h2)
qed

theorem bank_amount_by_json_type_witness:
  "(0::int) \<le> 250 \<and> (250::int) \<le> 10 ^ 13 \<and>
   bankCents (JObj [(''XAF'', JStr ''250'')]) ''XAF'' = Fin 25000 \<and>
   bankCents (JObj [(''XAF'', JNum (Fin 250))]) ''XAF'' = Fin 250 \<and>
   bank_amount (JObj [(''XAF'', JStr ''250'')]) ''XAF'' = ''250.00'' \<and>
   bank_amount (JObj [(''XAF'', JNum (Fin 250))]) ''XAF'' = ''2.50''"
proof -
  have d: "digits_of 250 = ''250''" "digits_of 2 = ''2''"
    by (simp_all add: digits_of.simps digit_chars)
  have c: "canonical2 250 = ''2.50''" by (simp add: canonical2_def d digit_chars)
  show ?thesis
    using bank_amount_by_json_type [of 250 "''XAF''" "''1''" "[]" NaN]
    by (simp add: d c)
qed

end
